(* ===== verification/Prelude.thy ===== *)
theory Prelude
  imports Main "HOL-Library.Word"
begin

text \<open>
  The prelude of the development: the names of the C integer types, the theorem
  collections the components fill, and the facts on words, on bounded indices and on
  functions used as fixed-size C arrays that more than one component needs.

  Unsigned C integers are words of their width. A signed 32-bit integer is a
  \<^typ>\<open>32 word\<close> read by \<^const>\<open>sint\<close>. A C array of constant size is a function from
  indices; the bounds of every index an operation uses are proved where the operation
  is defined.
\<close>

unbundle bit_operations_syntax

section \<open>Names of the C types\<close>

type_synonym u8 = "8 word"
type_synonym u16 = "16 word"
type_synonym u32 = "32 word"
type_synonym u64 = "64 word"
type_synonym i32 = "32 word"
type_synonym bytes = "8 word list"

section \<open>Theorem collections\<close>

named_theorems run_simps "what an operation computes when no other thread runs"
named_theorems frame_simps "the parts of a state an operation leaves as they are"
named_theorems writer_intros "rules that show a thread keeps its guarantee"

section \<open>Words\<close>

lemma and_one_odd [simp]: "(x :: 'a::len word) AND 1 \<noteq> 0 \<longleftrightarrow> odd x"
  by (simp add: and_one_eq mod_2_eq_odd)

lemma and_one_even [simp]: "(x :: 'a::len word) AND 1 = 0 \<longleftrightarrow> even x"
  using and_one_odd [of x] by blast

lemma of_nat_word_eq_0: "(of_nat n :: 'a::len word) = 0 \<Longrightarrow> n < 2 ^ LENGTH('a) \<Longrightarrow> n = 0"
  by (auto simp: word_of_nat_eq_0_iff dest: dvd_imp_le)

lemma of_bool_neq_0 [simp]: "(of_bool b :: 'a::len word) \<noteq> 0 \<longleftrightarrow> b"
  by (cases b) simp_all

text \<open>The two 32-bit halves of a 64-bit value, and the value put back together.\<close>

definition low_half :: "u64 \<Rightarrow> u32" where
  "low_half bits = ucast bits"

definition high_half :: "u64 \<Rightarrow> u32" where
  "high_half bits = ucast (drop_bit 32 bits)"

definition join_halves :: "u32 \<Rightarrow> u32 \<Rightarrow> u64" where
  "join_halves high low = push_bit 32 (ucast high) OR ucast low"

lemma join_split [simp]: "join_halves (high_half b) (low_half b) = b"
  by (rule bit_word_eqI) (auto simp: join_halves_def high_half_def low_half_def bit_simps)

section \<open>Signed values\<close>

definition slt :: "i32 \<Rightarrow> i32 \<Rightarrow> bool" where
  "slt a b \<longleftrightarrow> sint a < sint b"

definition sle :: "i32 \<Rightarrow> i32 \<Rightarrow> bool" where
  "sle a b \<longleftrightarrow> sint a \<le> sint b"

lemma sint_small_nat:
  assumes "n < 2 ^ 31"
  shows "sint (of_nat n :: i32) = int n"
  using assms by (simp add: signed_of_nat take_bit_nat_eq_self signed_take_bit_int_eq_self)

end
