(* ===== verification/Threads.thy ===== *)
theory Threads
  imports Prelude
begin

text \<open>
  Two threads share the runtime-control state: the Zenoh transport thread, which serves
  queries, and the 50 Hz controller thread. Each C function that touches shared atomics
  is modelled once, as a program: a tree of atomic steps in the order of the source, each
  step one C11 atomic operation (its result is a 32-bit word; flags and booleans are the
  words 0 and 1). \<open>run\<close> executes a program alone; \<open>interleaved\<close> executes it while the other
  thread takes steps of its own at any point.

  The atomics are interleaved: the model has one order of all atomic operations, so the
  memory-order arguments of the source are not represented.
\<close>

section \<open>Programs of atomic steps\<close>

datatype (dead 'm, 'a) prog =
    Ret 'a
  | Step "'m \<Rightarrow> u32 \<times> 'm" "u32 \<Rightarrow> ('m, 'a) prog"

primrec pbind :: "('m, 'a) prog \<Rightarrow> ('a \<Rightarrow> ('m, 'b) prog) \<Rightarrow> ('m, 'b) prog" where
  "pbind (Ret a) h = h a"
| "pbind (Step f k) h = Step f (\<lambda>r. pbind (k r) h)"

text \<open>A loop over a list of indices that threads a local state through its body.\<close>

primrec for_each :: "'i list \<Rightarrow> ('i \<Rightarrow> 's \<Rightarrow> ('m, 's) prog) \<Rightarrow> 's \<Rightarrow> ('m, 's) prog" where
  "for_each [] body s = Ret s"
| "for_each (i # is) body s = pbind (body i s) (for_each is body)"

text \<open>One atomic operation whose result is used, and one whose result is dropped.\<close>

definition atomic :: "('m \<Rightarrow> u32 \<times> 'm) \<Rightarrow> ('m, u32) prog" where
  "atomic f = Step f Ret"

definition atomic_do :: "('m \<Rightarrow> 'm) \<Rightarrow> ('m, unit) prog" where
  "atomic_do f = Step (\<lambda>m. (0, f m)) (\<lambda>_. Ret ())"

lemma bind_assoc: "pbind (pbind p g) h = pbind p (\<lambda>a. pbind (g a) h)"
  by (induction p) auto

lemma bind_Ret [simp]: "pbind p Ret = p"
  by (induction p) auto

section \<open>A program alone\<close>

primrec run :: "('m, 'a) prog \<Rightarrow> 'm \<Rightarrow> 'a \<times> 'm" where
  "run (Ret a) m = (a, m)"
| "run (Step f k) m = (let (r, m') = f m in run (k r) m')"

lemma run_bind [run_simps]: "run (pbind p h) m = (let (a, m') = run p m in run (h a) m')"
  by (induction p arbitrary: m) (auto split: prod.splits)

lemma run_atomic [run_simps]: "run (atomic f) m = f m"
  by (auto simp: atomic_def split: prod.splits)

lemma run_atomic_do [run_simps]: "run (atomic_do f) m = ((), f m)"
  by (simp add: atomic_do_def)

lemma run_bind_load [run_simps]:
  "run (pbind (atomic f) h) m = (let (r, m') = f m in run (h r) m')"
  by (simp add: run_bind run_atomic)

lemma run_bind_do [run_simps]: "run (pbind (atomic_do f) h) m = run (h ()) (f m)"
  by (simp add: run_bind run_atomic_do)

lemma run_for_each_Cons [run_simps]:
  "run (for_each (i # is) b s) m = (let (s', m') = run (b i s) m in run (for_each is b s') m')"
  by (simp add: run_bind)

section \<open>A program among the steps of others\<close>

text \<open>
  \<open>exec_env R n p m a m'\<close>: program \<open>p\<close> runs from memory \<open>m\<close> to result \<open>a\<close> and memory \<open>m'\<close>
  while its environment takes \<open>n\<close> steps in all, each related by \<open>R\<close>, at any points.
\<close>

inductive exec_env ::
  "('m \<Rightarrow> 'm \<Rightarrow> bool) \<Rightarrow> nat \<Rightarrow> ('m, 'a) prog \<Rightarrow> 'm \<Rightarrow> 'a \<Rightarrow> 'm \<Rightarrow> bool"
  for R where
  exec_ret: "exec_env R 0 (Ret a) m a m"
| exec_other: "R m m1 \<Longrightarrow> exec_env R n p m1 a m' \<Longrightarrow> exec_env R (Suc n) p m a m'"
| exec_own: "f m = (r, m1) \<Longrightarrow> exec_env R n (k r) m1 a m' \<Longrightarrow> exec_env R n (Step f k) m a m'"

text \<open>The environment's part of a run, as a number of steps from a memory.\<close>

inductive env_steps :: "('m \<Rightarrow> 'm \<Rightarrow> bool) \<Rightarrow> nat \<Rightarrow> 'm \<Rightarrow> 'm \<Rightarrow> bool" for R where
  env_none: "env_steps R 0 m m"
| env_more: "R m m1 \<Longrightarrow> env_steps R n m1 m' \<Longrightarrow> env_steps R (Suc n) m m'"

inductive_cases env_steps_0E [elim!]: "env_steps R 0 m m'"
inductive_cases env_steps_SucE: "env_steps R (Suc n) m m'"

lemma env_steps_trans: "env_steps R i m1 m2 \<Longrightarrow> env_steps R j m2 m3 \<Longrightarrow> env_steps R (i + j) m1 m3"
  by (induction rule: env_steps.induct) (auto intro: env_steps.intros)

lemma env_steps_invariant:
  "env_steps R n m m' \<Longrightarrow> (\<And>m m'. R m m' \<Longrightarrow> I m \<Longrightarrow> I m') \<Longrightarrow> I m \<Longrightarrow> I m'"
  by (induction rule: env_steps.induct) auto

text \<open>Inversion: what happened before a program's next own step.\<close>

lemma exec_env_RetD:
  "exec_env R n (Ret a) m b m' \<Longrightarrow> b = a \<and> env_steps R n m m'"
  by (induction n "Ret a :: ('a, 'b) prog" m b m' rule: exec_env.induct)
     (auto intro: env_steps.intros)

lemma exec_env_StepD:
  "exec_env R n (Step f k) m a m' \<Longrightarrow>
   \<exists>i j m1. n = i + j \<and> env_steps R i m m1 \<and> exec_env R j (k (fst (f m1))) (snd (f m1)) a m'"
proof (induction n "Step f k" m a m' rule: exec_env.induct)
  case (exec_other m m1 n a m')
  then obtain i j m2 where *: "n = i + j" "env_steps R i m1 m2"
    "exec_env R j (k (fst (f m2))) (snd (f m2)) a m'" by blast
  have "Suc n = Suc i + j" "env_steps R (Suc i) m m2"
    using * exec_other(1) by (auto intro: env_steps.intros)
  with * show ?case by blast
next
  case (exec_own m r m1 n a m')
  then show ?case
    by (intro exI [of _ "0 :: nat"] exI [of _ n] exI [of _ m]) (auto intro: env_steps.intros)
qed

lemma exec_env_prefix:
  "env_steps R i m m1 \<Longrightarrow> exec_env R j p m1 a m' \<Longrightarrow> exec_env R (i + j) p m a m'"
  by (induction rule: env_steps.induct) (auto intro: exec_env.intros)

lemma exec_env_suffix:
  "exec_env R i p m a m1 \<Longrightarrow> env_steps R j m1 m' \<Longrightarrow> exec_env R (i + j) p m a m'"
proof (induction rule: exec_env.induct)
  case (exec_ret a m)
  then show ?case by (induction rule: env_steps.induct) (auto intro: exec_env.intros)
qed (auto intro: exec_env.intros)

lemma exec_env_load:
  "exec_env R n (atomic (\<lambda>m. (f m, m))) m a m' \<Longrightarrow>
   \<exists>i j m1. n = i + j \<and> env_steps R i m m1 \<and> a = f m1 \<and> env_steps R j m1 m'"
  unfolding atomic_def by (fastforce dest!: exec_env_StepD exec_env_RetD)

lemma exec_env_bindD:
  "exec_env R n (pbind p h) m b m' \<Longrightarrow>
   \<exists>i j a m1. n = i + j \<and> exec_env R i p m a m1 \<and> exec_env R j (h a) m1 b m'"
proof (induction p arbitrary: n m)
  case (Ret x)
  then show ?case
    by (intro exI [of _ "0 :: nat"] exI [of _ n] exI [of _ x] exI [of _ m])
       (auto intro: exec_env.intros)
next
  case (Step f k)
  then obtain i j m1 where *: "n = i + j" "env_steps R i m m1"
    "exec_env R j (pbind (k (fst (f m1))) h) (snd (f m1)) b m'"
    by (auto dest: exec_env_StepD)
  from Step.IH [OF _ *(3)] obtain i' j' a m2 where
    **: "j = i' + j'" "exec_env R i' (k (fst (f m1))) (snd (f m1)) a m2" "exec_env R j' (h a) m2 b m'"
    by blast
  have "exec_env R i' (Step f k) m1 a m2"
    using **(2) by (auto intro: exec_own [where r = "fst (f m1)" and ?m1.0 = "snd (f m1)"])
  with *(2) have "exec_env R (i + i') (Step f k) m a m2" by (rule exec_env_prefix)
  with * ** show ?case by (metis add.assoc)
qed


lemma exec_env_bindE:
  assumes "exec_env R n (pbind p h) m b m'"
  obtains i j a m1 where "n = i + j" "exec_env R i p m a m1" "exec_env R j (h a) m1 b m'"
  using exec_env_bindD [OF assms] by blast

text \<open>A load happens at some point, with steps of the environment before and after it.\<close>

lemma exec_env_loadE:
  assumes "exec_env R n (pbind (atomic (\<lambda>m. (f m, m))) h) m b m'"
  obtains i j l m1 m2 where "n = i + j + l" "env_steps R i m m1" "env_steps R j m1 m2"
    "exec_env R l (h (f m1)) m2 b m'"
  using assms by (blast elim!: exec_env_bindE dest: exec_env_load)

text \<open>A loop keeps what its body and the environment keep.\<close>

lemma exec_env_for_each:
  assumes "exec_env R n (for_each is b s) m s' m'" and "I s m"
    and "\<And>s x y. R x y \<Longrightarrow> I s x \<Longrightarrow> I s y"
    and "\<And>i s x l s' y. i \<in> set is \<Longrightarrow> l \<le> n \<Longrightarrow> exec_env R l (b i s) x s' y \<Longrightarrow> I s x \<Longrightarrow> I s' y"
  shows "I s' m'"
  using assms(1,2,4)
proof (induction "is" arbitrary: n s m)
  case Nil
  then have "s' = s" "env_steps R n m m'" by (auto dest: exec_env_RetD)
  with Nil(2) show ?case by (auto intro: env_steps_invariant assms(3))
next
  case (Cons i "is")
  from Cons.prems(1) obtain j l s1 m1 where n: "n = j + l"
    and b: "exec_env R j (b i s) m s1 m1" and rest: "exec_env R l (for_each is b s1) m1 s' m'"
    by (auto elim: exec_env_bindE)
  have "I s1 m1" by (rule Cons.prems(3) [OF _ _ b Cons.prems(2)]) (use n in simp_all)
  with rest show ?case
  proof (rule Cons.IH)
    fix i' s x l' s' y
    assume "i' \<in> set is" "l' \<le> l" "exec_env R l' (b i' s) x s' y" "I s x"
    then show "I s' y" using n by (intro Cons.prems(3) [of i' l' s x s' y]) simp_all
  qed
qed

section \<open>Two threads\<close>

text \<open>
  \<open>interleaved n p w m a w' m'\<close>: thread \<open>p\<close> runs from memory \<open>m\<close> to its result \<open>a\<close> while
  the other thread, which has program \<open>w\<close> left, takes \<open>n\<close> steps at any points and has \<open>w'\<close>
  left at the end.
\<close>

inductive interleaved ::
  "nat \<Rightarrow> ('m, 'a) prog \<Rightarrow> ('m, 'b) prog \<Rightarrow> 'm \<Rightarrow> 'a \<Rightarrow> ('m, 'b) prog \<Rightarrow> 'm \<Rightarrow> bool"
  where
  il_done: "interleaved 0 (Ret a) w m a w m"
| il_other: "f m = (r, m1) \<Longrightarrow> interleaved n p (k r) m1 a w' m' \<Longrightarrow>
    interleaved (Suc n) p (Step f k) m a w' m'"
| il_own: "f m = (r, m1) \<Longrightarrow> interleaved n (k r) w m1 a w' m' \<Longrightarrow>
    interleaved n (Step f k) w m a w' m'"

text \<open>A run of two programs in sequence is a run of each.\<close>

lemma interleaved_bind:
  assumes "interleaved n (pbind p h) w m y w' m'"
  obtains n1 n2 x w1 m1 where "n = n1 + n2" "interleaved n1 p w m x w1 m1" "interleaved n2 (h x) w1 m1 y w' m'"
proof -
  have "\<exists>n1 n2 x w1 m1. n = n1 + n2 \<and> interleaved n1 p w m x w1 m1 \<and> interleaved n2 (h x) w1 m1 y w' m'"
    using assms
  proof (induction n "pbind p h" w m y w' m' arbitrary: p rule: interleaved.induct)
    case (il_done a w m)
    then obtain x where "p = Ret x" by (cases p) auto
    with il_done show ?case by (metis add_0 interleaved.il_done pbind.simps(1))
  next
    case (il_other f m r m1 n k a w' m')
    then show ?case by (metis add_Suc interleaved.il_other)
  next
    case (il_own f m r m1 n k w a w' m')
    show ?case
    proof (cases p)
      case (Ret x)
      have "interleaved n (h x) w m a w' m'"
        using interleaved.il_own [where f = f and k = k, OF il_own(1,2)] il_own(4) by (simp add: Ret)
      with Ret show ?thesis by (metis add_0 interleaved.il_done)
    next
      case (Step f' k')
      with il_own(4) have "f' = f" "k r = pbind (k' r) h" by simp_all
      with il_own(1,3) Step show ?thesis by (blast intro: interleaved.il_own)
    qed
  qed
  with that show thesis by blast
qed

lemma interleaved_bind_Ret:
  "interleaved n (pbind p (\<lambda>x. Ret (f x))) w m y w' m' \<Longrightarrow>
     \<exists>x. y = f x \<and> interleaved n p w m x w' m'"
proof (induction n "pbind p (\<lambda>x. Ret (f x))" w m y w' m' arbitrary: p rule: interleaved.induct)
  case (il_done a w m)
  then show ?case by (cases p) (auto intro: interleaved.il_done)
next
  case (il_other g m r m1 n k a w' m')
  then show ?case by (blast intro: interleaved.il_other)
next
  case (il_own g m r m1 n k w a w' m')
  show ?case
  proof (cases p)
    case (Ret x)
    with il_own(4) show ?thesis by simp
  next
    case (Step g' k')
    with il_own(4) have "g' = g" "k = (\<lambda>r. pbind (k' r) (\<lambda>x. Ret (f x)))" by simp_all
    with il_own(1,3) Step show ?thesis by (blast intro: interleaved.il_own)
  qed
qed

lemma interleaved_Ret:
  "interleaved n (Ret a) w m b w' m' \<Longrightarrow> b = a \<and> interleaved n (Ret c) w m c w' m'"
  by (induction n "Ret a :: ('a, 'b) prog" w m b w' m' rule: interleaved.induct)
     (auto intro: interleaved.intros)

text \<open>One possible interleaving is that the other thread does not move.\<close>

lemma interleaved_run: "run p m = (a, m') \<Longrightarrow> interleaved 0 p w m a w m'"
proof (induction p arbitrary: m)
  case (Ret x)
  then show ?case by (auto intro: il_done)
next
  case (Step f k)
  obtain r m1 where r: "f m = (r, m1)" by (cases "f m")
  with Step.prems have "run (k r) m1 = (a, m')" by simp
  then have "interleaved 0 (k r) w m1 a w m'" using Step.IH by blast
  with r show ?case by (rule il_own)
qed

text \<open>Another is that it makes one step first.\<close>

lemma interleaved_one_step:
  assumes "run p (snd (f m)) = (a, m')"
  shows "interleaved 1 p (Step f k) m a (k (fst (f m))) m'"
proof (cases "f m")
  case (Pair r m1)
  then have "interleaved 0 p (k r) m1 a (k r) m'" using assms by (simp add: interleaved_run)
  from il_other [where f = f and k = k, OF Pair this] Pair show ?thesis by simp
qed

text \<open>Another is that it first runs to its end.\<close>

lemma interleaved_other_first:
  "run w m = (b, m1) \<Longrightarrow> interleaved n p (Ret b) m1 a w' m' \<Longrightarrow> \<exists>n'. interleaved n' p w m a w' m'"
proof (induction w arbitrary: m)
  case (Ret x)
  then show ?case by auto
next
  case (Step f k)
  obtain r m2 where r: "f m = (r, m2)" by (cases "f m")
  with Step.prems(1) have "run (k r) m2 = (b, m1)" by simp
  from Step.IH [OF _ this Step.prems(2)] obtain n' where "interleaved n' p (k r) m2 a w' m'"
    by auto
  with r have "interleaved (Suc n') p (Step f k) m a w' m'" by (rule il_other)
  then show ?case by blast
qed

text \<open>Every step of a program, from any memory at all, is related by \<open>G\<close>.\<close>

primrec steps_in :: "('m \<Rightarrow> 'm \<Rightarrow> bool) \<Rightarrow> ('m, 'a) prog \<Rightarrow> bool" where
  "steps_in G (Ret a) = True"
| "steps_in G (Step f k) = ((\<forall>m. G m (snd (f m))) \<and> (\<forall>r. steps_in G (k r)))"

lemma steps_in_bind [intro]: "steps_in G p \<Longrightarrow> (\<And>a. steps_in G (h a)) \<Longrightarrow> steps_in G (pbind p h)"
  by (induction p) auto

lemma steps_in_for_each [intro]: "(\<And>i s. steps_in G (b i s)) \<Longrightarrow> steps_in G (for_each is b s)"
  by (induction "is" arbitrary: s) auto

lemma steps_in_if [intro]:
  "(b \<Longrightarrow> steps_in G p) \<Longrightarrow> (\<not> b \<Longrightarrow> steps_in G q) \<Longrightarrow> steps_in G (if b then p else q)"
  by simp

lemma steps_in_atomic [simp]: "steps_in G (atomic f) \<longleftrightarrow> (\<forall>m. G m (snd (f m)))"
  by (simp add: atomic_def)

lemma steps_in_atomic_do [simp]: "steps_in G (atomic_do f) \<longleftrightarrow> (\<forall>m. G m (f m))"
  by (simp add: atomic_do_def)

lemma steps_in_mono: "steps_in G p \<Longrightarrow> (\<And>m m'. G m m' \<Longrightarrow> H m m') \<Longrightarrow> steps_in H p"
  by (induction p) auto

text \<open>
  \<open>keeps R G Q p m\<close>: from memory \<open>m\<close>, with \<open>R\<close>-steps of others in between, every step of \<open>p\<close>
  is related by \<open>G\<close> and every result \<open>a\<close> with its memory satisfies \<open>Q\<close>.
\<close>

primrec keeps ::
  "('m \<Rightarrow> 'm \<Rightarrow> bool) \<Rightarrow> ('m \<Rightarrow> 'm \<Rightarrow> bool) \<Rightarrow> ('a \<Rightarrow> 'm \<Rightarrow> bool) \<Rightarrow> ('m, 'a) prog \<Rightarrow> 'm \<Rightarrow> bool"
  where
  "keeps R G Q (Ret a) m = (\<forall>m'. R\<^sup>*\<^sup>* m m' \<longrightarrow> Q a m')"
| "keeps R G Q (Step f k) m =
     (\<forall>m'. R\<^sup>*\<^sup>* m m' \<longrightarrow> G m' (snd (f m')) \<and> keeps R G Q (k (fst (f m'))) (snd (f m')))"

definition kept_by :: "('m \<Rightarrow> 'm \<Rightarrow> bool) \<Rightarrow> ('m \<Rightarrow> bool) \<Rightarrow> bool" where
  "kept_by R P \<longleftrightarrow> (\<forall>x y. R x y \<longrightarrow> P x \<longrightarrow> P y)"

lemma kept_by_rtranclp: "kept_by R P \<Longrightarrow> R\<^sup>*\<^sup>* x y \<Longrightarrow> P x \<Longrightarrow> P y"
  by (rotate_tac 1, induction rule: rtranclp_induct) (auto simp: kept_by_def)

lemma keeps_RetI: "kept_by R (Q a) \<Longrightarrow> Q a m \<Longrightarrow> keeps R G Q (Ret a) m"
  by (auto intro: kept_by_rtranclp)

lemma keeps_StepI:
  "kept_by R P \<Longrightarrow> P m \<Longrightarrow> (\<And>x. P x \<Longrightarrow> G x (snd (f x))) \<Longrightarrow>
   (\<And>x. P x \<Longrightarrow> keeps R G Q (k (fst (f x))) (snd (f x))) \<Longrightarrow> keeps R G Q (Step f k) m"
  by (auto dest: kept_by_rtranclp)

lemma keeps_atomicI:
  "kept_by R P \<Longrightarrow> P m \<Longrightarrow> (\<And>x. P x \<Longrightarrow> G x (snd (f x))) \<Longrightarrow>
   (\<And>x. P x \<Longrightarrow> Q (fst (f x)) (snd (f x))) \<Longrightarrow> (\<And>a. kept_by R (Q a)) \<Longrightarrow>
   keeps R G Q (atomic f) m"
  unfolding atomic_def by (rule keeps_StepI [where P = P]) (simp_all only: keeps_RetI)

lemma keeps_atomic_doI:
  "kept_by R P \<Longrightarrow> P m \<Longrightarrow> (\<And>x. P x \<Longrightarrow> G x (f x)) \<Longrightarrow>
   (\<And>x. P x \<Longrightarrow> Q () (f x)) \<Longrightarrow> kept_by R (Q ()) \<Longrightarrow> keeps R G Q (atomic_do f) m"
  unfolding atomic_do_def by (rule keeps_StepI [where P = P]) (simp_all only: keeps_RetI snd_conv)

lemma keeps_stable: "keeps R G Q p m \<Longrightarrow> R\<^sup>*\<^sup>* m m1 \<Longrightarrow> keeps R G Q p m1"
  by (cases p) (auto intro: rtranclp_trans)

lemma keeps_bind:
  "keeps R G Q p m \<Longrightarrow> (\<And>a m'. Q a m' \<Longrightarrow> keeps R G Q' (h a) m') \<Longrightarrow> keeps R G Q' (pbind p h) m"
proof (induction p arbitrary: m)
  case (Ret x)
  then show ?case by simp
next
  case (Step f k)
  then show ?case by (auto intro!: Step.IH)
qed

lemma keeps_post: "keeps R G Q p m \<Longrightarrow> (\<And>a m'. Q a m' \<Longrightarrow> Q' a m') \<Longrightarrow> keeps R G Q' p m"
  by (induction p arbitrary: m) auto

lemma keeps_for_each:
  assumes "\<And>i s m. i \<in> set is \<Longrightarrow> I s m \<Longrightarrow> keeps R G I (b i s) m"
    and "\<And>s m m'. I s m \<Longrightarrow> R m m' \<Longrightarrow> I s m'" and "I s m"
  shows "keeps R G I (for_each is b s) m"
  using assms(1,3)
proof (induction "is" arbitrary: s m)
  case Nil
  have "R\<^sup>*\<^sup>* m m' \<Longrightarrow> I s m'" for m'
    by (induction rule: rtranclp_induct) (auto intro: Nil.prems assms(2))
  then show ?case by simp
next
  case (Cons i "is")
  have "keeps R G I (b i s) m" using Cons.prems by simp
  moreover have "keeps R G I (for_each is b s') m'" if "I s' m'" for s' m'
    using Cons.prems(1) that by (intro Cons.IH) auto
  ultimately show ?case by (simp add: keeps_bind)
qed

text \<open>A loop of stores: the invariant grows by each index that is done.\<close>

lemma keeps_for_each_done:
  assumes "\<And>i D s m. i \<in> set is \<Longrightarrow> I D s m \<Longrightarrow> keeps R G (I (insert i D)) (b i s) m"
    and "\<And>D s. kept_by R (I D s)" and "I D s m"
  shows "keeps R G (I (D \<union> set is)) (for_each is b s) m"
  using assms(1,3)
proof (induction "is" arbitrary: s m D)
  case Nil
  have "R\<^sup>*\<^sup>* m m' \<Longrightarrow> I D s m'" for m' using kept_by_rtranclp [OF assms(2)] Nil.prems(2) by blast
  then show ?case by simp
next
  case (Cons i "is")
  have "keeps R G (I (insert i D)) (b i s) m" using Cons.prems by simp
  moreover have "keeps R G (I (insert i D \<union> set is)) (for_each is b s') m'"
    if "I (insert i D) s' m'" for s' m'
    using Cons.prems(1) that by (intro Cons.IH) auto
  ultimately show ?case by (simp add: keeps_bind)
qed

text \<open>What a program guarantees holds of its result among steps of its environment.\<close>

lemma exec_env_keeps: "exec_env R n p m a m' \<Longrightarrow> keeps R G Q p m \<Longrightarrow> Q a m'"
proof (induction rule: exec_env.induct)
  case (exec_other m m1 n p a m')
  then show ?case by (auto intro: keeps_stable)
qed auto

text \<open>\<open>returns_within p n\<close>: whatever the other thread does, \<open>p\<close> ends after at most \<open>n\<close> own steps.\<close>

primrec returns_within :: "('m, 'a) prog \<Rightarrow> nat \<Rightarrow> bool" where
  "returns_within (Ret a) n = True"
| "returns_within (Step f k) n = (0 < n \<and> (\<forall>r. returns_within (k r) (n - 1)))"

lemma within_mono: "returns_within p i \<Longrightarrow> i \<le> j \<Longrightarrow> returns_within p j"
proof (induction p arbitrary: i j)
  case (Ret x)
  show ?case by simp
next
  case (Step f k)
  from Step.prems have i: "0 < i" "i - 1 \<le> j - 1" "0 < j" and k: "\<And>r. returns_within (k r) (i - 1)"
    by simp_all
  have "returns_within (k r) (j - 1)" for r
    by (rule Step.IH [OF rangeI k i(2)])
  with i(3) show ?case by simp
qed

lemma within_bind: "returns_within p i \<Longrightarrow> (\<And>a. returns_within (h a) j) \<Longrightarrow> returns_within (pbind p h) (i + j)"
proof (induction p arbitrary: i)
  case (Ret x)
  have "returns_within (h x) j" by (rule Ret.prems)
  then show ?case by (simp add: within_mono)
next
  case (Step f k)
  from Step.prems(1) have i: "0 < i" and k: "\<And>r. returns_within (k r) (i - 1)" by simp_all
  have "returns_within (pbind (k r) h) (i - 1 + j)" for r
    by (rule Step.IH [OF rangeI k Step.prems(2)])
  with i show ?case by simp
qed

lemma within_for_each:
  "(\<And>i s. returns_within (b i s) c) \<Longrightarrow> returns_within (for_each is b s) (c * length is)"
proof (induction "is" arbitrary: s)
  case Nil
  then show ?case by simp
next
  case (Cons i "is")
  have "returns_within (pbind (b i s) (for_each is b)) (c + c * length is)"
    using Cons by (intro within_bind) auto
  then show ?case by simp
qed

lemma within_atomic [simp]: "returns_within (atomic f) n \<longleftrightarrow> 0 < n"
  by (simp add: atomic_def)

lemma within_atomic_do [simp]: "returns_within (atomic_do f) n \<longleftrightarrow> 0 < n"
  by (simp add: atomic_do_def)

text \<open>The same, as rules that count down from the bound.\<close>

lemma within_bind_atomic [simp]:
  "returns_within (pbind (atomic f) h) n \<longleftrightarrow> 0 < n \<and> (\<forall>r. returns_within (h r) (n - 1))"
  by (simp add: atomic_def)

lemma within_bind_atomic_do [simp]:
  "returns_within (pbind (atomic_do f) h) n \<longleftrightarrow> 0 < n \<and> returns_within (h ()) (n - 1)"
  by (simp add: atomic_do_def)

lemma within_bindI: "returns_within p i \<Longrightarrow> i \<le> n \<Longrightarrow> (\<And>a. returns_within (h a) (n - i)) \<Longrightarrow> returns_within (pbind p h) n"
  using within_bind [of p i h "n - i"] by simp

text \<open>
  What that means for a run: \<open>drive other n p m\<close> runs \<open>p\<close> for at most \<open>n\<close> own steps, where
  \<open>other\<close> is anything the rest of the system does to the memory before each of them. A
  program within \<open>n\<close> steps returns.
\<close>

fun drive :: "(nat \<Rightarrow> 'm \<Rightarrow> 'm) \<Rightarrow> nat \<Rightarrow> ('m, 'a) prog \<Rightarrow> 'm \<Rightarrow> ('a \<times> 'm) option" where
  "drive other n (Ret a) m = Some (a, m)"
| "drive other 0 (Step f k) m = None"
| "drive other (Suc n) (Step f k) m = (let (r, m') = f (other n m) in drive other n (k r) m')"

lemma within_returns: "returns_within p n \<Longrightarrow> \<exists>a m'. drive other n p m = Some (a, m')"
proof (induction p arbitrary: n m)
  case (Ret x)
  show ?case by simp
next
  case (Step f k)
  then obtain l where l: "n = Suc l" "\<And>r. returns_within (k r) l" by (cases n) auto
  then show ?case using Step.IH [OF rangeI] by (simp split: prod.split)
qed

text \<open>Every result of a program, whatever the other thread does, satisfies \<open>P\<close>.\<close>

primrec always :: "('a \<Rightarrow> bool) \<Rightarrow> ('m, 'a) prog \<Rightarrow> bool" where
  "always P (Ret a) = P a"
| "always P (Step f k) = (\<forall>r. always P (k r))"

lemma always_bind: "always Q p \<Longrightarrow> (\<And>a. Q a \<Longrightarrow> always P (h a)) \<Longrightarrow> always P (pbind p h)"
  by (induction p) auto

lemma always_True [simp]: "always (\<lambda>_. True) p"
  by (induction p) auto

lemma always_bind': "(\<And>a. always P (h a)) \<Longrightarrow> always P (pbind p h)"
  by (rule always_bind [where Q = "\<lambda>_. True"]) auto

lemma always_for_each:
  "(\<And>i s. i \<in> set is \<Longrightarrow> I s \<Longrightarrow> always I (b i s)) \<Longrightarrow> I s \<Longrightarrow> always I (for_each is b s)"
proof (induction "is" arbitrary: s)
  case (Cons i "is")
  have "always I (b i s)" using Cons.prems by simp
  moreover have "always I (for_each is b s')" if "I s'" for s'
    using Cons.prems(1) that by (intro Cons.IH) simp_all
  ultimately show ?case by (simp add: always_bind)
qed simp

lemma exec_env_always: "exec_env R n p m a m' \<Longrightarrow> always P p \<Longrightarrow> P a"
  by (induction rule: exec_env.induct) auto

lemma interleaved_always: "interleaved n p w m a w' m' \<Longrightarrow> always P p \<Longrightarrow> P a"
  by (induction rule: interleaved.induct) auto

text \<open>
  Soundness: if the first thread's steps are all in \<open>R\<close> and the second keeps \<open>G\<close> against
  \<open>R\<close>, then the first thread runs in an environment of \<open>G\<close> steps.
\<close>

lemma interleaved_exec_env:
  "interleaved n p w m a w' m' \<Longrightarrow> steps_in R p \<Longrightarrow> keeps R G Q w m \<Longrightarrow>
   exec_env G n p m a m' \<and> keeps R G Q w' m'"
proof (induction rule: interleaved.induct)
  case (il_done a w m)
  then show ?case by (auto intro: exec_ret)
next
  case (il_other f m r m1 n p k a w' m')
  from il_other.prems(2) have "G m m1" "keeps R G Q (k r) m1"
    using il_other.hyps(1) by auto
  with il_other show ?case by (auto intro: exec_other)
next
  case (il_own f m r m1 n k w a w' m')
  from il_own.prems(1) have "\<forall>m. R m (snd (f m))" by simp
  then have "R m m1" using il_own.hyps(1) by (metis snd_conv)
  then have "keeps R G Q w m1" using il_own.prems(2) by (blast intro: keeps_stable)
  with il_own show ?case by (auto intro: exec_own)
qed

end
