(* ===== verification/Seqlock.thy ===== *)
theory Seqlock
  imports Threads
begin

text \<open>
  The contract between the writer and the readers of data guarded by a sequence counter,
  as a locale: a writer's step either adds one to the counter and leaves the data, or
  leaves the counter, and then changes the data only while the counter is odd. The
  readers' lemma is proved once here. It is used at two levels of the runtime control:
  for one \<open>struct atomic_double\<close>, and for the staged mission with its 21 of them.

  The counter is a 32-bit word and wraps around, so the lemma bounds the number of steps
  the writer takes during one read by \<open>2 ^ 32\<close>.
\<close>

text \<open>A program whose own steps leave an observation of the memory as it is.\<close>

abbreviation silent :: "('m \<Rightarrow> 'v) \<Rightarrow> ('m, 'a) prog \<Rightarrow> bool" where
  "silent view p \<equiv> steps_in (\<lambda>m m'. view m' = view m) p"

lemma exec_env_invariant:
  "exec_env R n p m a m' \<Longrightarrow> (\<And>x y. R x y \<Longrightarrow> I x \<Longrightarrow> I y) \<Longrightarrow>
   steps_in (\<lambda>x y. I x \<longrightarrow> I y) p \<Longrightarrow> I m \<Longrightarrow> I m'"
proof (induction rule: exec_env.induct)
  case (exec_own f m r m1 n k a m')
  from exec_own.prems(2) have "I m \<longrightarrow> I (snd (f m))" "steps_in (\<lambda>x y. I x \<longrightarrow> I y) (k r)"
    by simp_all
  then show ?case using exec_own by simp
qed auto

lemma exec_env_mono:
  "exec_env R n p m a m' \<Longrightarrow> (\<And>x y. R x y \<Longrightarrow> S x y) \<Longrightarrow> exec_env S n p m a m'"
  by (induction rule: exec_env.induct) (auto intro: exec_env.intros)

text \<open>Nothing the environment does can be observed through \<open>view\<close>.\<close>

lemma exec_env_view:
  assumes "exec_env R n p m a m'" and "\<And>x y. R x y \<Longrightarrow> view y = view x" and "silent view p"
  shows "view m' = view m"
  by (rule exec_env_invariant [OF assms(1), where I = "\<lambda>x. view x = view m"])
     (use assms(2,3) in \<open>auto elim: steps_in_mono\<close>)

locale seqlock =
  fixes seq :: "'m \<Rightarrow> u32"
    and data :: "'m \<Rightarrow> 'd"
    and writer :: "'m \<Rightarrow> 'm \<Rightarrow> bool"
  assumes writer_step:
    "writer m m' \<Longrightarrow>
       seq m' = seq m + 1 \<and> data m' = data m \<or>
       seq m' = seq m \<and> (data m' = data m \<or> odd (seq m))"
begin

text \<open>
  What a reader sees in a window: the counter advances by some number of increments, at
  most the writer's steps; with none of them, from an even counter, the data never moved.
\<close>

lemma advance:
  "exec_env writer n p m a m' \<Longrightarrow> silent seq p \<Longrightarrow>
   \<exists>j\<le>n. seq m' = seq m + of_nat j \<and>
     (j = 0 \<and> even (seq m) \<longrightarrow>
       exec_env (\<lambda>x y. writer x y \<and> seq y = seq x \<and> data y = data x) n p m a m')"
proof (induction rule: exec_env.induct)
  case (exec_ret a m)
  show ?case by (auto intro: exec_env.intros)
next
  case (exec_other m m1 n p a m')
  then obtain j where j: "j \<le> n" "seq m' = seq m1 + of_nat j"
    "j = 0 \<and> even (seq m1) \<Longrightarrow>
       exec_env (\<lambda>x y. writer x y \<and> seq y = seq x \<and> data y = data x) n p m1 a m'"
    by blast
  from writer_step [OF exec_other.hyps(1)] show ?case
  proof
    assume "seq m1 = seq m + 1 \<and> data m1 = data m"
    then show ?thesis using j by (intro exI [of _ "Suc j"]) (simp add: ac_simps)
  next
    assume same: "seq m1 = seq m \<and> (data m1 = data m \<or> odd (seq m))"
    have "exec_env (\<lambda>x y. writer x y \<and> seq y = seq x \<and> data y = data x) (Suc n) p m a m'"
      if "j = 0" "even (seq m)"
      by (rule exec_env.exec_other [where ?m1.0 = m1])
         (use that same j exec_other.hyps(1) in simp_all)
    with j(1,2) same show ?thesis by (intro exI [of _ j]) simp
  qed
next
  case (exec_own f m r m1 n k a m')
  from exec_own.prems have "seq (snd (f m)) = seq m" by simp
  with exec_own.hyps(1) have "seq m1 = seq m" by simp
  moreover have "silent seq (k r)" using exec_own.prems by simp
  ultimately obtain j where "j \<le> n" "seq m' = seq m + of_nat j"
    "j = 0 \<and> even (seq m) \<longrightarrow>
       exec_env (\<lambda>x y. writer x y \<and> seq y = seq x \<and> data y = data x) n (k r) m1 a m'"
    using exec_own.IH by auto
  with exec_own.hyps(1) show ?case
    by (intro exI [of _ j]) (auto intro: exec_env.exec_own [where r = r and ?m1.0 = m1])
qed

text \<open>
  The reader's check: an even counter that is unchanged after fewer than \<open>2 ^ 32\<close> steps of
  the writer means that the writer left the data alone for the whole window.
\<close>

lemma quiet_window:
  assumes "exec_env writer n p m a m'" and "silent seq p"
    and "even (seq m)" and "seq m' = seq m" and "n < 2 ^ 32"
  shows "exec_env (\<lambda>x y. writer x y \<and> seq y = seq x \<and> data y = data x) n p m a m'"
proof -
  from advance [OF assms(1,2)] obtain j where j: "j \<le> n" "seq m' = seq m + of_nat j"
    "j = 0 \<and> even (seq m) \<longrightarrow>
       exec_env (\<lambda>x y. writer x y \<and> seq y = seq x \<and> data y = data x) n p m a m'"
    by blast
  have "(of_nat j :: u32) = 0" using j(2) assms(4) by simp
  moreover have "j < 2 ^ LENGTH(32)" using j(1) assms(5) by simp
  ultimately have "j = 0" by (rule of_nat_word_eq_0)
  with j(3) assms(3) show ?thesis by simp
qed

text \<open>So what the reader observed of the data in the window was the data at its start.\<close>

lemma window_data:
  assumes "exec_env writer n p m a m'" and "silent seq p" and "silent data p"
    and "even (seq m)" and "seq m' = seq m" and "n < 2 ^ 32"
  shows "data m' = data m"
  using quiet_window [OF assms(1,2,4-6)] assms(3) by (auto intro: exec_env_view)

end

end
