(* ===== verification/Shared_State.thy ===== *)
theory Shared_State
  imports Seqlock
begin

text \<open>
  The state of \<open>src/runtime_control.c\<close>. \<open>struct runtime_control g_runtime\<close> is split in two
  records by who accesses its members: \<open>shared\<close> holds the members that are C11 atomics,
  which both threads access; \<open>applied\<close> holds the plain members, which only the controller
  thread touches (in \<open>cubs2_runtime_control_apply\<close> and \<open>..._restore\<close>).

  A C \<open>double\<close> is its 64-bit IEEE-754 pattern, which is also how the source moves it (with
  \<open>memcpy\<close>). The arrays are functions of their indices; the accesses of the program stay
  below the declared sizes (\<open>find_value_bound\<close> in theory Parameters and the loop bounds).
\<close>

type_synonym f64 = u64

definition MAX_SEGMENTS :: nat where "MAX_SEGMENTS = 6"
definition MAX_POINTS :: nat where "MAX_POINTS = MAX_SEGMENTS + 1"
definition PENDING_SIZE :: nat where "PENDING_SIZE = 32"

lemma max_points [simp]: "MAX_POINTS = 7" "MAX_SEGMENTS = 6"
  by (simp_all add: MAX_POINTS_def MAX_SEGMENTS_def)

record atomic_double =
  sequence :: u32
  low :: u32
  high :: u32

record shared =
  plan_version :: u32
  command_writer :: bool
  pending_mission :: bool
  mission_sequence :: u32
  pending_values :: "nat \<Rightarrow> atomic_double"
  pending_value_set :: "nat \<Rightarrow> bool"
  live_values :: "nat \<Rightarrow> atomic_double"
  pending_waypoints :: "nat \<Rightarrow> nat \<Rightarrow> atomic_double"
  pending_segments :: u32

record applied =
  applied_values :: "nat \<Rightarrow> f64"
  applied_value_set :: "nat \<Rightarrow> bool"
  applied_waypoints :: "nat \<Rightarrow> nat \<Rightarrow> f64"
  applied_segments :: u32
  applied_mission :: bool

section \<open>Pointers to slots\<close>

text \<open>The \<open>struct atomic_double *\<close> arguments of the source: which member, at which index.\<close>

datatype slot =
    Pending_value nat
  | Live_value nat
  | Pending_waypoint nat nat

fun get_slot :: "slot \<Rightarrow> shared \<Rightarrow> atomic_double" where
  "get_slot (Pending_value i) m = pending_values m i"
| "get_slot (Live_value i) m = live_values m i"
| "get_slot (Pending_waypoint r c) m = pending_waypoints m r c"

fun put_slot :: "slot \<Rightarrow> atomic_double \<Rightarrow> shared \<Rightarrow> shared" where
  "put_slot (Pending_value i) d m = m\<lparr>pending_values := (pending_values m)(i := d)\<rparr>"
| "put_slot (Live_value i) d m = m\<lparr>live_values := (live_values m)(i := d)\<rparr>"
| "put_slot (Pending_waypoint r c) d m =
     m\<lparr>pending_waypoints := (pending_waypoints m)(r := (pending_waypoints m r)(c := d))\<rparr>"

lemma get_put [simp]: "get_slot s (put_slot t d m) = (if s = t then d else get_slot s m)"
  by (cases s; cases t) auto

lemma put_put [simp]: "put_slot s d (put_slot s e m) = put_slot s d m"
  by (cases s) auto

lemma put_slot_frame [simp, frame_simps]:
  "plan_version (put_slot s d m) = plan_version m"
  "command_writer (put_slot s d m) = command_writer m"
  "pending_mission (put_slot s d m) = pending_mission m"
  "mission_sequence (put_slot s d m) = mission_sequence m"
  "pending_value_set (put_slot s d m) = pending_value_set m"
  "pending_segments (put_slot s d m) = pending_segments m"
  by (cases s; simp)+

end
