(* ===== verification/Floats.thy ===== *)
theory Floats
  imports Prelude Complex_Main "HOL-Library.Log_Nat"
begin

text \<open>
  IEEE-754 binary32 and binary64, as the C implementation has them: a \<open>float\<close> is a 32-bit
  pattern and a \<open>double\<close> a 64-bit pattern. A pattern is unpacked to a sign, an integer
  significand and a power of two; an exact result is packed again with rounding to nearest,
  ties to even. Everything is integer arithmetic, so it evaluates.

  Patterns of NaN carry no information the program uses; an operation whose result is NaN
  yields one quiet NaN.
\<close>

type_synonym f32 = "32 word"
type_synonym f64 = "64 word"

section \<open>Unpacked values\<close>

datatype fp =
    NaN
  | Inf bool
  | Fin bool int int

text \<open>A format has \<open>mb\<close> stored significand bits and \<open>eb\<close> exponent bits.\<close>

definition fp_emin :: "nat \<Rightarrow> nat \<Rightarrow> int" where
  "fp_emin mb eb = 2 - 2 ^ (eb - 1) - int mb"

definition fp_unpack :: "nat \<Rightarrow> nat \<Rightarrow> int \<Rightarrow> fp" where
  "fp_unpack mb eb bits =
     (let frac = bits mod 2 ^ mb;
          expo = (bits div 2 ^ mb) mod 2 ^ eb;
          sgn = odd (bits div 2 ^ (mb + eb))
      in if expo = 2 ^ eb - 1 then (if frac = 0 then Inf sgn else NaN)
         else if expo = 0 then Fin sgn frac (fp_emin mb eb)
         else Fin sgn (2 ^ mb + frac) (expo - 1 + fp_emin mb eb))"

text \<open>Division by a power of two, to nearest, ties to even.\<close>

definition round_shift :: "int \<Rightarrow> nat \<Rightarrow> int" where
  "round_shift m k =
     (let q = m div 2 ^ k; r = m mod 2 ^ k; half = 2 ^ (k - 1)
      in if k \<noteq> 0 \<and> (r > half \<or> r = half \<and> odd q) then q + 1 else q)"

definition fp_inf_bits :: "nat \<Rightarrow> nat \<Rightarrow> int" where
  "fp_inf_bits mb eb = (2 ^ eb - 1) * 2 ^ mb"

text \<open>The pattern, without sign, nearest to \<open>m * 2 ^ e\<close>. A carry out of the significand
  runs into the exponent field by itself, and a result past the largest one is infinite.\<close>

definition fp_round :: "nat \<Rightarrow> nat \<Rightarrow> int \<Rightarrow> int \<Rightarrow> int" where
  "fp_round mb eb m e =
     (if m = 0 then 0
      else let E = max (fp_emin mb eb) (e + bitlen m - int (mb + 1));
               q = (if E \<le> e then m * 2 ^ nat (e - E) else round_shift m (nat (E - e)));
               bits = (E - fp_emin mb eb) * 2 ^ mb + q
           in min bits (fp_inf_bits mb eb))"

definition fp_pack :: "nat \<Rightarrow> nat \<Rightarrow> fp \<Rightarrow> int" where
  "fp_pack mb eb x =
     (case x of
        NaN \<Rightarrow> fp_inf_bits mb eb + 2 ^ (mb - 1)
      | Inf s \<Rightarrow> of_bool s * 2 ^ (mb + eb) + fp_inf_bits mb eb
      | Fin s m e \<Rightarrow> of_bool s * 2 ^ (mb + eb) + fp_round mb eb m e)"

definition f32_unpack :: "f32 \<Rightarrow> fp" where
  "f32_unpack x = fp_unpack 23 8 (uint x)"

definition f64_unpack :: "f64 \<Rightarrow> fp" where
  "f64_unpack x = fp_unpack 52 11 (uint x)"

definition f32_pack :: "fp \<Rightarrow> f32" where
  "f32_pack x = word_of_int (fp_pack 23 8 x)"

definition f64_pack :: "fp \<Rightarrow> f64" where
  "f64_pack x = word_of_int (fp_pack 52 11 x)"

section \<open>Classification and conversion between the formats\<close>

fun fp_finite :: "fp \<Rightarrow> bool" where
  "fp_finite (Fin s m e) = True"
| "fp_finite _ = False"

text \<open>\<open>isfinite\<close> of \<open>math.h\<close>, on each format.\<close>

definition isfinite32 :: "f32 \<Rightarrow> bool" where
  "isfinite32 x = fp_finite (f32_unpack x)"

definition isfinite64 :: "f64 \<Rightarrow> bool" where
  "isfinite64 x = fp_finite (f64_unpack x)"

lemma isfinite64_0 [simp]: "isfinite64 0"
  by (simp add: isfinite64_def f64_unpack_def fp_unpack_def)

text \<open>The conversions \<open>(double)x\<close> and \<open>(float)x\<close>.\<close>

definition f64_of_f32 :: "f32 \<Rightarrow> f64" where
  "f64_of_f32 x = f64_pack (f32_unpack x)"

definition f32_of_f64 :: "f64 \<Rightarrow> f32" where
  "f32_of_f64 x = f32_pack (f64_unpack x)"

text \<open>The real number a finite pattern stands for.\<close>

fun fp_real :: "fp \<Rightarrow> real" where
  "fp_real (Fin s m e) = (if s then - 1 else 1) * of_int m * 2 powi e"
| "fp_real _ = 0"

section \<open>Widening is exact\<close>

lemma f32_unpack_Fin:
  assumes "f32_unpack x = Fin s m e"
  shows "0 \<le> m" "m < 2 ^ 24" "- 149 \<le> e" "e \<le> 104"
proof -
  let ?b = "uint x"
  have ex: "(?b div 2 ^ 23) mod 2 ^ 8 < 2 ^ 8" "0 \<le> (?b div 2 ^ 23) mod 2 ^ 8" by simp_all
  have fr: "?b mod 2 ^ 23 < 2 ^ 23" "0 \<le> ?b mod 2 ^ 23" by simp_all
  show "0 \<le> m" "m < 2 ^ 24" "- 149 \<le> e" "e \<le> 104"
    using assms ex fr
    by (auto simp: f32_unpack_def fp_unpack_def fp_emin_def Let_def split: if_splits)
qed

lemma fp_unpack_normal64:
  assumes "2 ^ 52 \<le> q" "q < 2 ^ 53" "- 1074 \<le> E" "E \<le> 971"
  shows "fp_unpack 52 11 (of_bool s * 2 ^ 63 + ((E + 1074) * 2 ^ 52 + q)) = Fin s q E"
proof -
  define f where "f = q - 2 ^ 52"
  define c where "c = E + 1075"
  let ?b = "of_bool s * 2 ^ 63 + ((E + 1074) * 2 ^ 52 + q)"
  have f: "0 \<le> f" "f < 2 ^ 52" and c: "1 \<le> c" "c < 2047" and q: "q = 2 ^ 52 + f"
    using assms by (auto simp: f_def c_def)
  define k where "k = of_bool s * 2 ^ 11 + c"
  have b: "?b = k * 2 ^ 52 + f" by (simp add: q c_def k_def algebra_simps)
  have "?b mod 2 ^ 52 = f" unfolding b using f by simp
  moreover have d: "?b div 2 ^ 52 = of_bool s * 2 ^ 11 + c"
    unfolding b k_def [symmetric] using f by simp
  moreover have "(of_bool s * 2 ^ 11 + c) mod 2 ^ 11 = c" using c by (cases s) simp_all
  moreover have "?b div 2 ^ (52 + 11) = of_bool s"
  proof -
    have "?b div 2 ^ (52 + 11) = (?b div 2 ^ 52) div 2 ^ 11"
      by (simp only: power_add zdiv_zmult2_eq zero_le_power zero_le_numeral)
    also have "\<dots> = of_bool s" unfolding d using c by (cases s) simp_all
    finally show ?thesis .
  qed
  ultimately show ?thesis using c
    by (simp add: fp_unpack_def fp_emin_def Let_def q c_def)
qed

lemma fp_unpack_zero64: "fp_unpack 52 11 (of_bool s * 2 ^ 63) = Fin s 0 (- 1074)"
  by (cases s) (simp_all add: fp_unpack_def fp_emin_def)

lemma uint_of_int64: "0 \<le> b \<Longrightarrow> b < 2 ^ 64 \<Longrightarrow> uint (word_of_int b :: u64) = b"
  by (simp add: uint_word_of_int)

lemma bitlen_scaled:
  assumes "0 < m" "bitlen m \<le> 53"
  shows "2 ^ 52 \<le> m * 2 ^ nat (53 - bitlen m)" "m * 2 ^ nat (53 - bitlen m) < 2 ^ 53"
proof -
  have l: "1 \<le> bitlen m" using assms(1) by (simp add: bitlen_alt_def)
  have "(2 :: int) ^ 52 = 2 ^ nat (bitlen m - 1) * 2 ^ nat (53 - bitlen m)"
    using l assms(2) by (simp flip: power_add nat_add_distrib)
  also have "\<dots> \<le> m * 2 ^ nat (53 - bitlen m)"
    using bitlen_bounds [OF assms(1)] by (simp add: mult_right_mono)
  finally show "2 ^ 52 \<le> m * 2 ^ nat (53 - bitlen m)" .
  have "m * 2 ^ nat (53 - bitlen m) < 2 ^ nat (bitlen m) * 2 ^ nat (53 - bitlen m)"
    using bitlen_bounds [OF assms(1)] by simp
  also have "\<dots> = 2 ^ 53" using l assms(2) by (simp flip: power_add nat_add_distrib)
  finally show "m * 2 ^ nat (53 - bitlen m) < 2 ^ 53" .
qed

text \<open>A value whose significand fits in 53 bits and whose exponent is in range packs exactly.\<close>

lemma f64_pack_exact:
  assumes m: "0 \<le> m" "m < 2 ^ 53" and e: "- 1021 \<le> e" "e \<le> 900"
  shows "\<exists>m' e'. f64_unpack (f64_pack (Fin s m e)) = Fin s m' e' \<and>
    of_int m' * 2 powi e' = (of_int m * 2 powi e :: real)"
proof (cases "m = 0")
  case True
  have "f64_pack (Fin s m e) = word_of_int (of_bool s * 2 ^ 63)"
    using True by (simp add: f64_pack_def fp_pack_def fp_round_def)
  then have "f64_unpack (f64_pack (Fin s m e)) = Fin s 0 (- 1074)"
    using fp_unpack_zero64 [of s]
    by (cases s) (simp_all add: f64_unpack_def uint_word_of_int)
  with True show ?thesis by simp
next
  case False
  with m have pos: "0 < m" by simp
  have l1: "1 \<le> bitlen m" using pos by (simp add: bitlen_alt_def)
  have l53: "bitlen m \<le> 53" unfolding bitlen_le_iff_power using m by simp
  note l = l1 l53
  define E where "E = e + bitlen m - 53"
  define q where "q = m * 2 ^ nat (53 - bitlen m)"
  have E: "- 1074 \<le> E" "E \<le> 900" "E \<le> e" using l e by (auto simp: E_def)
  have q: "2 ^ 52 \<le> q" "q < 2 ^ 53" unfolding q_def using bitlen_scaled [OF pos l(2)] by auto
  have bits: "fp_round 52 11 m e = (E + 1074) * 2 ^ 52 + q"
    using False E q by (simp add: fp_round_def fp_emin_def fp_inf_bits_def Let_def E_def q_def)
  let ?b = "of_bool s * 2 ^ 63 + ((E + 1074) * 2 ^ 52 + q)"
  have "0 \<le> ?b" "?b < 2 ^ 64" using E q by (auto simp: of_bool_def)
  then have "uint (word_of_int ?b :: u64) = ?b" by (rule uint_of_int64)
  moreover have "fp_unpack 52 11 ?b = Fin s q E"
    by (rule fp_unpack_normal64 [OF q E(1)]) (use E(2) in simp)
  moreover have "fp_pack 52 11 (Fin s m e) = ?b" by (simp add: fp_pack_def bits)
  ultimately have u: "f64_unpack (f64_pack (Fin s m e)) = Fin s q E"
    by (simp only: f64_unpack_def f64_pack_def)
  have "(of_int q :: real) * 2 powi E = of_int m * (2 powi (53 - bitlen m) * 2 powi E)"
    using l by (simp add: q_def power_int_def)
  also have "2 powi (53 - bitlen m) * 2 powi E = (2 powi e :: real)"
    by (simp add: E_def flip: power_int_add)
  finally show ?thesis using u by blast
qed

text \<open>A finite \<open>float\<close> becomes a finite \<open>double\<close> of the same value.\<close>

lemma f64_of_f32_exact:
  assumes "isfinite32 x"
  shows "isfinite64 (f64_of_f32 x)"
    and "fp_real (f64_unpack (f64_of_f32 x)) = fp_real (f32_unpack x)"
proof -
  from assms obtain s m e where x: "f32_unpack x = Fin s m e"
    by (auto simp: isfinite32_def elim: fp_finite.elims)
  note b = f32_unpack_Fin [OF x]
  have "0 \<le> m" "m < 2 ^ 53" "- 1021 \<le> e" "e \<le> 900" using b by simp_all
  from f64_pack_exact [OF this, of s] obtain m' e' where
    "f64_unpack (f64_of_f32 x) = Fin s m' e'" "of_int m' * 2 powi e' = (of_int m * 2 powi e :: real)"
    by (auto simp: f64_of_f32_def x)
  then show "isfinite64 (f64_of_f32 x)"
    and "fp_real (f64_unpack (f64_of_f32 x)) = fp_real (f32_unpack x)"
    by (auto simp: isfinite64_def x)
qed

end
