(* ===== verification/Controller.thy ===== *)
theory Controller
  imports Shared_State Floats
begin

text \<open>
  \<open>Vehicles_Cubs2_OuterLoopState\<close>, the state of the generated fixed-wing controller, as far
  as the program names its members. The structure and its step are generated by the build
  from a Modelica model that is not in the repository: the members the source never names
  are the record's extension (\<open>'z\<close>), and the generated functions are parameters.

  The members \<open>double\<close> that \<open>runtime_control.c\<close> reaches through \<open>offsetof\<close> are one map
  from member names: distinct members have distinct offsets.
\<close>

record outer_loop =
  leaf :: "string \<Rightarrow> f64"
  currentWaypoint :: i32
  route_nSegments :: i32
  guidance_route_nSegments :: i32
  route_waypoints :: "nat \<Rightarrow> nat \<Rightarrow> f64"
  guidance_route_waypoints :: "nat \<Rightarrow> nat \<Rightarrow> f64"
  guidance_currentWaypoint :: i32
  guidance_activeWaypoint :: i32
  previous_guidance_currentWaypoint :: i32
  guidance_segmentEndIndex :: i32
  position_m :: "nat \<Rightarrow> f64"
  euler_rad :: "nat \<Rightarrow> f64"
  velocity_m_s :: "nat \<Rightarrow> f64"
  eulerRate_rad_s :: "nat \<Rightarrow> f64"
  eulerRateEstimate_rad_s :: "nat \<Rightarrow> f64"
  engaged :: f64
  estimator_useMeasuredRates :: f64
  aileron :: f64
  elevator :: f64
  throttle :: f64
  rudder :: f64
  stabilizer :: f64
  desiredSpeed :: f64
  rollCommand :: f64
  courseError :: f64
  desiredHeading :: f64
  airborne :: bool
  estimator_heldSamples :: i32
  dt :: f64
  attitudeParams_staleFailsafeTime :: f64
  guidance_altitudeError :: f64
  guidance_estimate_speed :: f64
  estimator_estimate_speed :: f64
  guidance_crossTrackError :: f64
  rollCommandPreview :: f64
  tecs_pitchCommand :: f64
  pitchCommandPreview :: f64

end
