(* ===== verification/Messages.thy ===== *)
theory Messages
  imports Floats "HOL-Library.Monad_Syntax"
begin

text \<open>
  The requests and replies of \<open>src/runtime_control.c\<close>: the flatcc calls it makes, as records
  of parameters, and the functions that build the replies. The flatcc library and the
  Synapse message code generated by it are not in the repository, so nothing is assumed
  about what they return; every call may fail and every failure is followed as the source
  follows it. The main fact: a reply never is longer than the buffer it is copied to.
\<close>

section \<open>Enumerations and structs of the messages\<close>

datatype result_code =
    Accepted
  | TemporarilyRejected
  | Denied
  | Unsupported
  | Failed

datatype param_kind = Kind_Float | Kind_other nat

datatype local_frame = LocalEnu | Frame_other nat

record vec3f =
  vec_x :: f32
  vec_y :: f32
  vec_z :: f32

record segment_data =
  p0_enu_m :: vec3f
  p1_enu_m :: vec3f
  segment_seq :: nat
  frame :: local_frame

section \<open>The flatcc calls\<close>

text \<open>
  Readers: a verification of the bytes (true for the source's \<open>0\<close>), the root table, and the
  fields. \<open>None\<close> is a NULL pointer.
\<close>

record ('r, 'v) set_reader =
  set_verify :: "bytes \<Rightarrow> bool"
  set_root :: "bytes \<Rightarrow> 'r option"
  set_value :: "'r \<Rightarrow> 'v option"
  value_name :: "'v \<Rightarrow> string option"
  value_kind :: "'v \<Rightarrow> param_kind"
  value_float :: "'v \<Rightarrow> f64"

record 'r get_reader =
  get_verify :: "bytes \<Rightarrow> bool"
  get_root :: "bytes \<Rightarrow> 'r option"
  get_name :: "'r \<Rightarrow> string option"

record ('r, 's) trajectory_reader =
  trajectory_verify :: "bytes \<Rightarrow> bool"
  trajectory_root :: "bytes \<Rightarrow> 'r option"
  trajectory_segments :: "'r \<Rightarrow> 's option"
  segments_len :: "'s \<Rightarrow> nat"
  segments_at :: "'s \<Rightarrow> nat \<Rightarrow> segment_data"
  trajectory_total :: "'r \<Rightarrow> nat"
  expected_plan_version :: "'r \<Rightarrow> u32"

text \<open>
  The builder: each call takes the builder's state and returns the next one, or \<open>None\<close> for
  the value the source treats as a failure. \<open>get_direct_buffer\<close> returns the finished bytes.
\<close>

record 'b builder =
  builder_init :: "'b option"
  param_set_start :: "'b \<Rightarrow> 'b option"
  param_set_value_start :: "'b \<Rightarrow> 'b option"
  value_name_create :: "string \<Rightarrow> 'b \<Rightarrow> 'b option"
  value_kind_add :: "param_kind \<Rightarrow> 'b \<Rightarrow> 'b option"
  value_float_add :: "f64 \<Rightarrow> 'b \<Rightarrow> 'b option"
  param_set_value_end :: "'b \<Rightarrow> 'b option"
  param_set_result_add :: "result_code \<Rightarrow> 'b \<Rightarrow> 'b option"
  param_set_detail_add :: "int \<Rightarrow> 'b \<Rightarrow> 'b option"
  param_set_end :: "'b \<Rightarrow> 'b option"
  param_get_start :: "'b \<Rightarrow> 'b option"
  param_get_values_start :: "'b \<Rightarrow> 'b option"
  param_get_push_start :: "'b \<Rightarrow> 'b option"
  param_get_push_end :: "'b \<Rightarrow> 'b option"
  param_get_values_end :: "'b \<Rightarrow> 'b option"
  param_get_result_add :: "result_code \<Rightarrow> 'b \<Rightarrow> 'b option"
  param_get_total_add :: "u32 \<Rightarrow> 'b \<Rightarrow> 'b option"
  param_get_detail_add :: "int \<Rightarrow> 'b \<Rightarrow> 'b option"
  param_get_end :: "'b \<Rightarrow> 'b option"
  trajectory_start :: "'b \<Rightarrow> 'b option"
  trajectory_create :: "result_code \<Rightarrow> u32 \<Rightarrow> u32 \<Rightarrow> int \<Rightarrow> u32 \<Rightarrow> u32 \<Rightarrow> 'b \<Rightarrow> 'b option"
  trajectory_end :: "'b \<Rightarrow> 'b option"
  get_direct_buffer :: "'b \<Rightarrow> bytes option"

section \<open>The replies\<close>

text \<open>A result is the bytes in the reply buffer, or \<open>None\<close> when the function returns false.\<close>

definition CUBS2_TRAJECTORY_ID :: u32 where "CUBS2_TRAJECTORY_ID = 1"

definition finish_reply :: "'b builder \<Rightarrow> 'b \<Rightarrow> nat \<Rightarrow> bytes option" where
  "finish_reply fb b capacity =
     (case get_direct_buffer fb b of
        None \<Rightarrow> None
      | Some data \<Rightarrow> if length data > capacity then None else Some data)"

definition build_param_set_reply ::
  "'b builder \<Rightarrow> nat \<Rightarrow> result_code \<Rightarrow> string option \<Rightarrow> f64 \<Rightarrow> int \<Rightarrow> bytes option" where
  "build_param_set_reply fb capacity result nm value detail = do {
     b \<leftarrow> builder_init fb;
     b \<leftarrow> param_set_start fb b;
     b \<leftarrow> param_set_value_start fb b;
     b \<leftarrow> value_name_create fb (case nm of None \<Rightarrow> '''' | Some n \<Rightarrow> n) b;
     b \<leftarrow> value_kind_add fb Kind_Float b;
     b \<leftarrow> value_float_add fb value b;
     b \<leftarrow> param_set_value_end fb b;
     b \<leftarrow> param_set_result_add fb result b;
     b \<leftarrow> param_set_detail_add fb detail b;
     b \<leftarrow> param_set_end fb b;
     finish_reply fb b capacity
   }"

definition build_param_get_reply ::
  "'b builder \<Rightarrow> nat \<Rightarrow> result_code \<Rightarrow> string \<Rightarrow> f64 \<Rightarrow> int \<Rightarrow> bytes option" where
  "build_param_get_reply fb capacity result nm value detail = do {
     b \<leftarrow> builder_init fb;
     b \<leftarrow> param_get_start fb b;
     b \<leftarrow> (if result = Accepted then do {
             b \<leftarrow> param_get_values_start fb b;
             b \<leftarrow> param_get_push_start fb b;
             b \<leftarrow> value_name_create fb nm b;
             b \<leftarrow> value_kind_add fb Kind_Float b;
             b \<leftarrow> value_float_add fb value b;
             b \<leftarrow> param_get_push_end fb b;
             param_get_values_end fb b
           } else Some b);
     b \<leftarrow> param_get_result_add fb result b;
     b \<leftarrow> param_get_total_add fb (if result = Accepted then 1 else 0) b;
     b \<leftarrow> param_get_detail_add fb detail b;
     b \<leftarrow> param_get_end fb b;
     finish_reply fb b capacity
   }"

definition build_trajectory_reply ::
  "'b builder \<Rightarrow> nat \<Rightarrow> result_code \<Rightarrow> u32 \<Rightarrow> int \<Rightarrow> u32 \<Rightarrow> bytes option" where
  "build_trajectory_reply fb capacity result version detail failed_seq = do {
     b \<leftarrow> builder_init fb;
     b \<leftarrow> trajectory_start fb b;
     b \<leftarrow> trajectory_create fb result CUBS2_TRAJECTORY_ID version detail failed_seq 0 b;
     b \<leftarrow> trajectory_end fb b;
     finish_reply fb b capacity
   }"

section \<open>The reply fits its buffer\<close>

lemma finish_reply_fits: "finish_reply fb b capacity = Some r \<Longrightarrow> length r \<le> capacity"
  by (auto simp: finish_reply_def split: option.splits if_splits)

lemmas bind_SomeD = Option.bind_eq_Some_conv [THEN iffD1]

lemma build_replies_fit:
  "build_param_set_reply fb capacity result on v d = Some r \<Longrightarrow> length r \<le> capacity"
  "build_param_get_reply fb capacity result nm v d = Some r \<Longrightarrow> length r \<le> capacity"
  "build_trajectory_reply fb capacity result version d seq = Some r \<Longrightarrow> length r \<le> capacity"
  by (auto simp: build_param_set_reply_def build_param_get_reply_def build_trajectory_reply_def
      dest!: bind_SomeD dest: finish_reply_fits)

end
