(* ===== verification/Float_Ops.thy ===== *)
theory Float_Ops
  imports Floats
begin

text \<open>
  The floating-point operations of the control loops: negation, product, sum, comparison,
  square root, and the casts between the formats and the integers. Each is computed exactly
  on unpacked values and rounded once. A cast to an integer type that cannot hold the
  truncated value is undefined in C: its result is \<open>None\<close>.
\<close>

section \<open>Unpacked values\<close>

fun fp_neg :: "fp \<Rightarrow> fp" where
  "fp_neg NaN = NaN"
| "fp_neg (Inf s) = Inf (\<not> s)"
| "fp_neg (Fin s m e) = Fin (\<not> s) m e"

fun fp_mul :: "fp \<Rightarrow> fp \<Rightarrow> fp" where
  "fp_mul (Fin s m e) (Fin t n f) = Fin (s \<noteq> t) (m * n) (e + f)"
| "fp_mul (Inf s) (Inf t) = Inf (s \<noteq> t)"
| "fp_mul (Inf s) (Fin t n f) = (if n = 0 then NaN else Inf (s \<noteq> t))"
| "fp_mul (Fin s m e) (Inf t) = (if m = 0 then NaN else Inf (s \<noteq> t))"
| "fp_mul _ _ = NaN"

text \<open>A signed significand at a common exponent, and back; an exact zero sum is \<open>+0\<close>
  unless both operands are \<open>-0\<close>.\<close>

definition signed_at :: "int \<Rightarrow> bool \<Rightarrow> int \<Rightarrow> int \<Rightarrow> int" where
  "signed_at g s m e = (if s then - 1 else 1) * m * 2 ^ nat (e - g)"

fun fp_add :: "fp \<Rightarrow> fp \<Rightarrow> fp" where
  "fp_add (Fin s m e) (Fin t n f) =
     (let g = min e f; v = signed_at g s m e + signed_at g t n f
      in Fin (if v = 0 then s \<and> t else v < 0) \<bar>v\<bar> g)"
| "fp_add (Inf s) (Inf t) = (if s = t then Inf s else NaN)"
| "fp_add (Inf s) (Fin t n f) = Inf s"
| "fp_add (Fin s m e) (Inf t) = Inf t"
| "fp_add _ _ = NaN"

text \<open>The order of C's \<open><\<close>: false when an operand is NaN.\<close>

fun fp_less :: "fp \<Rightarrow> fp \<Rightarrow> bool" where
  "fp_less (Fin s m e) (Fin t n f) =
     (let g = min e f in signed_at g s m e < signed_at g t n f)"
| "fp_less (Inf s) (Inf t) = (s \<and> \<not> t)"
| "fp_less (Inf s) (Fin t n f) = s"
| "fp_less (Fin s m e) (Inf t) = (\<not> t)"
| "fp_less _ _ = False"

fun fp_leq :: "fp \<Rightarrow> fp \<Rightarrow> bool" where
  "fp_leq NaN y = False"
| "fp_leq x NaN = False"
| "fp_leq x y = (\<not> fp_less y x)"

text \<open>Truncation towards zero.\<close>

fun fp_trunc :: "fp \<Rightarrow> int option" where
  "fp_trunc (Fin s m e) =
     Some ((if s then - 1 else 1) * (if 0 \<le> e then m * 2 ^ nat e else m div 2 ^ nat (- e)))"
| "fp_trunc _ = None"

text \<open>The integer square root, two bits of the argument at a time.\<close>

function isqrt :: "int \<Rightarrow> int" where
  "isqrt n = (if n \<le> 0 then 0
     else let r = 2 * isqrt (n div 4) in if (r + 1) * (r + 1) \<le> n then r + 1 else r)"
  by auto
termination by (relation "measure nat") auto

declare isqrt.simps [simp del]

text \<open>The square root to 26 bits or more, with a last bit that says whether it is inexact.\<close>

definition fp_sqrt :: "fp \<Rightarrow> fp" where
  "fp_sqrt x =
     (case x of
        NaN \<Rightarrow> NaN
      | Inf s \<Rightarrow> if s then NaN else Inf False
      | Fin s m e \<Rightarrow>
          if m = 0 then Fin s 0 0
          else if s then NaN
          else
            let k = 60 + nat (e mod 2);
                n = m * 2 ^ k;
                r = isqrt n
            in Fin False (2 * r + of_bool (r * r \<noteq> n)) ((e - int k) div 2 - 1))"

section \<open>The operations on patterns\<close>

definition f32_neg :: "f32 \<Rightarrow> f32" where
  "f32_neg x = x XOR 0x80000000"

definition f32_mul :: "f32 \<Rightarrow> f32 \<Rightarrow> f32" where
  "f32_mul x y = f32_pack (fp_mul (f32_unpack x) (f32_unpack y))"

definition f32_add :: "f32 \<Rightarrow> f32 \<Rightarrow> f32" where
  "f32_add x y = f32_pack (fp_add (f32_unpack x) (f32_unpack y))"

definition f32_sub :: "f32 \<Rightarrow> f32 \<Rightarrow> f32" where
  "f32_sub x y = f32_pack (fp_add (f32_unpack x) (fp_neg (f32_unpack y)))"

definition fabsf :: "f32 \<Rightarrow> f32" where
  "fabsf x = x AND 0x7FFFFFFF"

definition sqrtf :: "f32 \<Rightarrow> f32" where
  "sqrtf x = f32_pack (fp_sqrt (f32_unpack x))"

definition f32_le :: "f32 \<Rightarrow> f32 \<Rightarrow> bool" where
  "f32_le x y = fp_leq (f32_unpack x) (f32_unpack y)"

definition f64_mul :: "f64 \<Rightarrow> f64 \<Rightarrow> f64" where
  "f64_mul x y = f64_pack (fp_mul (f64_unpack x) (f64_unpack y))"

definition f64_sub :: "f64 \<Rightarrow> f64 \<Rightarrow> f64" where
  "f64_sub x y = f64_pack (fp_add (f64_unpack x) (fp_neg (f64_unpack y)))"

definition f64_less :: "f64 \<Rightarrow> f64 \<Rightarrow> bool" where
  "f64_less x y = fp_less (f64_unpack x) (f64_unpack y)"

definition f64_of_i32 :: "i32 \<Rightarrow> f64" where
  "f64_of_i32 x = f64_pack (Fin (sint x < 0) \<bar>sint x\<bar> 0)"

text \<open>Casts to the integer types, \<open>None\<close> where C leaves them undefined.\<close>

definition cast_to :: "int \<Rightarrow> int \<Rightarrow> fp \<Rightarrow> int option" where
  "cast_to lo hi x =
     (case fp_trunc x of
        None \<Rightarrow> None
      | Some v \<Rightarrow> if lo \<le> v \<and> v \<le> hi then Some v else None)"

definition i32_of_f32 :: "f32 \<Rightarrow> i32 option" where
  "i32_of_f32 x = map_option word_of_int (cast_to (- (2 ^ 31)) (2 ^ 31 - 1) (f32_unpack x))"

definition i16_of_f32 :: "f32 \<Rightarrow> u16 option" where
  "i16_of_f32 x = map_option word_of_int (cast_to (- (2 ^ 15)) (2 ^ 15 - 1) (f32_unpack x))"

definition u16_of_f32 :: "f32 \<Rightarrow> u16 option" where
  "u16_of_f32 x = map_option word_of_int (cast_to 0 (2 ^ 16 - 1) (f32_unpack x))"

section \<open>Facts\<close>

lemma isqrt_sound:
  "0 \<le> n \<Longrightarrow> 0 \<le> isqrt n \<and> isqrt n * isqrt n \<le> n \<and> n < (isqrt n + 1) * (isqrt n + 1)"
proof (induction n rule: isqrt.induct)
  case (1 n)
  show ?case
  proof (cases "n \<le> 0")
    case True
    with 1 show ?thesis by (simp add: isqrt.simps)
  next
    case False
    define r where "r = isqrt (n div 4)"
    have "0 \<le> r \<and> r * r \<le> n div 4 \<and> n div 4 < (r + 1) * (r + 1)"
      using 1 False by (simp add: r_def)
    then have ih: "0 \<le> r" "r * r \<le> n div 4" "n div 4 + 1 \<le> (r + 1) * (r + 1)" by linarith+
    have "4 * (n div 4) + 4 \<le> 4 * ((r + 1) * (r + 1))" using ih(3) by simp
    then have hi: "n < (2 * r + 2) * (2 * r + 2)" by (simp add: algebra_simps)
    have lo: "(2 * r) * (2 * r) \<le> n" using ih(2) by simp
    have "isqrt n = (if (2 * r + 1) * (2 * r + 1) \<le> n then 2 * r + 1 else 2 * r)"
      using False by (simp add: isqrt.simps [of n] r_def Let_def)
    then show ?thesis using lo hi ih(1) by (auto simp: not_le algebra_simps)
  qed
qed

text \<open>The product and the sum are exact before they are rounded.\<close>

lemma fp_mul_real: "fp_real (fp_mul (Fin s m e) (Fin t n f)) = fp_real (Fin s m e) * fp_real (Fin t n f)"
  by (simp add: power_int_add)

lemma signed_at_real: "g \<le> e \<Longrightarrow> of_int (signed_at g s m e) * 2 powi g = fp_real (Fin s m e)"
proof -
  assume "g \<le> e"
  then have "(2 :: real) ^ nat (e - g) = 2 powi (e - g)" by (simp add: power_int_def)
  then have "(2 :: real) ^ nat (e - g) * 2 powi g = 2 powi e" by (simp flip: power_int_add)
  then show ?thesis by (simp add: signed_at_def)
qed

lemma fp_add_real:
  "fp_real (fp_add (Fin s m e) (Fin t n f)) = fp_real (Fin s m e) + fp_real (Fin t n f)"
proof -
  let ?g = "min e f"
  let ?v = "signed_at ?g s m e + signed_at ?g t n f"
  have "fp_real (fp_add (Fin s m e) (Fin t n f)) = of_int ?v * 2 powi ?g"
    by (auto simp: Let_def)
  also have "\<dots> = fp_real (Fin s m e) + fp_real (Fin t n f)"
    by (simp only: of_int_add distrib_right signed_at_real min.cobounded1 min.cobounded2)
  finally show ?thesis .
qed

lemma cast_to_range: "cast_to lo hi x = Some v \<Longrightarrow> lo \<le> v \<and> v \<le> hi"
  by (auto simp: cast_to_def split: option.splits if_splits)

end
