(* ===== verification/Vehicle.thy ===== *)
theory Vehicle
  imports Controller Messages Float_Ops
begin

text \<open>
  What the two control loops (\<open>src/main_realtime.c\<close> and \<open>src/main_sil.c\<close>) share: the
  messages and structs they read and write, the library functions they call, and the
  operations that both files define: the validity of the manual channels, the selection of
  the mode, the idle output and the map from the controller to the channels. The lemmas
  bound the channels and say when each mode is selected.

  The structs come from the Synapse and CSyn headers, which are not in the repository; the
  records hold the members the sources name. \<open>csyn_rc_channels16_t\<close> is the function from
  channel numbers to values that \<open>csyn_rc_channels_data\<close> makes of it.
\<close>

section \<open>Structs\<close>

type_synonym rc_channels = "nat \<Rightarrow> i32"

record quaternion =
  quat_w :: f32
  quat_x :: f32
  quat_y :: f32
  quat_z :: f32

datatype odometry_status = Odometry_Lost | Odometry_OutlierRejected | Odometry_other nat

record odometry_data =
  odom_timestamp_us :: u64
  odom_position :: vec3f
  odom_attitude :: quaternion
  odom_linear_velocity :: vec3f
  odom_angular_velocity :: vec3f
  odom_flags :: u32
  odom_status :: odometry_status

record manual_control =
  manual_valid :: bool
  manual_rc :: rc_channels

record vehicle_health =
  health_timestamp_us :: u64
  flight_mode :: u8
  link_quality_pct :: u8
  health_flags :: u8

record attitude_estimate =
  estimate_timestamp_us :: u64
  estimate_flags :: u8
  estimate_rates :: vec3f
  estimate_attitude :: quaternion

record attitude_command =
  command_timestamp_us :: u64
  thrust :: f32
  command_attitude :: quaternion

record control_loop_metrics =
  metrics_timestamp_us :: u64
  period_us :: u32
  latency_us :: u32

datatype mission_state = Mission_Idle | Mission_Active

record mission_progress =
  progress_timestamp_us :: u64
  progress_mission_id :: u32
  current_seq :: u16
  total :: u16
  mission_state :: mission_state

record local_position_command =
  position_timestamp_us :: u64
  position_enu_m :: vec3f
  yaw_rad :: f32
  type_mask :: u16
  coordinate_frame :: local_frame

datatype trajectory_type = Bezier | Trajectory_other nat
datatype trajectory_degree = Cubic | Degree_other nat

record trajectory_segment =
  traj_timestamp_us :: u64
  traj_p0 :: vec3f
  traj_p1 :: vec3f
  traj_p2 :: vec3f
  traj_p3 :: vec3f
  traj_id :: u32
  traj_segment_seq :: u16
  traj_plan_version :: u32
  traj_flags :: u16
  traj_type :: trajectory_type
  traj_degree :: trajectory_degree
  traj_frame :: local_frame

record navigation_target =
  nav_timestamp_us :: u64
  altitude_error_m :: f32
  airspeed_error_m_s :: f32
  xtrack_error_m :: f32
  desired_roll_cdeg :: u16
  desired_pitch_cdeg :: u16
  desired_yaw_cdeg :: u16
  target_yaw_cdeg :: u16
  distance_to_waypoint_m :: u16

text \<open>The numbers of a sample, and that they are neither NaN nor infinite.\<close>

definition odometry_numbers :: "odometry_data \<Rightarrow> f32 list" where
  "odometry_numbers odom =
     concat (map (\<lambda>v. [vec_x v, vec_y v, vec_z v])
       [odom_position odom, odom_linear_velocity odom, odom_angular_velocity odom]) @
     [quat_w (odom_attitude odom), quat_x (odom_attitude odom), quat_y (odom_attitude odom),
      quat_z (odom_attitude odom)]"

definition odometry_finite :: "odometry_data \<Rightarrow> bool" where
  "odometry_finite odom \<longleftrightarrow> list_all isfinite32 (odometry_numbers odom)"

text \<open>What is published: the message that a \<open>zros_pub_update\<close> copies, by topic.\<close>

datatype 'p publication =
    Pub_pwm_signal_outputs 'p
  | Pub_vehicle_health vehicle_health
  | Pub_attitude_estimate attitude_estimate
  | Pub_attitude_command attitude_command
  | Pub_control_loop_metrics control_loop_metrics
  | Pub_mission_progress mission_progress
  | Pub_local_position_command local_position_command
  | Pub_trajectory_segment trajectory_segment
  | Pub_navigation_target navigation_target

fun publication_topic :: "'p publication \<Rightarrow> string" where
  "publication_topic (Pub_pwm_signal_outputs _) = ''pwm_signal_outputs''"
| "publication_topic (Pub_vehicle_health _) = ''vehicle_health''"
| "publication_topic (Pub_attitude_estimate _) = ''attitude_estimate''"
| "publication_topic (Pub_attitude_command _) = ''attitude_command''"
| "publication_topic (Pub_control_loop_metrics _) = ''control_loop_metrics''"
| "publication_topic (Pub_mission_progress _) = ''mission_progress''"
| "publication_topic (Pub_local_position_command _) = ''local_position_command''"
| "publication_topic (Pub_trajectory_segment _) = ''trajectory_segment''"
| "publication_topic (Pub_navigation_target _) = ''navigation_target''"

section \<open>Configuration and libraries\<close>

text \<open>The Kconfig options the sources test, and the values of the message flags.\<close>

record config =
  fastdyn :: bool
  lockstep_mode :: bool
  simulated_time :: bool
  manual_override :: bool
  zros_bridge :: bool
  runtime_control :: bool
  auto_switch_channel :: nat
  auto_switch_threshold_us :: i32
  sizeof_raw_pose :: nat

record flag_values =
  position_valid :: u32
  attitude_valid :: u32
  linear_velocity_valid :: u32
  angular_velocity_valid :: u32
  outlier_rejected :: u32
  lost :: u32
  estimate_attitude_valid :: u8
  estimate_rates_valid :: u8
  health_armed :: u8
  health_failsafe :: u8
  segment_flag_start :: u16
  segment_flag_final :: u16
  ignore_velocity_x :: u16
  ignore_velocity_y :: u16
  ignore_velocity_z :: u16
  ignore_acceleration_x :: u16
  ignore_acceleration_y :: u16
  ignore_acceleration_z :: u16

text \<open>The functions of CSyn the loops call, and \<open>atan2f\<close>, whose rounding the C standard leaves
  open; \<open>'p\<close> is the struct of the PWM outputs.\<close>

record 'p csyn =
  csyn_clampf :: "f32 \<Rightarrow> f32 \<Rightarrow> f32 \<Rightarrow> f32"
  csyn_pwm_from_centered_axis :: "f32 \<Rightarrow> i32"
  csyn_pwm_from_throttle_axis :: "f32 \<Rightarrow> i32"
  csyn_euler_from_quatf :: "quaternion \<Rightarrow> f32 \<times> f32 \<times> f32"
  csyn_quatf_from_euler :: "f32 \<Rightarrow> f32 \<Rightarrow> f32 \<Rightarrow> quaternion"
  csyn_pwm_outputs_from_rc :: "rc_channels \<Rightarrow> u64 \<Rightarrow> 'p \<Rightarrow> 'p"
  atan2f :: "f32 \<Rightarrow> f32 \<Rightarrow> f32"

text \<open>The generated controller: its initialisation, recalibration and step.\<close>

record 'z efmi =
  efmi_init :: "'z outer_loop_scheme \<Rightarrow> 'z outer_loop_scheme"
  efmi_recalibrate :: "'z outer_loop_scheme \<Rightarrow> 'z outer_loop_scheme"
  efmi_step :: "'z outer_loop_scheme \<Rightarrow> 'z outer_loop_scheme"

definition CUBS2_FIXED_WING_OUTER_LOOP_PERIOD_NS :: nat where
  "CUBS2_FIXED_WING_OUTER_LOOP_PERIOD_NS = 20000000"

definition CUBS2_CONTROL_PERIOD_US :: nat where
  "CUBS2_CONTROL_PERIOD_US = CUBS2_FIXED_WING_OUTER_LOOP_PERIOD_NS div 1000"

section \<open>Mode selection\<close>

definition in_pwm_range :: "i32 \<Rightarrow> bool" where
  "in_pwm_range v \<longleftrightarrow> sle 900 v \<and> sle v 2100"

text \<open>The validity, and the value written through \<open>switch_us\<close>.\<close>

definition manual_control_valid :: "config \<Rightarrow> manual_control \<Rightarrow> bool \<times> i32" where
  "manual_control_valid cfg manual =
     (let channels = manual_rc manual;
          valid = manual_valid manual;
          switch_us = channels (auto_switch_channel cfg);
          valid = fold (\<lambda>i valid. valid \<and> in_pwm_range (channels i)) [0..<5] valid
      in (valid \<and> in_pwm_range switch_us, switch_us))"

definition auto_mode_selected :: "config \<Rightarrow> manual_control \<Rightarrow> bool" where
  "auto_mode_selected cfg manual =
     (if manual_override cfg then
        let (valid, switch_us) = manual_control_valid cfg manual
        in \<not> valid \<or> slt (auto_switch_threshold_us cfg) switch_us
      else True)"

definition idle_output :: rc_channels where
  "idle_output = (\<lambda>_. 0)(0 := 1500, 1 := 1500, 2 := 1000, 3 := 1500, 4 := 1000)"

definition armed_input :: "manual_control \<Rightarrow> bool" where
  "armed_input manual \<longleftrightarrow> \<not> manual_valid manual \<or> sle 1500 (manual_rc manual 6)"

section \<open>The output of the controller\<close>

text \<open>Channel 4 and channels 6 to 8 cast floats to integers, which may be undefined.\<close>

definition milli :: "f64 \<Rightarrow> i32 option" where
  "milli v = i32_of_f32 (f32_mul 0x447A0000 (f32_of_f64 v))"

definition map_output ::
  "'p csyn \<Rightarrow> bool \<Rightarrow> 'z outer_loop_scheme \<Rightarrow> rc_channels option" where
  "map_output cs negate model = do {
     let surface = (\<lambda>v. csyn_pwm_from_centered_axis cs (if negate then f32_neg (f32_of_f64 v) else f32_of_f64 v));
     ch4 \<leftarrow> i32_of_f32 (csyn_clampf cs (f32_of_f64 (stabilizer model)) 0x447A0000 0x44FA0000);
     ch6 \<leftarrow> milli (desiredSpeed model);
     ch7 \<leftarrow> milli (rollCommand model);
     ch8 \<leftarrow> milli (courseError model);
     Some ((\<lambda>_. 0)
       (0 := surface (aileron model),
        1 := surface (elevator model),
        2 := csyn_pwm_from_throttle_axis cs (f32_of_f64 (throttle model)),
        3 := csyn_pwm_from_centered_axis cs (f32_of_f64 (rudder model)),
        4 := ch4, 5 := currentWaypoint model, 6 := ch6, 7 := ch7, 8 := ch8))
   }"

section \<open>When each mode is selected\<close>

definition channels_valid :: "config \<Rightarrow> manual_control \<Rightarrow> bool" where
  "channels_valid cfg manual \<longleftrightarrow> manual_valid manual \<and>
     list_all (\<lambda>i. in_pwm_range (manual_rc manual i)) (auto_switch_channel cfg # [0..<5])"

lemma fold_conj: "fold (\<lambda>i b. b \<and> P i) is b \<longleftrightarrow> b \<and> list_all P is"
  by (induction "is" arbitrary: b) auto

lemma manual_control_valid_eq:
  "manual_control_valid cfg manual =
     (channels_valid cfg manual, manual_rc manual (auto_switch_channel cfg))"
  by (auto simp: manual_control_valid_def channels_valid_def Let_def fold_conj simp del: upt_Suc)

text \<open>
  The pilot flies exactly when the override is configured, the manual input is valid with
  its first five channels and the switch in range, and the switch is at or below the threshold.
\<close>

lemma manual_mode_eq:
  "\<not> auto_mode_selected cfg manual \<longleftrightarrow>
     manual_override cfg \<and> channels_valid cfg manual \<and>
     sle (manual_rc manual (auto_switch_channel cfg)) (auto_switch_threshold_us cfg)"
  by (auto simp: auto_mode_selected_def manual_control_valid_eq slt_def sle_def not_less)

text \<open>What the pilot's channels are in manual mode: valid PWM values.\<close>

lemma manual_mode_channels:
  "\<not> auto_mode_selected cfg manual \<Longrightarrow> i < 5 \<Longrightarrow> in_pwm_range (manual_rc manual i)"
  by (simp add: manual_mode_eq channels_valid_def list_all_iff)

end
