(* ===== verification/Schedule.thy ===== *)
theory Schedule
  imports Vehicle
begin

text \<open>
  The schedule of the controller's fixed step on the simulator's time, as a locale: both
  \<open>fastdyn_control_step_due\<close> (\<open>src/main_realtime.c\<close>) and \<open>control_step_due\<close>
  (\<open>src/main_sil.c\<close>) are a step clock. The lemma proved once is that a step is due exactly
  on the first sample of a 20 ms slot, while the timestamps do not go back.
\<close>

definition slot_of :: "u64 \<Rightarrow> nat" where
  "slot_of t = unat t div CUBS2_CONTROL_PERIOD_US"

text \<open>Which samples are the first of their slots.\<close>

fun slot_starts :: "nat option \<Rightarrow> nat list \<Rightarrow> bool list" where
  "slot_starts prev [] = []"
| "slot_starts prev (k # ks) = (prev \<noteq> Some k) # slot_starts (Some k) ks"

lemma period_us [simp]: "CUBS2_CONTROL_PERIOD_US = 20000"
  by (simp add: CUBS2_CONTROL_PERIOD_US_def CUBS2_FIXED_WING_OUTER_LOOP_PERIOD_NS_def)

text \<open>The start of the next slot, as the sources compute it on 64-bit words.\<close>

definition next_slot_us :: "u64 \<Rightarrow> u64" where
  "next_slot_us t = (t div of_nat CUBS2_CONTROL_PERIOD_US + 1) * of_nat CUBS2_CONTROL_PERIOD_US"

lemma next_slot_unat:
  assumes "unat t < 2 ^ 64 - 20000"
  shows "unat (next_slot_us t) = (slot_of t + 1) * 20000"
proof -
  have d: "unat (t div 20000) = slot_of t" by (simp add: slot_of_def unat_div_distrib)
  have "slot_of t * 20000 \<le> unat t" by (simp add: slot_of_def)
  then have "(slot_of t + 1) * 20000 < 2 ^ 64" using assms by simp
  then have "unat (word_of_nat ((slot_of t + 1) * 20000) :: u64) = (slot_of t + 1) * 20000"
    by (simp add: unat_of_nat take_bit_nat_eq_self del: of_nat_mult of_nat_add)
  moreover have "next_slot_us t = word_of_nat ((slot_of t + 1) * 20000)"
    by (simp add: next_slot_us_def flip: d)
  ultimately show ?thesis by simp
qed

lemma slot_less_iff: "slot_of t < k + 1 \<longleftrightarrow> unat t < (k + 1) * 20000"
  by (auto simp: slot_of_def div_less_iff_less_mult)

text \<open>The next time of a clock whose last step was in a slot, or that has not stepped.\<close>

fun clock_after :: "nat option \<Rightarrow> u64 \<Rightarrow> bool" where
  "clock_after None t \<longleftrightarrow> t = 0"
| "clock_after (Some k) t \<longleftrightarrow> unat t = (k + 1) * 20000"

fun not_before :: "nat option \<Rightarrow> nat \<Rightarrow> bool" where
  "not_before None k \<longleftrightarrow> True"
| "not_before (Some j) k \<longleftrightarrow> j \<le> k"

locale step_clock =
  fixes sample :: "u64 \<Rightarrow> 's \<Rightarrow> 's"
    and next_time :: "'s \<Rightarrow> u64"
    and due :: "'s \<Rightarrow> bool \<times> 's"
  assumes next_at: "next_time (sample t s) = next_time s"
    and not_due: "t < next_time s \<Longrightarrow> due (sample t s) = (False, sample t s)"
    and is_due: "next_time s \<le> t \<Longrightarrow>
      fst (due (sample t s)) \<and> next_time (snd (due (sample t s))) = next_slot_us t"
begin

text \<open>A step is due exactly on the first sample of a slot.\<close>

lemma due_first:
  assumes "clock_after prev (next_time s)" and "not_before prev (slot_of t)" and "unat t < 2 ^ 64 - 20000"
  shows "fst (due (sample t s)) \<longleftrightarrow> prev \<noteq> Some (slot_of t)"
    and "clock_after (Some (slot_of t)) (next_time (snd (due (sample t s))))"
proof -
  have "t < next_time s \<longleftrightarrow> prev = Some (slot_of t)"
  proof (cases prev)
    case (Some k)
    then show ?thesis
      using assms(1,2) slot_less_iff [of t k] by (auto simp: word_less_nat_alt)
  qed (use assms(1) in simp)
  moreover have "clock_after (Some (slot_of t)) (next_slot_us t)"
    using next_slot_unat [OF assms(3)] by simp
  ultimately show "fst (due (sample t s)) \<longleftrightarrow> prev \<noteq> Some (slot_of t)"
    and "clock_after (Some (slot_of t)) (next_time (snd (due (sample t s))))"
    using not_due [of t s] is_due [of s t] assms(1) next_at
    by (cases "t < next_time s"; simp add: not_less)+
qed

end

text \<open>How many steps that is: one for each slot that has a sample.\<close>

lemma count_slot_starts:
  "sorted (k # ks) \<Longrightarrow> length (filter id (slot_starts (Some k) ks)) = card (set (k # ks)) - 1"
proof (induction ks arbitrary: k)
  case (Cons a ks)
  then have "sorted (a # ks)" by simp
  note ih = Cons.IH [OF this]
  show ?case
  proof (cases "a = k")
    case False
    then have "k \<notin> set (a # ks)" using Cons.prems by auto
    then have "card (set (k # a # ks)) = Suc (card (set (a # ks)))" by simp
    moreover have "0 < card (set (a # ks))" by (simp add: card_gt_0_iff)
    ultimately show ?thesis using ih False by simp
  qed (use ih in simp)
qed simp

lemma count_slots: "sorted ks \<Longrightarrow> length (filter id (slot_starts None ks)) = card (set ks)"
proof (cases ks)
  case (Cons k ks')
  assume "sorted ks"
  then have "length (filter id (slot_starts (Some k) ks')) = card (set ks) - 1"
    using count_slot_starts [of k ks'] Cons by simp
  moreover have "0 < card (set ks)" using Cons by (simp add: card_gt_0_iff)
  ultimately show ?thesis using Cons by simp
qed simp

end
