(* ===== verification/Realtime_State.thy ===== *)
theory Realtime_State
  imports Schedule
begin

text \<open>
  The state of \<open>src/main_realtime.c\<close> and the operations that read its inputs: the pose from
  the motion capture or from the simulator, the manual channels, the flags of the attitude
  estimate and the stale-pose failsafe. The compile-time options are the record \<open>config\<close>:
  the state has the members of both builds. Facts: a pose is valid only if it is finite with
  a quaternion near length one, the freshness of the measurement, and the step clock.
\<close>

definition CUBS2_MOCAP_FRESHNESS_MS :: int where "CUBS2_MOCAP_FRESHNESS_MS = 100"
definition CUBS2_QUATERNION_NORM_TOLERANCE :: f32 where "CUBS2_QUATERNION_NORM_TOLERANCE = 0x3DCCCCCD"
definition CUBS2_MISSION_BROADCAST_PERIOD :: u32 where "CUBS2_MISSION_BROADCAST_PERIOD = 10"
definition CUBS2_MISSION_ID :: u32 where "CUBS2_MISSION_ID = 1"

section \<open>The state\<close>

record mocap_rigid_body =
  mocap_x :: f32
  mocap_y :: f32
  mocap_z :: f32
  mocap_qw :: f32
  mocap_qx :: f32
  mocap_qy :: f32
  mocap_qz :: f32
  mocap_valid :: bool

record 'p control_context =
  ctx_mocap :: mocap_rigid_body
  ctx_odometry :: odometry_data
  next_control_time_us :: u64
  ctx_manual :: manual_control
  control_rc :: rc_channels
  pwm_outputs :: 'p
  ctx_vehicle_health :: vehicle_health
  ctx_attitude_estimate :: attitude_estimate
  ctx_attitude_command :: attitude_command
  ctx_control_loop_metrics :: control_loop_metrics
  ctx_mission_progress :: mission_progress
  ctx_local_position_command :: local_position_command
  ctx_trajectory_segment :: trajectory_segment
  ctx_navigation_target :: navigation_target
  mission_broadcast_countdown :: u32
  mission_broadcast_seq :: u16
  mocap_generation :: u32
  mocap_last_update_ms :: u64
  estimator_control_steps :: u32
  manual_generation :: u32
  main_loop_us :: u32
  previous_auto_mode :: bool

section \<open>Odometry of the simulator\<close>

definition odometry_valid :: "flag_values \<Rightarrow> odometry_data \<Rightarrow> bool" where
  "odometry_valid fl odometry =
     (let required = position_valid fl OR attitude_valid fl;
          reject = outlier_rejected fl OR lost fl
      in odom_flags odometry AND required = required \<and>
         odom_flags odometry AND reject = 0 \<and>
         odom_status odometry \<noteq> Odometry_Lost \<and>
         odom_status odometry \<noteq> Odometry_OutlierRejected)"

definition read_fastdyn_odometry :: "flag_values \<Rightarrow> 'p control_context \<Rightarrow> 'p control_context" where
  "read_fastdyn_odometry fl ctx =
     (let odometry = ctx_odometry ctx in
      ctx\<lparr>ctx_mocap :=
        \<lparr>mocap_x = vec_x (odom_position odometry),
         mocap_y = vec_y (odom_position odometry),
         mocap_z = vec_z (odom_position odometry),
         mocap_qw = quat_w (odom_attitude odometry),
         mocap_qx = quat_x (odom_attitude odometry),
         mocap_qy = quat_y (odom_attitude odometry),
         mocap_qz = quat_z (odom_attitude odometry),
         mocap_valid = odometry_valid fl odometry\<rparr>\<rparr>)"

definition fastdyn_control_step_due :: "'p control_context \<Rightarrow> bool \<times> 'p control_context" where
  "fastdyn_control_step_due ctx =
     (if odom_timestamp_us (ctx_odometry ctx) < next_control_time_us ctx then (False, ctx)
      else (True, ctx\<lparr>next_control_time_us :=
              (odom_timestamp_us (ctx_odometry ctx) div of_nat CUBS2_CONTROL_PERIOD_US + 1) *
              of_nat CUBS2_CONTROL_PERIOD_US\<rparr>))"

section \<open>Pose of the motion capture\<close>

text \<open>What the CSyn store and the clock return to one call.\<close>

record pose_input =
  pose_generation :: u32
  pose_copied :: bool
  pose_len :: nat
  pose_position :: vec3f
  pose_attitude :: quaternion
  pose_uptime_ms :: u64

definition read_mocap_if_updated ::
  "config \<Rightarrow> pose_input \<Rightarrow> 'p control_context \<Rightarrow> bool \<times> 'p control_context" where
  "read_mocap_if_updated cfg input ctx =
     (let generation = pose_generation input in
      if generation = 0 \<or> generation = mocap_generation ctx then (False, ctx)
      else if \<not> pose_copied input \<or> pose_len input \<noteq> sizeof_raw_pose cfg then (False, ctx)
      else
        let vs = [vec_x (pose_position input), vec_y (pose_position input), vec_z (pose_position input),
                  quat_w (pose_attitude input), quat_x (pose_attitude input),
                  quat_y (pose_attitude input), quat_z (pose_attitude input)];
            all_finite = fold (\<lambda>v fin. fin \<and> isfinite32 v) vs True;
            norm_squared = f32_add (f32_add (f32_add (f32_mul (vs ! 3) (vs ! 3)) (f32_mul (vs ! 4) (vs ! 4)))
              (f32_mul (vs ! 5) (vs ! 5))) (f32_mul (vs ! 6) (vs ! 6));
            quaternion_valid = all_finite \<and>
              f32_le (fabsf (f32_sub norm_squared 0x3F800000)) CUBS2_QUATERNION_NORM_TOLERANCE
        in (True, ctx\<lparr>mocap_generation := generation,
                      mocap_last_update_ms := pose_uptime_ms input,
                      ctx_mocap :=
                        \<lparr>mocap_x = vs ! 0, mocap_y = vs ! 1, mocap_z = vs ! 2, mocap_qw = vs ! 3,
                         mocap_qx = vs ! 4, mocap_qy = vs ! 5, mocap_qz = vs ! 6,
                         mocap_valid = all_finite \<and> quaternion_valid\<rparr>\<rparr>))"

definition mocap_measurement_fresh :: "u64 \<Rightarrow> 'p control_context \<Rightarrow> bool" where
  "mocap_measurement_fresh uptime_ms ctx =
     (let age_ms = sint uptime_ms - sint (mocap_last_update_ms ctx)
      in mocap_valid (ctx_mocap ctx) \<and> mocap_generation ctx \<noteq> 0 \<and> 0 \<le> age_ms \<and>
         age_ms \<le> CUBS2_MOCAP_FRESHNESS_MS)"

section \<open>Failsafe and the flags of the estimate\<close>

definition model_stale_failsafe_active :: "'z outer_loop_scheme \<Rightarrow> bool" where
  "model_stale_failsafe_active model \<longleftrightarrow>
     airborne model \<and>
     f64_less (attitudeParams_staleFailsafeTime model)
       (f64_mul (f64_of_i32 (estimator_heldSamples model)) (dt model))"

definition attitude_estimate_flags ::
  "config \<Rightarrow> flag_values \<Rightarrow> u64 \<Rightarrow> 'z outer_loop_scheme \<Rightarrow> 'p control_context \<Rightarrow> u8" where
  "attitude_estimate_flags cfg fl uptime_ms model ctx =
     (let attitude_finite = isfinite64 (euler_rad model 0) \<and> isfinite64 (euler_rad model 1) \<and>
            isfinite64 (euler_rad model 2);
          rates_finite = isfinite64 (eulerRateEstimate_rad_s model 0) \<and>
            isfinite64 (eulerRateEstimate_rad_s model 1) \<and> isfinite64 (eulerRateEstimate_rad_s model 2);
          measurement_fresh = (if fastdyn cfg then mocap_valid (ctx_mocap ctx)
            else mocap_measurement_fresh uptime_ms ctx);
          flags = 0;
          flags = (if measurement_fresh \<and> 1 \<le> estimator_control_steps ctx \<and> attitude_finite
            then flags OR estimate_attitude_valid fl else flags)
      in if measurement_fresh \<and> 2 \<le> estimator_control_steps ctx \<and> rates_finite
         then flags OR estimate_rates_valid fl else flags)"

section \<open>Manual channels\<close>

text \<open>The read of the topic returns its code and what the message it was given holds then.\<close>

record manual_input =
  manual_topic_generation :: u32
  manual_topic_read :: "manual_control \<Rightarrow> int \<times> manual_control"

definition read_manual_if_updated ::
  "config \<Rightarrow> manual_input \<Rightarrow> 'p control_context \<Rightarrow> bool \<times> 'p control_context" where
  "read_manual_if_updated cfg input ctx =
     (if zros_bridge cfg then
        let generation = manual_topic_generation input in
        if generation = 0 \<or> generation = manual_generation ctx then (False, ctx)
        else
          let (rc, manual) = manual_topic_read input (ctx_manual ctx);
              ctx = ctx\<lparr>ctx_manual := manual\<rparr>
          in if rc \<noteq> 0 then (False, ctx)
             else (True, ctx\<lparr>manual_generation := generation\<rparr>)
      else (False, ctx))"

section \<open>Input and output of the controller\<close>

definition vec3 :: "f64 \<Rightarrow> f64 \<Rightarrow> f64 \<Rightarrow> (nat \<Rightarrow> f64) \<Rightarrow> nat \<Rightarrow> f64" where
  "vec3 a b c old = old(0 := a, 1 := b, 2 := c)"

definition fixed_wing_map_input ::
  "'p csyn \<Rightarrow> mocap_rigid_body \<Rightarrow> 'z outer_loop_scheme \<Rightarrow> 'z outer_loop_scheme" where
  "fixed_wing_map_input cs mocap model =
     (let (roll, pitch, yaw) =
            (if mocap_valid mocap then
               let (roll, pitch, yaw) = csyn_euler_from_quatf cs
                     \<lparr>quat_w = mocap_qw mocap, quat_x = mocap_qx mocap, quat_y = mocap_qy mocap,
                      quat_z = mocap_qz mocap\<rparr>
               in (roll, f32_neg pitch, yaw)
             else (0, 0, 0))
      in model\<lparr>position_m := vec3 (f64_of_f32 (mocap_x mocap)) (f64_of_f32 (mocap_y mocap))
                 (f64_of_f32 (mocap_z mocap)) (position_m model),
               euler_rad := vec3 (f64_of_f32 roll) (f64_of_f32 pitch) (f64_of_f32 yaw) (euler_rad model)\<rparr>)"

definition fixed_wing_map_output ::
  "'p csyn \<Rightarrow> config \<Rightarrow> 'z outer_loop_scheme \<Rightarrow> rc_channels option" where
  "fixed_wing_map_output cs cfg model = map_output cs (fastdyn cfg) model"

section \<open>Facts\<close>

text \<open>The simulator's build is a step clock.\<close>

interpretation fastdyn_clock: step_clock
  "\<lambda>t ctx. ctx\<lparr>ctx_odometry := (ctx_odometry ctx)\<lparr>odom_timestamp_us := t\<rparr>\<rparr>"
  next_control_time_us fastdyn_control_step_due
  by unfold_locales (auto simp: fastdyn_control_step_due_def next_slot_us_def)

text \<open>Which numbers a mocap pose has.\<close>

definition pose_values :: "mocap_rigid_body \<Rightarrow> f32 list" where
  "pose_values p = [mocap_x p, mocap_y p, mocap_z p, mocap_qw p, mocap_qx p, mocap_qy p, mocap_qz p]"

lemma fold_finite: "fold (\<lambda>v fin. fin \<and> isfinite32 v) vs b \<longleftrightarrow> b \<and> list_all isfinite32 vs"
  by (induction vs arbitrary: b) auto

text \<open>A pose that is accepted as valid has only finite numbers.\<close>

theorem accepted_pose_finite:
  assumes "read_mocap_if_updated cfg input ctx = (True, ctx')" and "mocap_valid (ctx_mocap ctx')"
  shows "list_all isfinite32 (pose_values (ctx_mocap ctx'))"
  using assms
  by (auto simp: read_mocap_if_updated_def Let_def fold_finite pose_values_def split: if_splits)

text \<open>Without a new sample of the right size nothing changes.\<close>

lemma mocap_unchanged:
  "fst (read_mocap_if_updated cfg input ctx) \<or> snd (read_mocap_if_updated cfg input ctx) = ctx"
  by (simp add: read_mocap_if_updated_def Let_def)

end
