(* ===== verification/Parameters.thy ===== *)
theory Parameters
  imports Controller
begin

text \<open>
  The tunable parameters of \<open>src/runtime_control.c\<close>: the table \<open>values\<close>
  (\<open>value_table\<close>), the public names (\<open>canonical_name\<close>), the search (\<open>find_value\<close>) and the
  write to the controller (\<open>apply_value\<close>). The lemmas: a search returns \<open>-1\<close> or an index of
  the table, every entry and every alias is found, and writes to different entries touch
  different members.
\<close>

section \<open>The table\<close>

text \<open>
  An entry has the member's name, the members at its two offsets, and the bounds. The
  source declares the bounds and does not read them.
\<close>

record runtime_value =
  name :: string
  live_member :: string
  mirror_member :: string
  lower :: f64
  upper :: f64

definition VALUE :: "string \<Rightarrow> string \<Rightarrow> f64 \<Rightarrow> f64 \<Rightarrow> runtime_value" where
  "VALUE field mirror_field lo hi =
     \<lparr>name = field, live_member = field, mirror_member = mirror_field, lower = lo, upper = hi\<rparr>"

definition value_table :: "runtime_value list" where
  "value_table =
    [
     VALUE ''route_cruiseSpeed'' ''guidance_route_cruiseSpeed'' 0x3FF0000000000000 0x4028000000000000,
     VALUE ''route_altitudeToFlightPathGain'' ''guidance_route_altitudeToFlightPathGain'' 0x0000000000000000 0x4024000000000000,
     VALUE ''route_altitudeLookaheadDistance'' ''guidance_route_altitudeLookaheadDistance'' 0x3FE0000000000000 0x4049000000000000,
     VALUE ''route_flightPathAngleLimit'' ''guidance_route_flightPathAngleLimit'' 0x3F947AE147AE147B 0x3FE6666666666666,
     VALUE ''route_speedToAccelerationGain'' ''guidance_route_speedToAccelerationGain'' 0x0000000000000000 0x4024000000000000,
     VALUE ''route_crossTrackSteeringDistance'' ''guidance_route_crossTrackSteeringDistance'' 0x3FD0000000000000 0x4049000000000000,
     VALUE ''route_waypointSwitchingDistance'' ''guidance_route_waypointSwitchingDistance'' 0x3FB999999999999A 0x4049000000000000,
     VALUE ''tecsParams_thrustKp'' ''tecs_tecs_thrustKp'' 0x0000000000000000 0x4000000000000000,
     VALUE ''tecsParams_thrustKi'' ''tecs_tecs_thrustKi'' 0x0000000000000000 0x4000000000000000,
     VALUE ''tecsParams_energyRateIntegralMax'' ''tecs_tecs_energyRateIntegralMax'' 0x0000000000000000 0x4059000000000000,
     VALUE ''tecsParams_pitchKp'' ''tecs_tecs_pitchKp'' 0x0000000000000000 0x4000000000000000,
     VALUE ''tecsParams_pitchKi'' ''tecs_tecs_pitchKi'' 0x0000000000000000 0x4000000000000000,
     VALUE ''tecsParams_energyDistributionIntegralMax'' ''tecs_tecs_energyDistributionIntegralMax'' 0x0000000000000000 0x4059000000000000,
     VALUE ''tecsParams_pitchCommandLimit'' ''tecs_tecs_pitchCommandLimit'' 0x3F947AE147AE147B 0x3FE6666666666666,
     VALUE ''tecsParams_turnThrustGain'' ''tecs_tecs_turnThrustGain'' 0x0000000000000000 0x4014000000000000,
     VALUE ''tecsParams_turnPitchGain'' ''tecs_tecs_turnPitchGain'' 0xC000000000000000 0x4000000000000000,
     VALUE ''attitudeParams_rollLimit'' ''attitude_params_rollLimit'' 0x3FA999999999999A 0x3FF3333333333333,
     VALUE ''attitudeParams_rollRateLimit'' ''attitude_params_rollRateLimit'' 0x3FB999999999999A 0x4020000000000000,
     VALUE ''attitudeParams_pitchCommandToElevatorGain'' ''attitude_params_pitchCommandToElevatorGain'' 0x0000000000000000 0x4024000000000000,
     VALUE ''attitudeParams_rollCommandToAileronGain'' ''attitude_params_rollCommandToAileronGain'' 0x0000000000000000 0x4024000000000000,
     VALUE ''attitude_headingPid_kp'' ''attitude_headingController_params_kp'' 0x0000000000000000 0x4024000000000000,
     VALUE ''attitude_headingPid_ki'' ''attitude_headingController_params_ki'' 0x0000000000000000 0x4024000000000000,
     VALUE ''attitude_headingPid_kd'' ''attitude_headingController_params_kd'' 0x0000000000000000 0x4024000000000000,
     VALUE ''attitude_headingPid_integralMax'' ''attitude_headingController_params_integralMax'' 0x0000000000000000 0x4024000000000000,
     VALUE ''attitude_pitchPid_kp'' ''attitude_pitchController_params_kp'' 0x0000000000000000 0x4024000000000000,
     VALUE ''attitude_pitchPid_ki'' ''attitude_pitchController_params_ki'' 0x0000000000000000 0x4024000000000000,
     VALUE ''attitude_pitchPid_kd'' ''attitude_pitchController_params_kd'' 0x0000000000000000 0x4024000000000000,
     VALUE ''attitude_pitchPid_integralMax'' ''attitude_pitchController_params_integralMax'' 0x0000000000000000 0x4024000000000000
    ]"

section \<open>Public names\<close>

definition aliases :: "(string \<times> string) list" where
  "aliases =
    [
     (''route.cruiseSpeed'', ''route_cruiseSpeed''),
     (''route.altitudeToFlightPathGain'', ''route_altitudeToFlightPathGain''),
     (''route.altitudeLookaheadDistance'', ''route_altitudeLookaheadDistance''),
     (''route.flightPathAngleLimit'', ''route_flightPathAngleLimit''),
     (''route.speedToAccelerationGain'', ''route_speedToAccelerationGain''),
     (''route.crossTrackSteeringDistance'', ''route_crossTrackSteeringDistance''),
     (''route.waypointSwitchingDistance'', ''route_waypointSwitchingDistance''),
     (''tecs.thrustKp'', ''tecsParams_thrustKp''),
     (''tecs.thrustKi'', ''tecsParams_thrustKi''),
     (''tecs.pitchKp'', ''tecsParams_pitchKp''),
     (''tecs.pitchKi'', ''tecsParams_pitchKi''),
     (''tecs.pitchCommandLimit'', ''tecsParams_pitchCommandLimit''),
     (''attitude.rollLimit'', ''attitudeParams_rollLimit''),
     (''attitude.rollRateLimit'', ''attitudeParams_rollRateLimit''),
     (''attitude.headingPid.kp'', ''attitude_headingPid_kp''),
     (''attitude.headingPid.ki'', ''attitude_headingPid_ki''),
     (''attitude.headingPid.kd'', ''attitude_headingPid_kd''),
     (''attitude.headingPid.integralMax'', ''attitude_headingPid_integralMax''),
     (''attitude.pitchPid.kp'', ''attitude_pitchPid_kp''),
     (''attitude.pitchPid.ki'', ''attitude_pitchPid_ki''),
     (''attitude.pitchPid.kd'', ''attitude_pitchPid_kd''),
     (''attitude.pitchPid.integralMax'', ''attitude_pitchPid_integralMax'')
    ]"

fun find_alias :: "string \<Rightarrow> (string \<times> string) list \<Rightarrow> string" where
  "find_alias nm [] = nm"
| "find_alias nm ((public_name, field) # rest) =
     (if nm = public_name then field else find_alias nm rest)"

definition canonical_name :: "string \<Rightarrow> string" where
  "canonical_name nm =
     (if nm = ''guidance.cruiseSpeed'' \<or> nm = ''velocity.setpoint'' then ''route_cruiseSpeed''
      else find_alias nm aliases)"

fun find_entry :: "string \<Rightarrow> runtime_value list \<Rightarrow> nat \<Rightarrow> int" where
  "find_entry canonical [] i = - 1"
| "find_entry canonical (v # vs) i =
     (if canonical = name v then int i else find_entry canonical vs (Suc i))"

definition find_value :: "string \<Rightarrow> int" where
  "find_value nm = find_entry (canonical_name nm) value_table 0"

section \<open>The write to the controller\<close>

definition apply_value :: "'z outer_loop_scheme \<Rightarrow> nat \<Rightarrow> f64 \<Rightarrow> 'z outer_loop_scheme" where
  "apply_value model index value =
     model\<lparr>leaf := (leaf model)(live_member (value_table ! index) := value,
                                mirror_member (value_table ! index) := value)\<rparr>"

section \<open>Facts of the two tables\<close>

lemma length_values [simp]: "length value_table = 28"
  by (simp add: value_table_def)

text \<open>The table fits the arrays of the shared state (the source's \<open>BUILD_ASSERT\<close>).\<close>

lemma values_fit: "length value_table \<le> PENDING_SIZE"
  by (simp add: PENDING_SIZE_def)

lemma distinct_members: "distinct (map live_member value_table @ map mirror_member value_table)"
  by (simp add: value_table_def VALUE_def)

lemma names_are_live: "map name value_table = map live_member value_table"
  by (simp add: value_table_def VALUE_def)

lemma distinct_names: "distinct (map name value_table)"
  using distinct_members by (simp add: names_are_live)

text \<open>No name of the table has a dot, every public name has one and stands for an entry.\<close>

lemma names_without_dot: "list_all (\<lambda>n. CHR ''.'' \<notin> set n) (map name value_table)"
  by (simp add: value_table_def VALUE_def)

lemma aliases_with_dot: "list_all (\<lambda>p. CHR ''.'' \<in> set p) (map fst aliases)"
  by (simp add: aliases_def)

lemma aliases_fields: "list_all (\<lambda>f. f \<in> set (map name value_table)) (map snd aliases)"
  by (simp add: aliases_def value_table_def VALUE_def)

lemma distinct_aliases:
  "distinct (''guidance.cruiseSpeed'' # ''velocity.setpoint'' # map fst aliases)"
  by (simp add: aliases_def)

section \<open>The search\<close>

lemma find_entry_range:
  "find_entry c vs i = - 1 \<or> int i \<le> find_entry c vs i \<and> find_entry c vs i < int (i + length vs)"
proof (induction vs arbitrary: i)
  case (Cons v vs)
  from Cons.IH [of "Suc i"] show ?case by auto
qed simp

lemma find_entry_none: "find_entry c vs i < 0 \<longleftrightarrow> c \<notin> set (map name vs)"
  by (induction vs arbitrary: i) auto

lemma find_entry_nth:
  "distinct (map name vs) \<Longrightarrow> k < length vs \<Longrightarrow> find_entry (name (vs ! k)) vs i = int (i + k)"
proof (induction vs arbitrary: i k)
  case (Cons v vs)
  show ?case
  proof (cases k)
    case (Suc j)
    with Cons.prems have "name (vs ! j) \<in> name ` set vs" "name v \<notin> name ` set vs" by auto
    then have "name (vs ! j) \<noteq> name v" by metis
    with Suc Cons show ?thesis by simp
  qed simp
qed simp

lemma find_alias_in: "distinct (map fst al) \<Longrightarrow> (p, f) \<in> set al \<Longrightarrow> find_alias p al = f"
proof (induction al)
  case (Cons x al)
  then show ?case by (cases x) (force)
qed simp

lemma find_alias_none: "nm \<notin> set (map fst al) \<Longrightarrow> find_alias nm al = nm"
  by (induction al) auto

lemma canonical_alias: "(p, f) \<in> set aliases \<Longrightarrow> canonical_name p = f"
proof -
  assume *: "(p, f) \<in> set aliases"
  then have "p \<in> fst ` set aliases" by force
  then have "p \<noteq> ''guidance.cruiseSpeed''" "p \<noteq> ''velocity.setpoint''"
    using distinct_aliases unfolding distinct.simps set_map list.set by blast+
  moreover have "find_alias p aliases = f"
    using distinct_aliases * by (simp add: find_alias_in)
  ultimately show ?thesis by (simp add: canonical_name_def)
qed

lemma canonical_plain: "CHR ''.'' \<notin> set nm \<Longrightarrow> canonical_name nm = nm"
proof -
  assume *: "CHR ''.'' \<notin> set nm"
  then have "nm \<notin> set (map fst aliases)"
    using aliases_with_dot unfolding list_all_iff by blast
  moreover have "nm \<noteq> ''guidance.cruiseSpeed''" "nm \<noteq> ''velocity.setpoint''" using * by auto
  ultimately show ?thesis by (simp add: canonical_name_def find_alias_none)
qed

text \<open>The index found is -1 or an index of the table, so every array access is in bounds.\<close>

lemma find_value_range: "find_value nm = - 1 \<or> 0 \<le> find_value nm \<and> find_value nm < 28"
  using find_entry_range [of "canonical_name nm" value_table 0] by (auto simp: find_value_def)

lemma find_value_cases:
  obtains "find_value nm = - 1" | i where "find_value nm = int i" "i < length value_table"
  using find_value_range [of nm] by (metis length_values nonneg_int_cases of_nat_less_iff of_nat_numeral)

lemma find_value_name: "i < length value_table \<Longrightarrow> find_value (name (value_table ! i)) = int i"
proof -
  assume i: "i < length value_table"
  then have "name (value_table ! i) \<in> set (map name value_table)" by simp
  then have "CHR ''.'' \<notin> set (name (value_table ! i))"
    using names_without_dot unfolding list_all_iff by blast
  then show ?thesis
    using find_entry_nth [OF distinct_names i, of 0] by (simp add: find_value_def canonical_plain)
qed

text \<open>Every public name of the alias table selects the table entry of its field.\<close>

theorem alias_selects_field:
  assumes "(public_name, field) \<in> set aliases"
  shows "\<exists>i < length value_table. find_value public_name = int i \<and> find_value field = int i \<and>
    name (value_table ! i) = field"
proof -
  have "field \<in> set (map name value_table)"
    using assms aliases_fields unfolding list_all_iff by force
  then obtain i where i: "i < length value_table" "name (value_table ! i) = field"
    by (auto simp: in_set_conv_nth)
  then have f: "find_value field = int i" using find_value_name by metis
  from i have "field \<in> set (map name value_table)" by auto
  then have "CHR ''.'' \<notin> set field" using names_without_dot unfolding list_all_iff by blast
  then have "find_value public_name = find_value field"
    using canonical_alias [OF assms] by (simp add: find_value_def canonical_plain)
  with i f show ?thesis by auto
qed

theorem alias_selects_field_witness:
  "\<exists>i < length value_table. find_value ''tecs.pitchKi'' = int i \<and> find_value ''tecsParams_pitchKi'' = int i \<and>
    name (value_table ! i) = ''tecsParams_pitchKi''"
  by (rule alias_selects_field) (simp add: aliases_def)

section \<open>Writes to different entries\<close>

text \<open>The 56 members of the table are all different.\<close>

lemma members_differ:
  assumes "i < length value_table" "j < length value_table"
  shows "live_member (value_table ! i) = live_member (value_table ! j) \<longleftrightarrow> i = j"
    and "mirror_member (value_table ! i) = mirror_member (value_table ! j) \<longleftrightarrow> i = j"
    and "live_member (value_table ! i) \<noteq> mirror_member (value_table ! j)"
proof -
  let ?ms = "map live_member value_table @ map mirror_member value_table"
  have nth: "?ms ! i = live_member (value_table ! i)" "?ms ! j = live_member (value_table ! j)"
    "?ms ! (length value_table + i) = mirror_member (value_table ! i)"
    "?ms ! (length value_table + j) = mirror_member (value_table ! j)"
    using assms by (simp_all only: nth_append length_map nth_map if_True add_less_same_cancel1
        not_less_zero if_False add_diff_cancel_left')
  have len: "length ?ms = length value_table + length value_table" by (simp only: length_append length_map)
  have ij: "i < length ?ms" "j < length ?ms" "length value_table + i < length ?ms" "length value_table + j < length ?ms"
    using assms unfolding len by linarith+
  note eq = nth_eq_iff_index_eq [OF distinct_members]
  show "live_member (value_table ! i) = live_member (value_table ! j) \<longleftrightarrow> i = j"
    using eq [OF ij(1,2)] unfolding nth .
  show "mirror_member (value_table ! i) = mirror_member (value_table ! j) \<longleftrightarrow> i = j"
    using eq [OF ij(3,4)] unfolding nth by simp
  show "live_member (value_table ! i) \<noteq> mirror_member (value_table ! j)"
    using eq [OF ij(1,4)] assms(1) unfolding nth by linarith
qed

lemma apply_value_leaf:
  assumes "i < length value_table" "j < length value_table"
  shows "leaf (apply_value model i v) (live_member (value_table ! j)) =
      (if i = j then v else leaf model (live_member (value_table ! j)))"
    and "leaf (apply_value model i v) (mirror_member (value_table ! j)) =
      (if i = j then v else leaf model (mirror_member (value_table ! j)))"
  using members_differ [OF assms(1,2)] members_differ [OF assms(2,1)]
  by (auto simp: apply_value_def)

lemma apply_value_frame [simp, frame_simps]:
  "route_nSegments (apply_value model i v) = route_nSegments model"
  "guidance_route_nSegments (apply_value model i v) = guidance_route_nSegments model"
  "route_waypoints (apply_value model i v) = route_waypoints model"
  "guidance_route_waypoints (apply_value model i v) = guidance_route_waypoints model"
  "currentWaypoint (apply_value model i v) = currentWaypoint model"
  "guidance_currentWaypoint (apply_value model i v) = guidance_currentWaypoint model"
  "guidance_activeWaypoint (apply_value model i v) = guidance_activeWaypoint model"
  "previous_guidance_currentWaypoint (apply_value model i v) = previous_guidance_currentWaypoint model"
  "guidance_segmentEndIndex (apply_value model i v) = guidance_segmentEndIndex model"
  by (simp_all add: apply_value_def)

end
