(* ===== verification/Route.thy ===== *)
theory Route
  imports Parameters
begin

text \<open>
  \<open>apply_route\<close> of \<open>src/runtime_control.c\<close>: the write of a whole route to the controller.
  The lemmas give the rows of both copies of the waypoints (rows past the last segment
  repeat its end point), and show that every copy of the active leg is on the new route.

  \<open>CLAMP\<close> and \<open>MIN\<close> are the macros of \<open>tests/runtime_control/include/zephyr/sys/util.h\<close>;
  Zephyr's own \<open>CLAMP\<close> gives the same whenever the bounds are in order, which they are for
  the 1 to 6 segments a mission has.
\<close>

definition MIN_macro :: "i32 \<Rightarrow> i32 \<Rightarrow> i32" where
  "MIN_macro a b = (if slt a b then a else b)"

definition CLAMP :: "i32 \<Rightarrow> i32 \<Rightarrow> i32 \<Rightarrow> i32" where
  "CLAMP value lo hi = MIN_macro hi (if slt value lo then lo else value)"

section \<open>The operation\<close>

definition route_cell ::
  "(nat \<Rightarrow> nat \<Rightarrow> f64) \<Rightarrow> u32 \<Rightarrow> nat \<Rightarrow> nat \<Rightarrow> 'z outer_loop_scheme \<Rightarrow> 'z outer_loop_scheme" where
  "route_cell waypoints segments row column model =
     (let source_row = min row (unat segments);
          v = waypoints source_row column
      in model
        \<lparr>route_waypoints := (route_waypoints model)(row := (route_waypoints model row)(column := v)),
         guidance_route_waypoints :=
           (guidance_route_waypoints model)(row := (guidance_route_waypoints model row)(column := v))\<rparr>)"

definition apply_route ::
  "'z outer_loop_scheme \<Rightarrow> (nat \<Rightarrow> nat \<Rightarrow> f64) \<Rightarrow> u32 \<Rightarrow> 'z outer_loop_scheme" where
  "apply_route model waypoints segments =
     (let active_leg = CLAMP (currentWaypoint model) 1 segments;
          model = model\<lparr>route_nSegments := segments, guidance_route_nSegments := segments\<rparr>;
          model = fold (\<lambda>row. fold (route_cell waypoints segments row) [0..<3]) [0..<MAX_POINTS] model
      in model
        \<lparr>currentWaypoint := active_leg,
         guidance_currentWaypoint := active_leg,
         guidance_activeWaypoint := active_leg,
         previous_guidance_currentWaypoint := active_leg,
         guidance_segmentEndIndex := active_leg + 1\<rparr>)"

section \<open>The rows\<close>

text \<open>What the whole loop leaves in a cell of either copy.\<close>

definition routed :: "(nat \<Rightarrow> nat \<Rightarrow> f64) \<Rightarrow> u32 \<Rightarrow> (nat \<Rightarrow> nat \<Rightarrow> f64) \<Rightarrow> nat \<Rightarrow> nat \<Rightarrow> f64" where
  "routed waypoints segments old row column =
     (if row < MAX_POINTS \<and> column < 3 then waypoints (min row (unat segments)) column
      else old row column)"

lemma route_cells:
  "fold (route_cell w n row) cs model = model
     \<lparr>route_waypoints := (\<lambda>r c. if r = row \<and> c \<in> set cs then w (min r (unat n)) c
        else route_waypoints model r c),
      guidance_route_waypoints := (\<lambda>r c. if r = row \<and> c \<in> set cs then w (min r (unat n)) c
        else guidance_route_waypoints model r c)\<rparr>"
  by (induction cs arbitrary: model)
     (simp, simp add: route_cell_def Let_def, rule outer_loop.equality, auto simp: fun_eq_iff)

lemma route_rows:
  "fold (\<lambda>row. fold (route_cell w n row) cs) rs model = model
     \<lparr>route_waypoints := (\<lambda>r c. if r \<in> set rs \<and> c \<in> set cs then w (min r (unat n)) c
        else route_waypoints model r c),
      guidance_route_waypoints := (\<lambda>r c. if r \<in> set rs \<and> c \<in> set cs then w (min r (unat n)) c
        else guidance_route_waypoints model r c)\<rparr>"
  by (induction rs arbitrary: model)
     (simp, simp add: route_cells, rule outer_loop.equality, auto simp: fun_eq_iff)

text \<open>The loops, and the operation with them, as one update.\<close>

lemma apply_route_eq:
  "apply_route model w n = model
     \<lparr>route_nSegments := n, guidance_route_nSegments := n,
      route_waypoints := routed w n (route_waypoints model),
      guidance_route_waypoints := routed w n (guidance_route_waypoints model),
      currentWaypoint := CLAMP (currentWaypoint model) 1 n,
      guidance_currentWaypoint := CLAMP (currentWaypoint model) 1 n,
      guidance_activeWaypoint := CLAMP (currentWaypoint model) 1 n,
      previous_guidance_currentWaypoint := CLAMP (currentWaypoint model) 1 n,
      guidance_segmentEndIndex := CLAMP (currentWaypoint model) 1 n + 1\<rparr>"
  unfolding apply_route_def Let_def route_rows
  by (auto simp: routed_def fun_eq_iff intro!: outer_loop.equality)

section \<open>The active leg\<close>

lemma clamp_range: "slt 0 hi \<Longrightarrow> 1 \<le> sint (CLAMP v 1 hi) \<and> sint (CLAMP v 1 hi) \<le> sint hi"
  by (auto simp: CLAMP_def MIN_macro_def slt_def)

lemma clamp_id: "sle 1 v \<Longrightarrow> sle v hi \<Longrightarrow> CLAMP v 1 hi = v"
  by (auto simp: CLAMP_def MIN_macro_def slt_def sle_def signed_word_eqI)

text \<open>
  The controller's state is on its route: it has 1 to 6 segments, the two copies of the
  route agree, and every copy of the active leg is the same leg of the route, with its end
  point inside the waypoint array.
\<close>

definition on_route :: "'z outer_loop_scheme \<Rightarrow> bool" where
  "on_route model \<longleftrightarrow>
     guidance_route_nSegments model = route_nSegments model \<and>
     1 \<le> sint (currentWaypoint model) \<and>
     sint (currentWaypoint model) \<le> sint (route_nSegments model) \<and>
     sint (route_nSegments model) \<le> int MAX_SEGMENTS \<and>
     guidance_currentWaypoint model = currentWaypoint model \<and>
     guidance_activeWaypoint model = currentWaypoint model \<and>
     previous_guidance_currentWaypoint model = currentWaypoint model \<and>
     sint (guidance_segmentEndIndex model) = sint (currentWaypoint model) + 1 \<and>
     list_all (\<lambda>r. list_all (\<lambda>c. guidance_route_waypoints model r c = route_waypoints model r c)
       [0..<3]) [0..<MAX_POINTS]"

lemma sint_segments:
  fixes n :: u32
  assumes "unat n \<le> 6"
  shows "sint n = int (unat n)"
  using sint_small_nat [of "unat n"] assms by simp

lemma sint_succ:
  fixes a :: i32
  assumes "1 \<le> sint a" "sint a \<le> 6"
  shows "sint (a + 1) = sint a + 1"
proof -
  have "sint (a + 1) = signed_take_bit 31 (sint a + 1)" by (simp add: sint_word_ariths)
  then show ?thesis using assms by (simp add: signed_take_bit_int_eq_self)
qed

lemma on_route_applied:
  assumes "1 \<le> unat segments" and "unat segments \<le> MAX_SEGMENTS"
  shows "on_route (apply_route model waypoints segments)"
proof -
  have n: "sint segments = int (unat segments)" using sint_segments assms(2) by simp
  have n6: "sint segments \<le> 6" using n assms(2) unfolding max_points by linarith
  let ?leg = "CLAMP (currentWaypoint model) 1 segments"
  have leg: "1 \<le> sint ?leg" "sint ?leg \<le> sint segments"
    using clamp_range [of segments "currentWaypoint model"] n assms(1)
    unfolding slt_def by (simp_all only: sint_0 of_nat_0_less_iff)
  moreover have "sint (?leg + 1) = sint ?leg + 1"
    using leg n6 by (intro sint_succ) simp_all
  ultimately show ?thesis
    using n6 by (simp add: on_route_def apply_route_eq routed_def list_all_iff)
qed

text \<open>C28 After a route is applied, every copy of the active leg is on it, whatever leg was active.\<close>

theorem apply_route_on_route:
  assumes "1 \<le> unat segments" and "unat segments \<le> MAX_SEGMENTS"
  shows "on_route (apply_route model waypoints segments)"
  using assms by (rule on_route_applied)

theorem apply_route_on_route_witness:
  "on_route (apply_route (undefined\<lparr>currentWaypoint := 5\<rparr> :: outer_loop) (\<lambda>r c. 0) 2)"
  by (rule apply_route_on_route) simp_all

text \<open>A leg that is valid on the new route stays the active one.\<close>

lemma apply_route_keeps_leg:
  "sle 1 (currentWaypoint model) \<Longrightarrow> sle (currentWaypoint model) n \<Longrightarrow>
   currentWaypoint (apply_route model w n) = currentWaypoint model"
  by (simp add: apply_route_eq clamp_id)

text \<open>Both copies of the waypoints hold the mission; rows past its end repeat the last point.\<close>

theorem apply_route_rows:
  assumes "row < MAX_POINTS" and "column < 3"
  shows "route_waypoints (apply_route model waypoints segments) row column =
           waypoints (min row (unat segments)) column \<and>
    guidance_route_waypoints (apply_route model waypoints segments) row column =
           waypoints (min row (unat segments)) column"
  using assms by (simp_all add: apply_route_eq routed_def)

text \<open>Nothing outside the route is written.\<close>

lemma apply_route_frame [simp, frame_simps]:
  "leaf (apply_route model w n) = leaf model"
  "outer_loop.more (apply_route model w n) = outer_loop.more model"
  "position_m (apply_route model w n) = position_m model"
  by (simp_all add: apply_route_eq)

text \<open>A second application of the same mission changes nothing.\<close>

lemma clamp_clamp: "slt 0 hi \<Longrightarrow> CLAMP (CLAMP v 1 hi) 1 hi = CLAMP v 1 hi"
  using clamp_range [of hi v] by (intro clamp_id) (simp_all add: sle_def)

lemma apply_route_idem:
  assumes "1 \<le> unat n" "unat n \<le> 6"
  shows "apply_route (apply_route model w n) w n = apply_route model w n"
proof -
  have "slt 0 n" using assms sint_segments [of n] unfolding slt_def
    by (simp only: sint_0 of_nat_0_less_iff)
  then show ?thesis
    by (auto simp: apply_route_eq routed_def clamp_clamp fun_eq_iff intro!: outer_loop.equality)
qed

end
