(* ===== verification/Float_Facts.thy ===== *)
theory Float_Facts
  imports Float_Ops
begin

text \<open>
  When the floating-point operations yield NaN, what the order of two patterns says of
  their values, and when a cast to an integer is defined: the facts behind the bounds of
  the controller's outputs and of the telemetry.
\<close>

section \<open>NaN and signs\<close>

definition nan32 :: "f32 \<Rightarrow> bool" where
  "nan32 x \<longleftrightarrow> f32_unpack x = NaN"

definition nan64 :: "f64 \<Rightarrow> bool" where
  "nan64 x \<longleftrightarrow> f64_unpack x = NaN"

text \<open>An unpacked number: not NaN, with a significand that is not negative; and its sign.\<close>

fun fp_number :: "fp \<Rightarrow> bool" where
  "fp_number NaN = False"
| "fp_number (Inf s) = True"
| "fp_number (Fin s m e) = (0 \<le> m)"

fun fp_sign :: "fp \<Rightarrow> bool" where
  "fp_sign NaN = False"
| "fp_sign (Inf s) = s"
| "fp_sign (Fin s m e) = s"

lemma fp_unpack_number: "fp_unpack mb eb b \<noteq> NaN \<longleftrightarrow> fp_number (fp_unpack mb eb b)"
  by (auto simp: fp_unpack_def Let_def)

lemma number32: "\<not> nan32 x \<longleftrightarrow> fp_number (f32_unpack x)"
  by (simp add: nan32_def f32_unpack_def fp_unpack_number)

lemma number64: "\<not> nan64 x \<longleftrightarrow> fp_number (f64_unpack x)"
  by (simp add: nan64_def f64_unpack_def fp_unpack_number)

lemma isfinite32_iff: "isfinite32 x \<longleftrightarrow> (\<exists>s m e. f32_unpack x = Fin s m e)"
  by (auto simp: isfinite32_def elim: fp_finite.elims)

lemma finite_not_nan [intro]: "isfinite32 x \<Longrightarrow> \<not> nan32 x" "isfinite64 y \<Longrightarrow> \<not> nan64 y"
  by (auto simp: isfinite32_def isfinite64_def nan32_def nan64_def)

lemma fp_round_range:
  assumes "0 \<le> m"
  shows "0 \<le> fp_round mb eb m e \<and> fp_round mb eb m e \<le> fp_inf_bits mb eb"
proof -
  have "0 \<le> fp_inf_bits mb eb" by (simp add: fp_inf_bits_def)
  moreover have "0 \<le> round_shift m k" for k
    using assms by (simp add: round_shift_def Let_def pos_imp_zdiv_nonneg_iff)
  ultimately show ?thesis using assms by (simp add: fp_round_def Let_def)
qed

lemma fp_unpack_packed:
  assumes "0 \<le> b" "b \<le> fp_inf_bits mb eb"
  shows "fp_unpack mb eb (of_bool s * 2 ^ (mb + eb) + b) \<noteq> NaN"
    and "fp_sign (fp_unpack mb eb (of_bool s * 2 ^ (mb + eb) + b)) = s"
proof -
  let ?b = "of_bool s * 2 ^ (mb + eb) + b"
  have "fp_inf_bits mb eb = 2 ^ (mb + eb) - 2 ^ mb"
    by (simp add: fp_inf_bits_def power_add algebra_simps)
  moreover have "(0 :: int) < 2 ^ mb" by simp
  ultimately have lt: "b < 2 ^ (mb + eb)" using assms(2) by linarith
  have sgn: "?b div 2 ^ (mb + eb) = of_bool s" using assms(1) lt by simp
  have b': "?b = (of_bool s * 2 ^ eb) * 2 ^ mb + b" by (simp add: power_add)
  have md: "?b mod 2 ^ mb = b mod 2 ^ mb" unfolding b' by simp
  have dv: "?b div 2 ^ mb = of_bool s * 2 ^ eb + b div 2 ^ mb" unfolding b' by simp
  have "b < 2 ^ eb * 2 ^ mb" using lt by (simp add: power_add mult.commute)
  moreover have "b div 2 ^ mb * 2 ^ mb \<le> b"
    using div_mult_mod_eq [of b "2 ^ mb"] pos_mod_sign [of "2 ^ mb" b, OF zero_less_power [OF zero_less_numeral]]
    by linarith
  ultimately have "b div 2 ^ mb * 2 ^ mb < 2 ^ eb * 2 ^ mb" by (rule le_less_trans [rotated])
  then have "b div 2 ^ mb < 2 ^ eb" by simp
  moreover have "0 \<le> b div 2 ^ mb" using assms(1) by (simp add: pos_imp_zdiv_nonneg_iff)
  ultimately have ex: "(?b div 2 ^ mb) mod 2 ^ eb = b div 2 ^ mb" unfolding dv by simp
  have fr: "b mod 2 ^ mb = 0" if "b div 2 ^ mb = 2 ^ eb - 1"
  proof -
    have "b = (b div 2 ^ mb) * 2 ^ mb + b mod 2 ^ mb" by (rule div_mult_mod_eq [symmetric])
    moreover have "0 \<le> b mod 2 ^ mb" by simp
    ultimately show ?thesis using assms(2) unfolding that fp_inf_bits_def by linarith
  qed
  show "fp_unpack mb eb ?b \<noteq> NaN"
    by (simp only: fp_unpack_def md ex sgn Let_def) (use fr in simp)
  show "fp_sign (fp_unpack mb eb ?b) = s"
    by (simp only: fp_unpack_def md ex sgn Let_def) (use fr in simp)
qed

text \<open>Packing keeps a number a number, with its sign.\<close>

lemma pack_word:
  assumes "0 \<le> b" "b \<le> fp_inf_bits mb eb" and "LENGTH('a::len) = Suc (mb + eb)"
  shows "uint (word_of_int (of_bool s * 2 ^ (mb + eb) + b) :: 'a word) = of_bool s * 2 ^ (mb + eb) + b"
proof -
  have "fp_inf_bits mb eb \<le> 2 ^ (mb + eb)"
    by (simp add: fp_inf_bits_def power_add algebra_simps)
  moreover have "fp_inf_bits mb eb \<noteq> 2 ^ (mb + eb)"
    by (simp add: fp_inf_bits_def power_add algebra_simps)
  ultimately have "b < 2 ^ (mb + eb)" using assms(2) by linarith
  moreover have "(2 :: int) ^ (mb + eb) \<le> 2 * 2 ^ (mb + eb)" by simp
  ultimately have "of_bool s * 2 ^ (mb + eb) + b < 2 ^ Suc (mb + eb)"
    by (cases s) (simp, simp only: of_bool_eq mult_zero_left add_0 power_Suc less_le_trans)
  moreover have "0 \<le> of_bool s * 2 ^ (mb + eb) + b" using assms(1) by simp
  ultimately show ?thesis
    by (simp only: uint_word_of_int assms(3) mod_pos_pos_trivial)
qed

lemma fp_pack_number:
  assumes "fp_number x"
  obtains b where "fp_pack mb eb x = of_bool (fp_sign x) * 2 ^ (mb + eb) + b"
    "0 \<le> b" "b \<le> fp_inf_bits mb eb"
proof (cases x)
  case (Inf s)
  then show thesis using that [of "fp_inf_bits mb eb"] by (simp add: fp_pack_def fp_inf_bits_def)
next
  case (Fin s m e)
  then show thesis using that [of "fp_round mb eb m e"] fp_round_range [of m mb eb e] assms
    by (simp add: fp_pack_def)
qed (use assms in simp)

lemma f32_pack_number:
  assumes "fp_number x"
  shows "\<not> nan32 (f32_pack x)" and "fp_sign (f32_unpack (f32_pack x)) = fp_sign x"
proof -
  from fp_pack_number [OF assms, of 23 8] obtain b where
    b: "fp_pack 23 8 x = of_bool (fp_sign x) * 2 ^ (23 + 8) + b" "0 \<le> b" "b \<le> fp_inf_bits 23 8" .
  have "f32_unpack (f32_pack x) = fp_unpack 23 8 (of_bool (fp_sign x) * 2 ^ (23 + 8) + b)"
    by (simp only: f32_unpack_def f32_pack_def b(1) pack_word [OF b(2,3), where 'a = 32, simplified])
       (use pack_word [OF b(2,3), where 'a = 32] in simp)
  then show "\<not> nan32 (f32_pack x)" and "fp_sign (f32_unpack (f32_pack x)) = fp_sign x"
    using fp_unpack_packed [OF b(2,3)] by (simp_all only: nan32_def not_False_eq_True simp_thms)
qed

lemma f64_pack_number:
  assumes "fp_number x"
  shows "\<not> nan64 (f64_pack x)"
proof -
  from fp_pack_number [OF assms, of 52 11] obtain b where
    b: "fp_pack 52 11 x = of_bool (fp_sign x) * 2 ^ (52 + 11) + b" "0 \<le> b" "b \<le> fp_inf_bits 52 11" .
  have "f64_unpack (f64_pack x) = fp_unpack 52 11 (of_bool (fp_sign x) * 2 ^ (52 + 11) + b)"
    unfolding f64_unpack_def f64_pack_def b(1)
    by (rule arg_cong [OF pack_word [OF b(2,3)]]) simp
  then show ?thesis
    using fp_unpack_packed [OF b(2,3)] by (simp only: nan64_def not_False_eq_True simp_thms)
qed

section \<open>Which operations yield NaN\<close>

lemma f32_of_f64_number [intro]: "\<not> nan64 x \<Longrightarrow> \<not> nan32 (f32_of_f64 x)"
  unfolding f32_of_f64_def by (rule f32_pack_number(1)) (simp flip: number64)

lemma f64_of_f32_number [intro]: "\<not> nan32 x \<Longrightarrow> \<not> nan64 (f64_of_f32 x)"
  unfolding f64_of_f32_def by (rule f64_pack_number) (simp flip: number32)

text \<open>A product with a finite factor that is not zero, and a difference with a finite one.\<close>

lemma fp_mul_number: "fp_number x \<Longrightarrow> 0 < n \<Longrightarrow> fp_number (fp_mul x (Fin t n f))"
  by (cases x) auto

lemma fp_add_number: "fp_number x \<Longrightarrow> fp_number (fp_add x (Fin t n f))"
  by (cases x) (auto simp: Let_def)

lemma f64_mul_number [intro]:
  "\<not> nan64 x \<Longrightarrow> f64_unpack c = Fin t n f \<Longrightarrow> 0 < n \<Longrightarrow> \<not> nan64 (f64_mul x c)"
  unfolding f64_mul_def by (rule f64_pack_number) (simp add: fp_mul_number flip: number64)

lemma f32_mul_number [intro]:
  "\<not> nan32 x \<Longrightarrow> f32_unpack c = Fin t n f \<Longrightarrow> 0 < n \<Longrightarrow> \<not> nan32 (f32_mul c x)"
  unfolding f32_mul_def
  by (rule f32_pack_number(1), cases "f32_unpack x") (auto simp: number32)

lemma f32_sub_number [intro]: "\<not> nan32 x \<Longrightarrow> isfinite32 y \<Longrightarrow> \<not> nan32 (f32_sub x y)"
  unfolding f32_sub_def
  by (rule f32_pack_number(1)) (auto simp: isfinite32_iff fp_add_number simp flip: number32)

text \<open>The length of a vector.\<close>

lemma fp_square: "fp_number x \<Longrightarrow> fp_number (fp_mul x x) \<and> \<not> fp_sign (fp_mul x x)"
  by (cases x) auto

lemma fp_add_positive:
  "fp_number x \<Longrightarrow> \<not> fp_sign x \<Longrightarrow> fp_number y \<Longrightarrow> \<not> fp_sign y \<Longrightarrow>
   fp_number (fp_add x y) \<and> \<not> fp_sign (fp_add x y)"
  by (cases x; cases y) (auto simp: Let_def signed_at_def not_less)

lemma fp_sqrt_number: "fp_number x \<Longrightarrow> \<not> fp_sign x \<Longrightarrow> fp_number (fp_sqrt x)"
  using isqrt_sound by (cases x) (auto simp: fp_sqrt_def Let_def)

lemma length_number:
  assumes "\<not> nan32 x" "\<not> nan32 y"
  shows "\<not> nan32 (sqrtf (f32_add (f32_mul x x) (f32_mul y y)))"
proof -
  have sq: "\<not> nan32 (f32_mul z z) \<and> \<not> fp_sign (f32_unpack (f32_mul z z))" if "\<not> nan32 z" for z
    using that fp_square [of "f32_unpack z"] f32_pack_number [of "fp_mul (f32_unpack z) (f32_unpack z)"]
    by (simp add: f32_mul_def number32)
  let ?s = "fp_add (f32_unpack (f32_mul x x)) (f32_unpack (f32_mul y y))"
  have "fp_number ?s \<and> \<not> fp_sign ?s"
    using sq [OF assms(1)] sq [OF assms(2)] by (intro fp_add_positive) (simp_all add: number32)
  from this f32_pack_number [of ?s] show ?thesis unfolding sqrtf_def
    by (intro f32_pack_number(1) fp_sqrt_number) (simp_all add: f32_add_def number32)
qed

section \<open>Order and casts\<close>

lemma fp_less_real: "fp_less (Fin s m e) (Fin t n f) \<longleftrightarrow> fp_real (Fin s m e) < fp_real (Fin t n f)"
proof -
  let ?g = "min e f"
  have "fp_less (Fin s m e) (Fin t n f) \<longleftrightarrow>
      real_of_int (signed_at ?g s m e) * 2 powi ?g < of_int (signed_at ?g t n f) * 2 powi ?g"
    by (simp add: Let_def)
  then show ?thesis by (simp only: signed_at_real min.cobounded1 min.cobounded2)
qed

lemma fp_trunc_between:
  assumes "of_int lo \<le> fp_real (Fin s m e)" "fp_real (Fin s m e) \<le> of_int hi"
  obtains v where "fp_trunc (Fin s m e) = Some v" "lo \<le> v" "v \<le> hi"
proof -
  define y where "y = of_int m * (2 :: real) powi e"
  define a where "a = (if 0 \<le> e then m * 2 ^ nat e else m div 2 ^ nat (- e))"
  have "a = \<lfloor>y\<rfloor>"
  proof (cases "0 \<le> e")
    case True
    then have "y = of_int (m * 2 ^ nat e)" by (simp add: y_def power_int_def)
    with True show ?thesis by (simp only: a_def if_True floor_of_int)
  next
    case False
    have "(2 :: real) powi e = 1 / 2 ^ nat (- e)"
      using False by (simp add: power_int_def power_one_over inverse_eq_divide)
    then have "y = of_int m / of_int (2 ^ nat (- e))" by (simp add: y_def)
    with False show ?thesis by (simp only: a_def if_False floor_divide_of_int_eq)
  qed
  moreover have "of_int lo \<le> (if s then - y else y)" "(if s then - y else y) \<le> of_int hi"
    using assms by (auto simp: y_def)
  ultimately have "lo \<le> (if s then - 1 else 1) * a \<and> (if s then - 1 else 1) * a \<le> hi"
    by (cases s) (simp_all, linarith+)
  then show thesis using that by (simp add: a_def)
qed

lemma fp_leq_Fin: "fp_leq (Fin s m e) x \<Longrightarrow> fp_leq x (Fin t n f) \<Longrightarrow> \<exists>u k g. x = Fin u k g"
  by (cases x) auto

text \<open>A pattern between two integral patterns casts to an integer between them.\<close>

lemma cast_between:
  assumes "f32_le l x" "f32_le x h"
    and "f32_unpack l = Fin s m e" "f32_unpack h = Fin s' m' e'"
    and "fp_real (Fin s m e) = of_int lo" "fp_real (Fin s' m' e') = of_int hi"
    and "tlo \<le> lo" "hi \<le> thi"
  obtains v where "cast_to tlo thi (f32_unpack x) = Some v" "lo \<le> v" "v \<le> hi"
proof -
  have "\<not> nan32 x" using assms(1) by (cases "f32_unpack l") (auto simp: f32_le_def nan32_def)
  then have "fp_number (f32_unpack x)" by (simp add: number32)
  with assms(1-4) obtain t n f where x: "f32_unpack x = Fin t n f"
    using fp_leq_Fin [of s m e "f32_unpack x" s' m' e'] by (auto simp: f32_le_def simp del: fp_leq.simps)
  have "of_int lo \<le> fp_real (Fin t n f)" "fp_real (Fin t n f) \<le> of_int hi"
    using assms(1,2) unfolding f32_le_def assms(3,4) x
    by (simp_all del: fp_less.simps fp_real.simps add: fp_less_real assms(5,6) not_less)
  from fp_trunc_between [OF this] obtain v where
    "fp_trunc (Fin t n f) = Some v" "lo \<le> v" "v \<le> hi" .
  then show thesis using that assms(7,8) by (simp add: cast_to_def x del: fp_trunc.simps)
qed

end
