(* ===== verification/Realtime_Telemetry.thy ===== *)
theory Realtime_Telemetry
  imports Realtime_State Route Float_Facts
begin

text \<open>
  The telemetry of \<open>src/main_realtime.c\<close>: the progress of the mission, the broadcast of its
  items, the navigation target and the state of the vehicle. Every function returns the
  context and the messages it publishes, in order. A read past the waypoint array or a cast
  that C leaves undefined is \<open>None\<close>. The facts: on a route nothing is undefined and the
  target is the end of the active leg, and the broadcast goes round all items of the mission.
\<close>

section \<open>Mission\<close>

text \<open>A row of the route as three floats.\<close>

definition waypoint_vec :: "'z outer_loop_scheme \<Rightarrow> nat \<Rightarrow> vec3f option" where
  "waypoint_vec model row =
     (if row < MAX_POINTS then
        Some \<lparr>vec_x = f32_of_f64 (route_waypoints model row 0),
              vec_y = f32_of_f64 (route_waypoints model row 1),
              vec_z = f32_of_f64 (route_waypoints model row 2)\<rparr>
      else None)"

definition mission_total :: "'z outer_loop_scheme \<Rightarrow> u16" where
  "mission_total model = ucast (route_nSegments model)"

definition mission_current_seq :: "'z outer_loop_scheme \<Rightarrow> u16" where
  "mission_current_seq model =
     (let total = mission_total model;
          current_seq = (if sle 1 (currentWaypoint model) then ucast (currentWaypoint model) - 1 else 0)
      in if 0 < total \<and> total \<le> current_seq then total - 1 else current_seq)"

definition broadcast_item ::
  "flag_values \<Rightarrow> 'z outer_loop_scheme \<Rightarrow> u64 \<Rightarrow> 'p control_context \<Rightarrow>
   ('p control_context \<times> 'p publication list) option" where
  "broadcast_item fl model now_us ctx =
     (let total = mission_total model in
      if 0 < mission_broadcast_countdown ctx then
        Some (ctx\<lparr>mission_broadcast_countdown := mission_broadcast_countdown ctx - 1\<rparr>, [])
      else
        let ctx = ctx\<lparr>mission_broadcast_countdown := CUBS2_MISSION_BROADCAST_PERIOD - 1\<rparr> in
        if total = 0 then Some (ctx, [])
        else
          let ctx = (if total \<le> mission_broadcast_seq ctx then ctx\<lparr>mission_broadcast_seq := 0\<rparr> else ctx);
              seq = mission_broadcast_seq ctx
          in do {
            waypoint \<leftarrow> waypoint_vec model (unat seq + 1);
            let segment_flags = (if seq = 0 then segment_flag_start fl else 0);
            let segment_flags = (if unat seq + 1 = unat total then segment_flags OR segment_flag_final fl
              else segment_flags);
            let segment = \<lparr>traj_timestamp_us = now_us, traj_p0 = waypoint, traj_p1 = waypoint,
              traj_p2 = waypoint, traj_p3 = waypoint, traj_id = CUBS2_MISSION_ID,
              traj_segment_seq = seq, traj_plan_version = CUBS2_MISSION_ID,
              traj_flags = segment_flags, traj_type = Bezier, traj_degree = Cubic,
              traj_frame = LocalEnu\<rparr>;
            let ctx = ctx\<lparr>ctx_trajectory_segment := segment, mission_broadcast_seq := seq + 1\<rparr>;
            Some (ctx, [Pub_trajectory_segment segment])
          })"

definition update_mission_telemetry ::
  "flag_values \<Rightarrow> 'z outer_loop_scheme \<Rightarrow> u64 \<Rightarrow> bool \<Rightarrow> 'p control_context \<Rightarrow>
   ('p control_context \<times> 'p publication list) option" where
  "update_mission_telemetry fl model now_us auto_mode ctx = do {
     let seq = mission_current_seq model;
     let progress = \<lparr>progress_timestamp_us = now_us, progress_mission_id = CUBS2_MISSION_ID,
           current_seq = seq, total = mission_total model,
           mission_state = (if auto_mode \<and> mocap_valid (ctx_mocap ctx) then Mission_Active else Mission_Idle)\<rparr>;
     target \<leftarrow> waypoint_vec model (unat seq + 1);
     let command = \<lparr>position_timestamp_us = now_us, position_enu_m = target,
           yaw_rad = f32_of_f64 (desiredHeading model),
           type_mask = ignore_velocity_x fl OR ignore_velocity_y fl OR ignore_velocity_z fl OR
             ignore_acceleration_x fl OR ignore_acceleration_y fl OR ignore_acceleration_z fl,
           coordinate_frame = LocalEnu\<rparr>;
     let ctx = ctx\<lparr>ctx_mission_progress := progress, ctx_local_position_command := command\<rparr>;
     (ctx, pubs) \<leftarrow> broadcast_item fl model now_us ctx;
     Some (ctx, [Pub_mission_progress progress, Pub_local_position_command command] @ pubs)
   }"

section \<open>Navigation target\<close>

text \<open>The constants are 18000/pi and the ends of the range, 18000 and 65535.\<close>

definition cdeg_from_rad :: "'p csyn \<Rightarrow> f64 \<Rightarrow> u16 option" where
  "cdeg_from_rad cs angle_rad =
     i16_of_f32 (csyn_clampf cs (f32_of_f64 (f64_mul angle_rad 0x40B66193F49DEF8A)) 0xC68CA000 0x468CA000)"

definition update_navigation_target ::
  "'p csyn \<Rightarrow> 'z outer_loop_scheme \<Rightarrow> u64 \<Rightarrow> bool \<Rightarrow> 'p control_context \<Rightarrow> 'p control_context option" where
  "update_navigation_target cs model now_us auto_mode ctx = do {
     let wp = currentWaypoint model;
     (target_east, target_north) \<leftarrow>
       (if sle 1 wp \<and> sle wp (route_nSegments model) then
          if unat wp < MAX_POINTS then Some (route_waypoints model (unat wp) 0, route_waypoints model (unat wp) 1)
          else None
        else Some (0, 0));
     (distance, target_yaw) \<leftarrow>
       (if mocap_valid (ctx_mocap ctx) then do {
          let d_east = f32_sub (f32_of_f64 target_east) (mocap_x (ctx_mocap ctx));
          let d_north = f32_sub (f32_of_f64 target_north) (mocap_y (ctx_mocap ctx));
          let distance = sqrtf (f32_add (f32_mul d_east d_east) (f32_mul d_north d_north));
          yaw \<leftarrow> cdeg_from_rad cs (f64_of_f32 (atan2f cs d_north d_east));
          Some (distance, yaw)
        } else Some (0, 0));
     roll \<leftarrow> cdeg_from_rad cs (if auto_mode then rollCommand model else rollCommandPreview model);
     pitch \<leftarrow> cdeg_from_rad cs (if auto_mode then tecs_pitchCommand model else pitchCommandPreview model);
     yaw \<leftarrow> cdeg_from_rad cs (desiredHeading model);
     distance \<leftarrow> u16_of_f32 (csyn_clampf cs distance 0 0x477FFF00);
     Some (ctx\<lparr>ctx_navigation_target :=
       \<lparr>nav_timestamp_us = now_us,
        altitude_error_m = f32_of_f64 (guidance_altitudeError model),
        airspeed_error_m_s =
          f32_of_f64 (f64_sub (guidance_estimate_speed model) (estimator_estimate_speed model)),
        xtrack_error_m = f32_of_f64 (guidance_crossTrackError model),
        desired_roll_cdeg = roll, desired_pitch_cdeg = pitch, desired_yaw_cdeg = yaw,
        target_yaw_cdeg = target_yaw, distance_to_waypoint_m = distance\<rparr>\<rparr>)
   }"

section \<open>Vehicle state\<close>

text \<open>
  The messages that both loops fill alike: the attitude with its rates, the command, and
  the metrics of the loop.
\<close>

definition attitude_estimate_of ::
  "'p csyn \<Rightarrow> 'z outer_loop_scheme \<Rightarrow> u64 \<Rightarrow> u8 \<Rightarrow> attitude_estimate" where
  "attitude_estimate_of cs model now_us flags =
     \<lparr>estimate_timestamp_us = now_us, estimate_flags = flags,
      estimate_rates = \<lparr>vec_x = f32_of_f64 (eulerRateEstimate_rad_s model 0),
        vec_y = f32_of_f64 (eulerRateEstimate_rad_s model 1),
        vec_z = f32_of_f64 (eulerRateEstimate_rad_s model 2)\<rparr>,
      estimate_attitude = csyn_quatf_from_euler cs (f32_of_f64 (euler_rad model 0))
        (f32_of_f64 (euler_rad model 1)) (f32_of_f64 (euler_rad model 2))\<rparr>"

definition attitude_command_of :: "'p csyn \<Rightarrow> 'z outer_loop_scheme \<Rightarrow> u64 \<Rightarrow> attitude_command" where
  "attitude_command_of cs model now_us =
     \<lparr>command_timestamp_us = now_us,
      thrust = csyn_clampf cs (f32_of_f64 (throttle model)) 0 0x3F800000,
      command_attitude = csyn_quatf_from_euler cs (f32_of_f64 (rollCommand model)) 0
        (f32_of_f64 (desiredHeading model))\<rparr>"

definition vehicle_health_of :: "flag_values \<Rightarrow> manual_control \<Rightarrow> u64 \<Rightarrow> bool \<Rightarrow> bool \<Rightarrow> vehicle_health" where
  "vehicle_health_of fl manual now_us auto_mode failsafe =
     (let armed = armed_input manual;
          flags = (if armed then health_armed fl else 0);
          flags = (if failsafe then flags OR health_failsafe fl else flags)
      in \<lparr>health_timestamp_us = now_us, flight_mode = (if auto_mode then 1 else 0),
          link_quality_pct = (if manual_valid manual then 100 else 0), health_flags = flags\<rparr>)"

text \<open>\<open>uptime_ms\<close> is what the clock says when the age of the measurement is taken.\<close>

definition update_telemetry ::
  "'p csyn \<Rightarrow> config \<Rightarrow> flag_values \<Rightarrow> u64 \<Rightarrow> 'z outer_loop_scheme \<Rightarrow> bool \<Rightarrow> u64 \<Rightarrow>
   'p control_context \<Rightarrow> ('p control_context \<times> 'p publication list) option" where
  "update_telemetry cs cfg fl uptime_ms model auto_mode now_us ctx = do {
     let health = vehicle_health_of fl (ctx_manual ctx) now_us auto_mode
           (auto_mode \<and> (\<not> mocap_valid (ctx_mocap ctx) \<or> model_stale_failsafe_active model));
     let estimate = attitude_estimate_of cs model now_us
           (attitude_estimate_flags cfg fl uptime_ms model ctx);
     let command = attitude_command_of cs model now_us;
     let metrics = \<lparr>metrics_timestamp_us = now_us, period_us = of_nat CUBS2_CONTROL_PERIOD_US,
           latency_us = main_loop_us ctx\<rparr>;
     let ctx = ctx\<lparr>ctx_vehicle_health := health, ctx_attitude_estimate := estimate,
           ctx_attitude_command := command, ctx_control_loop_metrics := metrics\<rparr>;
     ctx \<leftarrow> update_navigation_target cs model now_us auto_mode ctx;
     let pubs = [Pub_vehicle_health health, Pub_attitude_estimate estimate,
           Pub_attitude_command command, Pub_control_loop_metrics metrics,
           Pub_navigation_target (ctx_navigation_target ctx)];
     (ctx, mission_pubs) \<leftarrow> update_mission_telemetry fl model now_us auto_mode ctx;
     Some (ctx, pubs @ mission_pubs)
   }"

text \<open>\<open>uptimes\<close> are the two readings of the clock: the timestamp and the age.\<close>

definition publish_outputs ::
  "'p csyn \<Rightarrow> config \<Rightarrow> flag_values \<Rightarrow> u64 \<times> u64 \<Rightarrow> 'z outer_loop_scheme \<Rightarrow> bool \<Rightarrow>
   'p control_context \<Rightarrow> ('p control_context \<times> 'p publication list) option" where
  "publish_outputs cs cfg fl uptimes model auto_mode ctx = do {
     let now_us = (if fastdyn cfg then odom_timestamp_us (ctx_odometry ctx) else fst uptimes * 1000);
     let ctx = ctx\<lparr>pwm_outputs := csyn_pwm_outputs_from_rc cs (control_rc ctx) now_us (pwm_outputs ctx)\<rparr>;
     let pwm = pwm_outputs ctx;
     (ctx, pubs) \<leftarrow> update_telemetry cs cfg fl (snd uptimes) model auto_mode now_us ctx;
     Some (ctx, Pub_pwm_signal_outputs pwm # pubs)
   }"

section \<open>On a route\<close>

lemma word_of_sint:
  fixes w :: "'a::len word"
  assumes "sint w = int k"
  shows "w = of_nat k"
proof -
  have "w = word_of_int (sint w)" by simp
  then show ?thesis by (simp only: assms of_int_of_nat_eq)
qed

text \<open>The leg and the number of segments of a controller on its route, as small numbers.\<close>

lemma on_route_numbers:
  assumes "on_route model"
  obtains c n where "currentWaypoint model = of_nat c" "route_nSegments model = of_nat n"
    "1 \<le> c" "c \<le> n" "n \<le> 6"
proof -
  let ?c = "nat (sint (currentWaypoint model))" and ?n = "nat (sint (route_nSegments model))"
  have r: "1 \<le> sint (currentWaypoint model)" "sint (currentWaypoint model) \<le> sint (route_nSegments model)"
    "sint (route_nSegments model) \<le> 6"
    using assms by (simp_all add: on_route_def)
  have "currentWaypoint model = of_nat ?c" "route_nSegments model = of_nat ?n"
    using r by (intro word_of_sint; linarith)+
  then show thesis using r by (intro that [of ?c ?n]) simp_all
qed

lemma sint_of_small: "k \<le> 6 \<Longrightarrow> sint (of_nat k :: i32) = int k"
  by (simp add: sint_small_nat)

lemma unat_of_small: "k \<le> 6 \<Longrightarrow> unat (of_nat k :: 'a::len word) = k" if "3 \<le> LENGTH('a)"
proof -
  assume "k \<le> 6"
  also have "(6 :: nat) < 2 ^ 3" by simp
  also have "(2 :: nat) ^ 3 \<le> 2 ^ LENGTH('a)" using that by (intro power_increasing) simp_all
  finally show "unat (of_nat k :: 'a word) = k" by (simp add: unat_of_nat take_bit_nat_eq_self)
qed

lemma ucast_of_small: "k \<le> 6 \<Longrightarrow> (ucast (of_nat k :: i32) :: u16) = of_nat k"
  by (simp add: unsigned_of_nat take_bit_nat_eq_self)

lemma mission_seq_on_route:
  assumes "currentWaypoint model = of_nat c" "route_nSegments model = of_nat n"
    "1 \<le> c" "c \<le> n" "n \<le> 6"
  shows "unat (mission_total model) = n" and "unat (mission_current_seq model) = c - 1"
proof -
  show t: "unat (mission_total model) = n"
    using assms by (simp add: mission_total_def ucast_of_small unat_of_small)
  have "(of_nat c :: u16) - 1 = of_nat (c - 1)" using assms by simp
  then have "(if sle 1 (currentWaypoint model) then ucast (currentWaypoint model) - 1 else 0) = (of_nat (c - 1) :: u16)"
    using assms by (simp add: sle_def sint_of_small ucast_of_small)
  then show "unat (mission_current_seq model) = c - 1"
    using assms t by (simp only: mission_current_seq_def Let_def word_le_nat_alt) (auto simp: unat_of_small simp del: of_nat_diff)
qed

section \<open>The progress of the mission\<close>

lemma broadcast_item_keeps:
  "broadcast_item fl model now_us ctx = Some (ctx', pubs) \<Longrightarrow>
     ctx_mission_progress ctx' = ctx_mission_progress ctx \<and>
     ctx_local_position_command ctx' = ctx_local_position_command ctx \<and>
     ctx_mocap ctx' = ctx_mocap ctx"
  by (auto simp: broadcast_item_def Let_def Option.bind_eq_Some_conv split: if_splits)

lemma broadcast_item_defined:
  assumes "unat (mission_total model) \<le> 6"
  shows "\<exists>ctx' pubs. broadcast_item fl model now_us ctx = Some (ctx', pubs)"
proof -
  have "unat seq + 1 < 7" if "\<not> mission_total model \<le> seq" for seq :: u16
    using that assms by (simp add: word_le_nat_alt)
  then show ?thesis by (auto simp: broadcast_item_def Let_def waypoint_vec_def)
qed

lemma update_mission_defined:
  assumes "on_route model"
  shows "\<exists>ctx' pubs. update_mission_telemetry fl model now_us auto_mode ctx = Some (ctx', pubs) \<and>
     int (unat (current_seq (ctx_mission_progress ctx'))) = sint (currentWaypoint model) - 1 \<and>
     int (unat (total (ctx_mission_progress ctx'))) = sint (route_nSegments model) \<and>
     current_seq (ctx_mission_progress ctx') < total (ctx_mission_progress ctx') \<and>
     waypoint_vec model (nat (sint (currentWaypoint model))) =
       Some (position_enu_m (ctx_local_position_command ctx')) \<and>
     (mission_state (ctx_mission_progress ctx') = Mission_Active \<longleftrightarrow> auto_mode \<and> mocap_valid (ctx_mocap ctx))"
proof -
  obtain c n where cn: "currentWaypoint model = of_nat c" "route_nSegments model = of_nat n"
    "1 \<le> c" "c \<le> n" "n \<le> 6" by (rule on_route_numbers [OF assms])
  note seq = mission_seq_on_route [OF cn]
  obtain p where p: "waypoint_vec model c = Some p" using cn by (simp add: waypoint_vec_def)
  have row: "unat (mission_current_seq model) + 1 = c" using seq(2) cn(3) by simp
  let ?progress = "\<lparr>progress_timestamp_us = now_us, progress_mission_id = CUBS2_MISSION_ID,
     current_seq = mission_current_seq model, total = mission_total model,
     mission_state = (if auto_mode \<and> mocap_valid (ctx_mocap ctx) then Mission_Active else Mission_Idle)\<rparr>"
  let ?command = "\<lparr>position_timestamp_us = now_us, position_enu_m = p,
     yaw_rad = f32_of_f64 (desiredHeading model),
     type_mask = ignore_velocity_x fl OR ignore_velocity_y fl OR ignore_velocity_z fl OR
       ignore_acceleration_x fl OR ignore_acceleration_y fl OR ignore_acceleration_z fl,
     coordinate_frame = LocalEnu\<rparr>"
  obtain ctx' pubs where b: "broadcast_item fl model now_us
      (ctx\<lparr>ctx_mission_progress := ?progress, ctx_local_position_command := ?command\<rparr>) = Some (ctx', pubs)"
    using broadcast_item_defined [of model] seq(1) cn(5) by metis
  have u: "update_mission_telemetry fl model now_us auto_mode ctx =
      Some (ctx', [Pub_mission_progress ?progress, Pub_local_position_command ?command] @ pubs)"
    unfolding update_mission_telemetry_def Let_def row p by (simp add: b)
  have k: "ctx_mission_progress ctx' = ?progress" "ctx_local_position_command ctx' = ?command"
    using broadcast_item_keeps [OF b] by simp_all
  have "sint (currentWaypoint model) = int c" "sint (route_nSegments model) = int n"
    using cn by (simp_all add: sint_of_small)
  with cn p seq show ?thesis by (intro exI [of _ ctx'] exI conjI) (auto simp: u k word_less_nat_alt)
qed

text \<open>
  C35 On a route the mission telemetry is always defined. It reports the active leg as its
  0-based item of all items, its position target is the end point of the active leg, and the
  mission is active exactly in automatic flight with a valid pose.
\<close>

theorem mission_telemetry_on_route:
  assumes "on_route model"
  shows "\<exists>ctx' pubs. update_mission_telemetry fl model now_us auto_mode ctx = Some (ctx', pubs) \<and>
     int (unat (current_seq (ctx_mission_progress ctx'))) = sint (currentWaypoint model) - 1 \<and>
     int (unat (total (ctx_mission_progress ctx'))) = sint (route_nSegments model) \<and>
     current_seq (ctx_mission_progress ctx') < total (ctx_mission_progress ctx') \<and>
     waypoint_vec model (nat (sint (currentWaypoint model))) =
       Some (position_enu_m (ctx_local_position_command ctx')) \<and>
     (mission_state (ctx_mission_progress ctx') = Mission_Active \<longleftrightarrow> auto_mode \<and> mocap_valid (ctx_mocap ctx))"
  by (rule update_mission_defined [OF assms])

section \<open>The broadcast\<close>

text \<open>The items that a sequence of cycles broadcasts, one list for each cycle.\<close>

fun broadcast_seqs :: "'p publication list \<Rightarrow> u16 list" where
  "broadcast_seqs [] = []"
| "broadcast_seqs (Pub_trajectory_segment s # pubs) = traj_segment_seq s # broadcast_seqs pubs"
| "broadcast_seqs (_ # pubs) = broadcast_seqs pubs"

fun mission_trace ::
  "flag_values \<Rightarrow> ('z outer_loop_scheme \<times> u64 \<times> bool) list \<Rightarrow> 'p control_context \<Rightarrow> u16 list list option" where
  "mission_trace fl [] ctx = Some []"
| "mission_trace fl ((model, now_us, auto_mode) # cycles) ctx = do {
     (ctx, pubs) \<leftarrow> update_mission_telemetry fl model now_us auto_mode ctx;
     rest \<leftarrow> mission_trace fl cycles ctx;
     Some (broadcast_seqs pubs # rest)
   }"

text \<open>The state of the broadcast before cycle \<open>k\<close>, when the mission has \<open>n\<close> items.\<close>

definition broadcast_at :: "nat \<Rightarrow> nat \<Rightarrow> 'p control_context \<Rightarrow> bool" where
  "broadcast_at n k ctx \<longleftrightarrow>
     unat (mission_broadcast_countdown ctx) = (10 - k mod 10) mod 10 \<and>
     unat (mission_broadcast_seq ctx) \<le> n \<and>
     unat (mission_broadcast_seq ctx) mod n = ((k + 9) div 10) mod n"

lemma countdown_step:
  assumes "k mod 10 \<noteq> (0 :: nat)"
  shows "(10 - Suc k mod 10) mod 10 = (10 - k mod 10) mod 10 - 1"
    and "(Suc k + 9) div 10 = (k + 9) div 10" and "0 < (10 - k mod 10) mod 10"
proof -
  define r where "r = k mod 10"
  have r: "0 < r" "r < 10" using assms by (simp_all add: r_def)
  have sr: "Suc k mod 10 = (if r = 9 then 0 else Suc r)" by (simp add: mod_Suc r_def)
  show "(10 - Suc k mod 10) mod 10 = (10 - k mod 10) mod 10 - 1" "0 < (10 - k mod 10) mod 10"
    unfolding sr r_def [symmetric] using r by simp_all
  have "(j + 9) div 10 = Suc (k div 10)" if "j = k \<or> j = Suc k" for j
  proof -
    have "10 * (k div 10) + r = k" by (simp add: r_def)
    then have "10 * Suc (k div 10) \<le> j + 9" "j + 9 < 10 * Suc (Suc (k div 10))"
      using that r by (elim disjE; simp)+
    then show ?thesis by (intro div_nat_eqI) (simp_all add: mult.commute)
  qed
  then show "(Suc k + 9) div 10 = (k + 9) div 10" by simp
qed

lemma broadcast_step_quiet:
  assumes "broadcast_at n k ctx" "k mod 10 \<noteq> 0"
  shows "\<exists>ctx'. broadcast_item fl model now_us ctx = Some (ctx', []) \<and> broadcast_at n (Suc k) ctx'"
proof -
  have "0 < unat (mission_broadcast_countdown ctx)"
    using assms countdown_step(3) by (simp add: broadcast_at_def)
  then have pos: "0 < mission_broadcast_countdown ctx" by (simp add: word_less_nat_alt)
  then have "unat (mission_broadcast_countdown ctx - 1) = unat (mission_broadcast_countdown ctx) - 1"
    by (simp add: unat_minus_one)
  then show ?thesis
    using assms pos countdown_step [OF assms(2)]
    by (simp add: broadcast_item_def Let_def broadcast_at_def del: One_nat_def)
qed

lemma unat_succ16: "unat x \<le> 6 \<Longrightarrow> unat (x + 1) = unat x + 1" for x :: u16
  by (simp add: unat_word_ariths)

lemma broadcast_step_item:
  assumes at: "broadcast_at n k ctx" and k: "k mod 10 = 0"
    and n: "unat (mission_total model) = n" "1 \<le> n" "n \<le> 6"
  shows "\<exists>ctx' s. broadcast_item fl model now_us ctx = Some (ctx', [Pub_trajectory_segment s]) \<and>
     traj_segment_seq s = of_nat ((k div 10) mod n) \<and> broadcast_at n (Suc k) ctx'"
proof -
  let ?total = "mission_total model" and ?seq = "mission_broadcast_seq ctx"
  define seq where "seq = (if ?total \<le> ?seq then 0 else ?seq)"
  have j: "(k + 9) div 10 = k div 10" "(Suc k + 9) div 10 = Suc (k div 10)" using k by (auto elim!: dvdE simp: mod_eq_0_iff_dvd)
  have u: "unat seq = (k div 10) mod n"
  proof (cases "?total \<le> ?seq")
    case True
    then have "unat ?seq = n" using at n(1) by (simp add: broadcast_at_def word_le_nat_alt)
    then show ?thesis using at True j(1) by (simp add: seq_def broadcast_at_def)
  next
    case False
    then have "unat ?seq < n" using n(1) by (simp add: word_le_nat_alt)
    then show ?thesis using at False j(1) by (simp add: seq_def broadcast_at_def)
  qed
  then have "unat seq < n" using n(2) by simp
  then have lt: "unat seq + 1 < 7" "unat (seq + 1) = unat seq + 1" using n(3) by (simp_all add: unat_succ16)
  have s: "seq = of_nat ((k div 10) mod n)" by (simp flip: u)
  have "?total \<noteq> 0" using n by auto
  moreover have "mission_broadcast_countdown ctx = 0"
    using at k by (simp add: broadcast_at_def unat_eq_0)
  moreover have "Suc k mod 10 = 1" using k by presburger
  moreover have "(unat seq + 1) mod n = Suc (k div 10) mod n" by (simp add: u mod_Suc_eq)
  ultimately show ?thesis
    using lt \<open>unat seq < n\<close> s j(2)
    by (cases "?total \<le> ?seq") (simp_all add: broadcast_item_def Let_def waypoint_vec_def broadcast_at_def
        CUBS2_MISSION_BROADCAST_PERIOD_def seq_def)
qed

lemma update_mission_split:
  assumes "waypoint_vec model (unat (mission_current_seq model) + 1) = Some p"
  obtains a b where "update_mission_telemetry fl model now_us auto_mode ctx =
    map_option (\<lambda>(ctx, pubs). (ctx, [Pub_mission_progress a, Pub_local_position_command b] @ pubs))
      (broadcast_item fl model now_us (ctx\<lparr>ctx_mission_progress := a, ctx_local_position_command := b\<rparr>))"
proof -
  have m: "map_option f x = x \<bind> (\<lambda>y. Some (f y))" for f :: "'x \<Rightarrow> 'y" and x
    by (cases x) simp_all
  show thesis
    by (rule that, unfold update_mission_telemetry_def Let_def assms m Option.bind.bind_lunit,
        rule arg_cong [where f = "Option.bind _"]) (simp add: case_prod_beta' fun_eq_iff)
qed

lemma update_mission_step:
  assumes "on_route model" and "int n = sint (route_nSegments model)" and "broadcast_at n k ctx"
  shows "\<exists>ctx' pubs. update_mission_telemetry fl model now_us auto_mode ctx = Some (ctx', pubs) \<and>
     broadcast_seqs pubs = (if k mod 10 = 0 then [of_nat ((k div 10) mod n)] else []) \<and>
     broadcast_at n (Suc k) ctx'"
proof -
  obtain c n' where cn: "currentWaypoint model = of_nat c" "route_nSegments model = of_nat n'"
    "1 \<le> c" "c \<le> n'" "n' \<le> 6" by (rule on_route_numbers [OF assms(1)])
  have n: "n' = n" using cn(2,5) assms(2) by (simp add: sint_of_small)
  note seq = mission_seq_on_route [OF cn]
  obtain p where p: "waypoint_vec model (unat (mission_current_seq model) + 1) = Some p"
    using cn seq(2) by (simp add: waypoint_vec_def)
  have total: "unat (mission_total model) = n" "1 \<le> n" "n \<le> 6" using seq(1) cn n by simp_all
  have at: "broadcast_at n k (ctx\<lparr>ctx_mission_progress := a, ctx_local_position_command := b\<rparr>)" for a b
    using assms(3) by (simp add: broadcast_at_def)
  obtain a b where u: "update_mission_telemetry fl model now_us auto_mode ctx =
      map_option (\<lambda>(ctx, pubs). (ctx, [Pub_mission_progress a, Pub_local_position_command b] @ pubs))
        (broadcast_item fl model now_us (ctx\<lparr>ctx_mission_progress := a, ctx_local_position_command := b\<rparr>))"
    by (rule update_mission_split [OF p])
  show ?thesis
  proof (cases "k mod 10 = 0")
    case True
    from broadcast_step_item [OF at True total] u True show ?thesis by fastforce
  next
    case False
    from broadcast_step_quiet [OF at False] u False show ?thesis by fastforce
  qed
qed

lemma mission_trace_from:
  assumes "broadcast_at n k ctx"
    and "list_all (\<lambda>(model, _). on_route model \<and> sint (route_nSegments model) = int n) cycles"
  shows "mission_trace fl cycles ctx = Some (map
    (\<lambda>j. if j mod 10 = 0 then [of_nat ((j div 10) mod n)] else []) [k..<k + length cycles])"
  using assms
proof (induction cycles arbitrary: k ctx)
  case (Cons cycle cycles)
  obtain model now_us auto_mode where c: "cycle = (model, now_us, auto_mode)" by (cases cycle)
  from update_mission_step [of model n k ctx fl now_us auto_mode] Cons.prems obtain ctx' pubs where
    u: "update_mission_telemetry fl model now_us auto_mode ctx = Some (ctx', pubs)"
      "broadcast_seqs pubs = (if k mod 10 = 0 then [of_nat ((k div 10) mod n)] else [])"
      "broadcast_at n (Suc k) ctx'" by (auto simp: c)
  have "mission_trace fl cycles ctx' = Some (map
      (\<lambda>j. if j mod 10 = 0 then [of_nat ((j div 10) mod n)] else []) [Suc k..<Suc k + length cycles])"
    using Cons.IH [OF u(3)] Cons.prems(2) by simp
  moreover have "[k..<k + length (cycle # cycles)] = k # [Suc k..<Suc k + length cycles]"
    by (simp add: upt_conv_Cons del: upt_Suc)
  ultimately show ?case by (simp add: c u(1,2))
qed simp

text \<open>
  C26 The items of a mission go out in a fixed rotation: from a fresh context, over any
  cycles that keep a mission of \<open>n\<close> items, cycle \<open>j\<close> broadcasts one item when \<open>j\<close> is a
  multiple of ten and nothing otherwise, and the broadcasts run through the items
  \<open>0, 1, ..., n - 1\<close> again and again, so every item is sent within every \<open>10 * n\<close> cycles.
\<close>

theorem broadcast_round_robin:
  assumes "list_all (\<lambda>(model, _). on_route model \<and> sint (route_nSegments model) = int n) cycles"
    and "mission_broadcast_countdown ctx = 0" and "mission_broadcast_seq ctx = 0"
  shows "mission_trace fl cycles ctx = Some (map
    (\<lambda>j. if j mod 10 = 0 then [of_nat ((j div 10) mod n)] else []) [0..<length cycles])"
proof -
  have "broadcast_at n 0 ctx" using assms(2,3) by (simp add: broadcast_at_def)
  from mission_trace_from [OF this assms(1)] show ?thesis by simp
qed

section \<open>Navigation target\<close>

text \<open>What is relied on of \<open>csyn_clampf\<close> and \<open>atan2f\<close>: bounds that are in order hold for
  every number that is clamped, and the angle of two numbers is a number.\<close>

definition clamps :: "'p csyn \<Rightarrow> bool" where
  "clamps cs \<longleftrightarrow> (\<forall>x lo hi. \<not> nan32 x \<longrightarrow> f32_le lo hi \<longrightarrow>
     f32_le lo (csyn_clampf cs x lo hi) \<and> f32_le (csyn_clampf cs x lo hi) hi)"

definition angles_defined :: "'p csyn \<Rightarrow> bool" where
  "angles_defined cs \<longleftrightarrow> (\<forall>y x. \<not> nan32 y \<longrightarrow> \<not> nan32 x \<longrightarrow> \<not> nan32 (atan2f cs y x))"

lemma unpack_limits:
  "f32_unpack 0xC68CA000 = Fin True 9216000 (- 9)" "f32_unpack 0x468CA000 = Fin False 9216000 (- 9)"
  "f32_unpack 0 = Fin False 0 (- 149)" "f32_unpack 0x477FFF00 = Fin False 16776960 (- 8)"
  "f64_unpack 0x40B66193F49DEF8A = Fin False 6299737579712394 (- 40)"
  by (simp_all add: f32_unpack_def f64_unpack_def fp_unpack_def fp_emin_def)

lemma limits_real:
  "fp_real (Fin True 9216000 (- 9)) = of_int (- 18000)" "fp_real (Fin False 9216000 (- 9)) = of_int 18000"
  "fp_real (Fin False 0 (- 149)) = of_int 0" "fp_real (Fin False 16776960 (- 8)) = of_int 65535"
  by (simp_all add: power_int_def power_divide)

lemma clampedD:
  assumes "clamps cs" "\<not> nan32 x" "f32_le lo hi"
  shows "f32_le lo (csyn_clampf cs x lo hi)" "f32_le (csyn_clampf cs x lo hi) hi"
  using assms by (auto simp: clamps_def)

lemma cdeg_in_range:
  assumes "clamps cs" "\<not> nan64 a"
  shows "\<exists>w. cdeg_from_rad cs a = Some w \<and> \<bar>sint w\<bar> \<le> 18000"
proof -
  let ?x = "csyn_clampf cs (f32_of_f64 (f64_mul a 0x40B66193F49DEF8A)) 0xC68CA000 0x468CA000"
  have "\<not> nan32 (f32_of_f64 (f64_mul a 0x40B66193F49DEF8A))"
    using assms(2) by (intro f32_of_f64_number f64_mul_number [OF _ unpack_limits(5)]) simp_all
  moreover have "f32_le 0xC68CA000 0x468CA000" by (simp add: f32_le_def unpack_limits signed_at_def)
  ultimately have "f32_le 0xC68CA000 ?x" "f32_le ?x 0x468CA000" using assms(1) by (auto dest: clampedD)
  then obtain v where v: "cast_to (- (2 ^ 15)) (2 ^ 15 - 1) (f32_unpack ?x) = Some v" "- 18000 \<le> v" "v \<le> 18000"
    by (rule cast_between [OF _ _ unpack_limits(1,2) limits_real(1,2),
          where tlo = "- (2 ^ 15)" and thi = "2 ^ 15 - 1"]) simp_all
  then have "sint (word_of_int v :: u16) = v" by (simp add: signed_of_int signed_take_bit_int_eq_self)
  then show ?thesis using v by (auto simp: cdeg_from_rad_def i16_of_f32_def)
qed

lemma distance_in_range:
  assumes "clamps cs" "\<not> nan32 d"
  shows "\<exists>w. u16_of_f32 (csyn_clampf cs d 0 0x477FFF00) = Some w"
proof -
  let ?x = "csyn_clampf cs d 0 0x477FFF00"
  have "f32_le 0 0x477FFF00" by (simp add: f32_le_def unpack_limits signed_at_def)
  then have le: "f32_le 0 ?x" "f32_le ?x 0x477FFF00" using assms by (auto dest: clampedD)
  obtain v where "cast_to 0 (2 ^ 16 - 1) (f32_unpack ?x) = Some v"
    by (rule cast_between [OF le unpack_limits(3,4) limits_real(3,4),
          where tlo = 0 and thi = "2 ^ 16 - 1"]) simp_all
  then show ?thesis by (simp add: u16_of_f32_def)
qed

text \<open>The commands that the navigation target is made of, and the waypoints.\<close>

definition angle_commands :: "bool \<Rightarrow> 'z outer_loop_scheme \<Rightarrow> f64 list" where
  "angle_commands auto_mode model =
     [if auto_mode then rollCommand model else rollCommandPreview model,
      if auto_mode then tecs_pitchCommand model else pitchCommandPreview model,
      desiredHeading model]"

definition route_numbers :: "'z outer_loop_scheme \<Rightarrow> bool" where
  "route_numbers model \<longleftrightarrow>
     list_all (\<lambda>r. \<not> nan64 (route_waypoints model r 0) \<and> \<not> nan64 (route_waypoints model r 1)) [0..<MAX_POINTS]"

definition pose_finite :: "'p control_context \<Rightarrow> bool" where
  "pose_finite ctx \<longleftrightarrow> (mocap_valid (ctx_mocap ctx) \<longrightarrow> list_all isfinite32 (pose_values (ctx_mocap ctx)))"

text \<open>The way to the active waypoint from a valid pose: two numbers, read in bounds.\<close>

lemma active_waypoint:
  assumes "on_route model" and "route_numbers model"
  obtains c where "c < MAX_POINTS" "unat (currentWaypoint model) = c"
    "sle 1 (currentWaypoint model) \<and> sle (currentWaypoint model) (route_nSegments model)"
    "\<not> nan64 (route_waypoints model c 0)" "\<not> nan64 (route_waypoints model c 1)"
proof -
  obtain c n where cn: "currentWaypoint model = of_nat c" "route_nSegments model = of_nat n"
    "1 \<le> c" "c \<le> n" "n \<le> 6" by (rule on_route_numbers [OF assms(1)])
  have "c < MAX_POINTS" using cn by simp
  moreover from this have "\<not> nan64 (route_waypoints model c 0)" "\<not> nan64 (route_waypoints model c 1)"
    using assms(2) unfolding route_numbers_def list_all_iff by auto
  ultimately show thesis using cn by (intro that [of c]) (simp_all add: unat_of_small sle_def sint_of_small)
qed

lemma way_numbers:
  assumes "pose_finite ctx" "mocap_valid (ctx_mocap ctx)" and "\<not> nan64 east" "\<not> nan64 north"
  shows "\<not> nan32 (f32_sub (f32_of_f64 east) (mocap_x (ctx_mocap ctx)))"
    and "\<not> nan32 (f32_sub (f32_of_f64 north) (mocap_y (ctx_mocap ctx)))"
proof -
  have "isfinite32 (mocap_x (ctx_mocap ctx))" "isfinite32 (mocap_y (ctx_mocap ctx))"
    using assms(1,2) by (simp_all add: pose_finite_def pose_values_def)
  then show "\<not> nan32 (f32_sub (f32_of_f64 east) (mocap_x (ctx_mocap ctx)))"
    and "\<not> nan32 (f32_sub (f32_of_f64 north) (mocap_y (ctx_mocap ctx)))"
    using assms(3,4) by (simp_all add: f32_sub_number f32_of_f64_number)
qed

lemma angle_number:
  "angles_defined cs \<Longrightarrow> \<not> nan32 y \<Longrightarrow> \<not> nan32 x \<Longrightarrow> \<not> nan64 (f64_of_f32 (atan2f cs y x))"
  by (simp add: angles_defined_def f64_of_f32_number)

text \<open>
  While the controller is on its route and its angles are numbers, and a valid pose is finite,
  the navigation target is defined: the route is read in bounds, no cast is undefined, and
  each of the four angles is within 18000 centidegrees.
\<close>

theorem navigation_target_in_range:
  assumes "on_route model" and "route_numbers model" and "pose_finite ctx"
    and "clamps cs" and "angles_defined cs"
    and "list_all (\<lambda>x. \<not> nan64 x) (angle_commands auto_mode model)"
  shows "\<exists>ctx'. update_navigation_target cs model now_us auto_mode ctx = Some ctx' \<and>
     list_all (\<lambda>f. \<bar>sint (f (ctx_navigation_target ctx'))\<bar> \<le> 18000)
       [desired_roll_cdeg, desired_pitch_cdeg, desired_yaw_cdeg, target_yaw_cdeg]"
proof -
  obtain c where c: "c < MAX_POINTS" "unat (currentWaypoint model) = c"
    "sle 1 (currentWaypoint model) \<and> sle (currentWaypoint model) (route_nSegments model)"
    "\<not> nan64 (route_waypoints model c 0)" "\<not> nan64 (route_waypoints model c 1)"
    by (rule active_waypoint [OF assms(1,2)])
  let ?e = "f32_sub (f32_of_f64 (route_waypoints model c 0)) (mocap_x (ctx_mocap ctx))"
    and ?n = "f32_sub (f32_of_f64 (route_waypoints model c 1)) (mocap_y (ctx_mocap ctx))"
  let ?d = "sqrtf (f32_add (f32_mul ?e ?e) (f32_mul ?n ?n))"
  let ?far = "if mocap_valid (ctx_mocap ctx)
       then cdeg_from_rad cs (f64_of_f32 (atan2f cs ?n ?e)) \<bind> (\<lambda>yaw. Some (?d, yaw))
       else Some (0, 0)"
  note angle = cdeg_in_range [OF assms(4)]
  have "\<exists>d yaw. ?far = Some (d, yaw) \<and> \<not> nan32 d \<and> \<bar>sint yaw\<bar> \<le> 18000"
  proof (cases "mocap_valid (ctx_mocap ctx)")
    case True
    note way = way_numbers [OF assms(3) True c(4,5)]
    from angle [OF angle_number [OF assms(5) way(2,1)]] length_number [OF way] True show ?thesis by fastforce
  qed (simp add: nan32_def unpack_limits)
  then obtain d yaw where d: "?far = Some (d, yaw)" "\<not> nan32 d" "\<bar>sint yaw\<bar> \<le> 18000" by blast
  have cmd: "\<not> nan64 (if auto_mode then rollCommand model else rollCommandPreview model)"
    "\<not> nan64 (if auto_mode then tecs_pitchCommand model else pitchCommandPreview model)"
    "\<not> nan64 (desiredHeading model)"
    using assms(6) by (auto simp: angle_commands_def)
  obtain a b e w where k:
    "cdeg_from_rad cs (if auto_mode then rollCommand model else rollCommandPreview model) = Some a"
    "\<bar>sint a\<bar> \<le> 18000"
    "cdeg_from_rad cs (if auto_mode then tecs_pitchCommand model else pitchCommandPreview model) = Some b"
    "\<bar>sint b\<bar> \<le> 18000"
    "cdeg_from_rad cs (desiredHeading model) = Some e" "\<bar>sint e\<bar> \<le> 18000"
    "u16_of_f32 (csyn_clampf cs d 0 0x477FFF00) = Some w"
    using angle [OF cmd(1)] angle [OF cmd(2)] angle [OF cmd(3)] distance_in_range [OF assms(4) d(2)] by blast
  show ?thesis
    unfolding update_navigation_target_def Let_def c(2) if_P [OF c(3)] if_P [OF c(1)]
      Option.bind.bind_lunit prod.case d(1) k(1,3,5,7)
    using d(3) k(2,4,6) by simp
qed

text \<open>
  Whatever the controller computed, in a target that is published the angle to the waypoint
  is within 18000 centidegrees, and so is the angle of every command that is a number.
\<close>

lemma navigation_target_angles:
  assumes "update_navigation_target cs model now_us auto_mode ctx = Some ctx'"
    and "on_route model" and "route_numbers model" and "pose_finite ctx"
    and "clamps cs" and "angles_defined cs"
  shows "\<bar>sint (target_yaw_cdeg (ctx_navigation_target ctx'))\<bar> \<le> 18000 \<and>
    list_all2 (\<lambda>x f. nan64 x \<or> \<bar>sint (f (ctx_navigation_target ctx'))\<bar> \<le> 18000)
      (angle_commands auto_mode model) [desired_roll_cdeg, desired_pitch_cdeg, desired_yaw_cdeg]"
proof -
  obtain c where c: "c < MAX_POINTS" "unat (currentWaypoint model) = c"
    "sle 1 (currentWaypoint model) \<and> sle (currentWaypoint model) (route_nSegments model)"
    "\<not> nan64 (route_waypoints model c 0)" "\<not> nan64 (route_waypoints model c 1)"
    by (rule active_waypoint [OF assms(2,3)])
  have angle: "cdeg_from_rad cs a = Some w \<Longrightarrow> nan64 a \<or> \<bar>sint w\<bar> \<le> 18000" for a w
    using cdeg_in_range [OF assms(5), of a] by auto
  let ?e = "f32_sub (f32_of_f64 (route_waypoints model c 0)) (mocap_x (ctx_mocap ctx))"
    and ?n = "f32_sub (f32_of_f64 (route_waypoints model c 1)) (mocap_y (ctx_mocap ctx))"
  have yaw: "\<bar>sint w\<bar> \<le> 18000"
    if "mocap_valid (ctx_mocap ctx)" "cdeg_from_rad cs (f64_of_f32 (atan2f cs ?n ?e)) = Some w" for w
    using angle [OF that(2)] angle_number [OF assms(6)] way_numbers [OF assms(4) that(1) c(4,5)] by blast
  show ?thesis
    using assms(1)
    unfolding update_navigation_target_def Let_def c(2) if_P [OF c(3)] if_P [OF c(1)]
      Option.bind.bind_lunit prod.case
    by (auto simp: Option.bind_eq_Some_conv angle_commands_def
        dest: yaw angle split: if_splits)
qed

section \<open>The whole of the telemetry\<close>

text \<open>The part of the context that telemetry only reads.\<close>

definition core_of :: "'p control_context \<Rightarrow>
   mocap_rigid_body \<times> odometry_data \<times> u64 \<times> manual_control \<times> rc_channels \<times> u32 \<times> u64 \<times> u32 \<times> u32 \<times> u32 \<times> bool" where
  "core_of ctx = (ctx_mocap ctx, ctx_odometry ctx, next_control_time_us ctx, ctx_manual ctx,
     control_rc ctx, mocap_generation ctx, mocap_last_update_ms ctx, estimator_control_steps ctx,
     manual_generation ctx, main_loop_us ctx, previous_auto_mode ctx)"

lemma broadcast_item_core:
  "broadcast_item fl model now_us ctx = Some (ctx', pubs) \<Longrightarrow>
     core_of ctx' = core_of ctx \<and> pwm_outputs ctx' = pwm_outputs ctx \<and>
     ctx_vehicle_health ctx' = ctx_vehicle_health ctx \<and> ctx_attitude_estimate ctx' = ctx_attitude_estimate ctx \<and>
     ctx_attitude_command ctx' = ctx_attitude_command ctx"
  by (auto simp: broadcast_item_def Let_def Option.bind_eq_Some_conv core_of_def split: if_splits)

lemma update_mission_core:
  "update_mission_telemetry fl model now_us auto_mode ctx = Some (ctx', pubs) \<Longrightarrow>
     core_of ctx' = core_of ctx \<and> pwm_outputs ctx' = pwm_outputs ctx \<and>
     ctx_vehicle_health ctx' = ctx_vehicle_health ctx \<and> ctx_attitude_estimate ctx' = ctx_attitude_estimate ctx \<and>
     ctx_attitude_command ctx' = ctx_attitude_command ctx"
  by (auto simp: update_mission_telemetry_def Let_def Option.bind_eq_Some_conv
      dest!: broadcast_item_core) (simp_all add: core_of_def)

lemma update_navigation_core:
  "update_navigation_target cs model now_us auto_mode ctx = Some ctx' \<Longrightarrow>
     core_of ctx' = core_of ctx \<and> pwm_outputs ctx' = pwm_outputs ctx \<and>
     ctx_vehicle_health ctx' = ctx_vehicle_health ctx \<and> ctx_attitude_estimate ctx' = ctx_attitude_estimate ctx \<and>
     ctx_attitude_command ctx' = ctx_attitude_command ctx"
  by (auto simp: update_navigation_target_def Let_def Option.bind_eq_Some_conv core_of_def)

text \<open>What every call that returns leaves in the context, and what it publishes first.\<close>

lemma publish_outputs_result:
  assumes "publish_outputs cs cfg fl uptimes model auto_mode ctx = Some (ctx', pubs)"
  shows "core_of ctx' = core_of ctx \<and>
    (\<exists>now_us rest. pubs = Pub_pwm_signal_outputs (pwm_outputs ctx') # Pub_vehicle_health (ctx_vehicle_health ctx') # rest \<and>
      pwm_outputs ctx' = csyn_pwm_outputs_from_rc cs (control_rc ctx) now_us (pwm_outputs ctx) \<and>
      ctx_vehicle_health ctx' = vehicle_health_of fl (ctx_manual ctx) now_us auto_mode
        (auto_mode \<and> (\<not> mocap_valid (ctx_mocap ctx) \<or> model_stale_failsafe_active model)) \<and>
      ctx_attitude_command ctx' = attitude_command_of cs model now_us)"
  using assms unfolding publish_outputs_def update_telemetry_def Let_def Option.bind_eq_Some_conv
  by (auto dest!: update_mission_core update_navigation_core) (simp_all add: core_of_def)

text \<open>Under the conditions of the navigation target, everything is published.\<close>

lemma bind_defined: "\<exists>a. m = Some a \<Longrightarrow> (\<And>a. \<exists>b. f a = Some b) \<Longrightarrow> \<exists>b. m \<bind> f = Some b"
  by (cases m) auto

lemma publish_outputs_defined:
  fixes ctx :: "'p control_context"
  assumes "on_route model" and "route_numbers model" and "pose_finite ctx"
    and "clamps cs" and "angles_defined cs"
    and "list_all (\<lambda>x. \<not> nan64 x) (angle_commands auto_mode model)"
  shows "\<exists>r. publish_outputs cs cfg fl uptimes model auto_mode ctx = Some r"
proof -
  have nav: "\<exists>ctx2. update_navigation_target cs model t auto_mode ctx1 = Some ctx2"
    if "pose_finite ctx1" for ctx1 :: "'p control_context" and t
    using navigation_target_in_range [OF assms(1,2) that assms(4-6)] by blast
  have mission: "\<exists>r. update_mission_telemetry fl model t auto_mode ctx1 = Some r"
    for ctx1 :: "'p control_context" and t
    using update_mission_defined [OF assms(1)] by blast
  have "\<exists>r. update_telemetry cs cfg fl u model auto_mode t ctx1 = Some r"
    if "pose_finite ctx1" for ctx1 :: "'p control_context" and u t
    unfolding update_telemetry_def Let_def
    by (intro bind_defined nav mission) (use that in \<open>simp_all add: pose_finite_def split: prod.split\<close>)
  moreover have "pose_finite (ctx\<lparr>pwm_outputs := w\<rparr>)" for w
    using assms(3) by (simp add: pose_finite_def)
  ultimately show ?thesis
    unfolding publish_outputs_def Let_def
    by (intro bind_defined) (simp_all split: prod.split)
qed

end
