(* ===== verification/Sil_State.thy ===== *)
theory Sil_State
  imports Realtime_Telemetry
begin

text \<open>
  The state of \<open>src/main_sil.c\<close>, the program in the simulation loop, and its operations: the
  inputs from the topics, the validity of the odometry, the map of the full odometry to the
  controller, its own copies of the mode selection and of the outputs, the schedule on the
  simulator's time, and the telemetry. The facts: the copies agree with those of the
  real-time program, and in simulated time the schedule is a step clock.
\<close>

section \<open>The state\<close>

record 'p sil_context =
  sil_odometry :: odometry_data
  sil_manual :: manual_control
  sil_control_rc :: rc_channels
  sil_pwm_outputs :: 'p
  sil_vehicle_health :: vehicle_health
  sil_attitude_estimate :: attitude_estimate
  sil_attitude_command :: attitude_command
  sil_control_loop_metrics :: control_loop_metrics
  sil_main_loop_us :: u32
  lockstep_time_us :: u64
  sil_next_control_time_us :: u64
  sil_estimator_control_steps :: u32
  lockstep_time_valid :: bool
  sil_previous_auto_mode :: bool

section \<open>Inputs\<close>

text \<open>An update of a subscription: its code, and what its message holds after the call.\<close>

type_synonym 'm sub_update = "'m \<Rightarrow> int \<times> 'm"

definition read_odometry_if_updated ::
  "odometry_data sub_update \<Rightarrow> 'p sil_context \<Rightarrow> bool \<times> 'p sil_context" where
  "read_odometry_if_updated zros_sub_update ctx =
     (let (rc, odometry) = zros_sub_update (sil_odometry ctx);
          ctx = ctx\<lparr>sil_odometry := odometry\<rparr>
      in if rc \<noteq> 0 then (False, ctx)
         else (True, ctx\<lparr>lockstep_time_us := odom_timestamp_us odometry, lockstep_time_valid := True\<rparr>))"

definition sil_read_manual_if_updated ::
  "manual_control sub_update \<Rightarrow> 'p sil_context \<Rightarrow> bool \<times> 'p sil_context" where
  "sil_read_manual_if_updated zros_sub_update ctx =
     (let (rc, manual) = zros_sub_update (sil_manual ctx) in (rc = 0, ctx\<lparr>sil_manual := manual\<rparr>))"

definition sil_odometry_valid :: "flag_values \<Rightarrow> odometry_data \<Rightarrow> bool" where
  "sil_odometry_valid fl odom =
     (let required = position_valid fl OR attitude_valid fl OR linear_velocity_valid fl OR
            angular_velocity_valid fl;
          reject = outlier_rejected fl OR lost fl;
          flags = odom_flags odom
      in flags AND required = required \<and> flags AND reject = 0 \<and>
         odom_status odom \<noteq> Odometry_Lost \<and> odom_status odom \<noteq> Odometry_OutlierRejected)"

section \<open>The controller's input and output\<close>

definition sil_map_input :: "'p csyn \<Rightarrow> odometry_data \<Rightarrow> 'z outer_loop_scheme \<Rightarrow> 'z outer_loop_scheme" where
  "sil_map_input cs odom model =
     (let (roll, pitch, yaw) = csyn_euler_from_quatf cs (odom_attitude odom);
          d = (\<lambda>v old. vec3 (f64_of_f32 (vec_x v)) (f64_of_f32 (vec_y v)) (f64_of_f32 (vec_z v)) old)
      in model
        \<lparr>position_m := d (odom_position odom) (position_m model),
         euler_rad := vec3 (f64_of_f32 roll) (f64_of_f32 pitch) (f64_of_f32 yaw) (euler_rad model),
         velocity_m_s := d (odom_linear_velocity odom) (velocity_m_s model),
         eulerRate_rad_s := d (odom_angular_velocity odom) (eulerRate_rad_s model)\<rparr>)"

definition sil_map_output :: "'p csyn \<Rightarrow> 'z outer_loop_scheme \<Rightarrow> rc_channels option" where
  "sil_map_output cs model = do {
     ch4 \<leftarrow> i32_of_f32 (csyn_clampf cs (f32_of_f64 (stabilizer model)) 0x447A0000 0x44FA0000);
     ch6 \<leftarrow> i32_of_f32 (f32_mul 0x447A0000 (f32_of_f64 (desiredSpeed model)));
     ch7 \<leftarrow> i32_of_f32 (f32_mul 0x447A0000 (f32_of_f64 (rollCommand model)));
     ch8 \<leftarrow> i32_of_f32 (f32_mul 0x447A0000 (f32_of_f64 (courseError model)));
     Some ((\<lambda>_. 0)
       (0 := csyn_pwm_from_centered_axis cs (f32_neg (f32_of_f64 (aileron model))),
        1 := csyn_pwm_from_centered_axis cs (f32_neg (f32_of_f64 (elevator model))),
        2 := csyn_pwm_from_throttle_axis cs (f32_of_f64 (throttle model)),
        3 := csyn_pwm_from_centered_axis cs (f32_of_f64 (rudder model)),
        4 := ch4, 5 := currentWaypoint model, 6 := ch6, 7 := ch7, 8 := ch8))
   }"

definition sil_idle_output :: rc_channels where
  "sil_idle_output = (\<lambda>_. 0)(0 := 1500, 1 := 1500, 2 := 1000, 3 := 1500, 4 := 1000)"

section \<open>Mode\<close>

fun channels_in_range :: "rc_channels \<Rightarrow> nat list \<Rightarrow> bool \<Rightarrow> bool" where
  "channels_in_range channels [] valid = valid"
| "channels_in_range channels (i # is) valid =
     channels_in_range channels is (valid \<and> sle 900 (channels i) \<and> sle (channels i) 2100)"

definition sil_manual_control_valid :: "config \<Rightarrow> manual_control \<Rightarrow> bool \<times> i32" where
  "sil_manual_control_valid cfg manual =
     (let channels = manual_rc manual;
          switch_us = channels (auto_switch_channel cfg);
          valid = channels_in_range channels [0, 1, 2, 3, 4] (manual_valid manual)
      in (valid \<and> sle 900 switch_us \<and> sle switch_us 2100, switch_us))"

definition sil_auto_mode_selected :: "config \<Rightarrow> manual_control \<Rightarrow> bool" where
  "sil_auto_mode_selected cfg manual =
     (if manual_override cfg then
        (case sil_manual_control_valid cfg manual of
           (valid, switch_us) \<Rightarrow> \<not> valid \<or> slt (auto_switch_threshold_us cfg) switch_us)
      else True)"

section \<open>Time\<close>

definition control_timestamp_us :: "config \<Rightarrow> u64 \<Rightarrow> 'p sil_context \<Rightarrow> u64" where
  "control_timestamp_us cfg uptime_ms ctx =
     (if simulated_time cfg then (if lockstep_time_valid ctx then lockstep_time_us ctx else 0)
      else uptime_ms * 1000)"

definition simulated_step_due :: "'p sil_context \<Rightarrow> bool \<times> 'p sil_context" where
  "simulated_step_due ctx =
     (if lockstep_time_us ctx < sil_next_control_time_us ctx then (False, ctx)
      else (True, ctx\<lparr>sil_next_control_time_us :=
              (lockstep_time_us ctx div of_nat CUBS2_CONTROL_PERIOD_US + 1) * of_nat CUBS2_CONTROL_PERIOD_US\<rparr>))"

definition control_step_due :: "config \<Rightarrow> 'p sil_context \<Rightarrow> bool \<times> 'p sil_context" where
  "control_step_due cfg ctx = (if simulated_time cfg then simulated_step_due ctx else (True, ctx))"

section \<open>Telemetry\<close>

definition sil_attitude_estimate_flags ::
  "flag_values \<Rightarrow> 'z outer_loop_scheme \<Rightarrow> bool \<Rightarrow> 'p sil_context \<Rightarrow> u8" where
  "sil_attitude_estimate_flags fl model odometry_ok ctx =
     (let attitude_finite = isfinite64 (euler_rad model 0) \<and> isfinite64 (euler_rad model 1) \<and>
            isfinite64 (euler_rad model 2);
          rates_finite = isfinite64 (eulerRateEstimate_rad_s model 0) \<and>
            isfinite64 (eulerRateEstimate_rad_s model 1) \<and> isfinite64 (eulerRateEstimate_rad_s model 2);
          flags = (if odometry_ok \<and> 1 \<le> sil_estimator_control_steps ctx \<and> attitude_finite
            then estimate_attitude_valid fl else 0)
      in if odometry_ok \<and> 2 \<le> sil_estimator_control_steps ctx \<and> rates_finite
         then flags OR estimate_rates_valid fl else flags)"

definition sil_update_telemetry ::
  "'p csyn \<Rightarrow> flag_values \<Rightarrow> 'z outer_loop_scheme \<Rightarrow> bool \<Rightarrow> u64 \<Rightarrow> 'p sil_context \<Rightarrow>
   'p sil_context \<times> 'p publication list" where
  "sil_update_telemetry cs fl model auto_mode timestamp_us ctx =
     (let odometry_ok = sil_odometry_valid fl (sil_odometry ctx);
          health = vehicle_health_of fl (sil_manual ctx) timestamp_us auto_mode (auto_mode \<and> \<not> odometry_ok);
          estimate = attitude_estimate_of cs model timestamp_us
            (sil_attitude_estimate_flags fl model odometry_ok ctx);
          command = attitude_command_of cs model timestamp_us;
          metrics = \<lparr>metrics_timestamp_us = timestamp_us, period_us = of_nat CUBS2_CONTROL_PERIOD_US,
            latency_us = sil_main_loop_us ctx\<rparr>
      in (ctx\<lparr>sil_vehicle_health := health, sil_attitude_estimate := estimate,
            sil_attitude_command := command, sil_control_loop_metrics := metrics\<rparr>,
          [Pub_vehicle_health health, Pub_attitude_estimate estimate, Pub_attitude_command command,
           Pub_control_loop_metrics metrics]))"

definition sil_publish_outputs ::
  "'p csyn \<Rightarrow> config \<Rightarrow> flag_values \<Rightarrow> u64 \<Rightarrow> 'z outer_loop_scheme \<Rightarrow> bool \<Rightarrow> 'p sil_context \<Rightarrow>
   'p sil_context \<times> 'p publication list" where
  "sil_publish_outputs cs cfg fl uptime_ms model auto_mode ctx =
     (let timestamp_us = control_timestamp_us cfg uptime_ms ctx;
          pwm = csyn_pwm_outputs_from_rc cs (sil_control_rc ctx) timestamp_us (sil_pwm_outputs ctx);
          (ctx, pubs) = sil_update_telemetry cs fl model auto_mode timestamp_us (ctx\<lparr>sil_pwm_outputs := pwm\<rparr>)
      in (ctx, Pub_pwm_signal_outputs pwm # pubs))"

section \<open>Facts\<close>

lemma channels_in_range_eq:
  "channels_in_range channels is valid \<longleftrightarrow> valid \<and> list_all (\<lambda>i. in_pwm_range (channels i)) is"
  by (induction "is" arbitrary: valid) (auto simp: in_pwm_range_def)

lemma upto_5: "[0..<5] = [0, 1, 2, 3, 4 :: nat]"
  by (simp add: upt_rec)

lemma sil_manual_control_valid_eq: "sil_manual_control_valid cfg manual = manual_control_valid cfg manual"
  by (auto simp: sil_manual_control_valid_def manual_control_valid_eq channels_valid_def
      channels_in_range_eq upto_5 in_pwm_range_def Let_def)

lemma sil_auto_mode_eq: "sil_auto_mode_selected cfg manual = auto_mode_selected cfg manual"
  by (simp add: sil_auto_mode_selected_def auto_mode_selected_def sil_manual_control_valid_eq Let_def)

lemma sil_map_output_eq: "sil_map_output cs model = map_output cs True model"
  by (simp add: sil_map_output_def map_output_def milli_def Let_def)

text \<open>
  C23 The two programs agree on who flies and on what is sent, up to the sign of two
  surfaces: for every manual input they select the same mode; the idle output is the same; and
  for every state of the controller the real-time program in the simulator's build sends what
  the program in the loop sends, and in the aircraft's build the same on every channel but the
  aileron's and the elevator's, which it does not negate. Both programs send an output, or
  leave a cast undefined, for the same states of the controller.
\<close>

theorem sil_agrees_with_realtime:
  "sil_auto_mode_selected cfg manual = auto_mode_selected cfg manual \<and>
   sil_idle_output = idle_output \<and>
   fixed_wing_map_output cs cfg model =
     (if fastdyn cfg then sil_map_output cs model
      else map_option (\<lambda>rc. rc(0 := csyn_pwm_from_centered_axis cs (f32_of_f64 (aileron model)),
                               1 := csyn_pwm_from_centered_axis cs (f32_of_f64 (elevator model))))
             (sil_map_output cs model)) \<and>
   map_option (\<lambda>rc. (rc 0, rc 1)) (sil_map_output cs model) =
     map_option (\<lambda>_. (csyn_pwm_from_centered_axis cs (f32_neg (f32_of_f64 (aileron model))),
                     csyn_pwm_from_centered_axis cs (f32_neg (f32_of_f64 (elevator model)))))
       (sil_map_output cs model)"
  by (auto simp: sil_auto_mode_eq sil_idle_output_def idle_output_def sil_map_output_eq
      fixed_wing_map_output_def map_output_def Let_def fun_eq_iff split: bind_splits)

interpretation sil_clock: step_clock "\<lambda>t ctx. ctx\<lparr>lockstep_time_us := t\<rparr>"
  sil_next_control_time_us simulated_step_due
  by unfold_locales (auto simp: simulated_step_due_def next_slot_us_def)

end
