(* ===== verification/Lockstep.thy ===== *)
theory Lockstep
  imports Vehicle
begin

text \<open>
  The lockstep adapter, \<open>subsys/lockstep\<close>: the shared-memory block of the vehicle, its
  mapping on the native host, and the start, receive and send of the lockstep exchange. The
  sequencing itself (\<open>cerebri_lockstep_sequence_*\<close>), the host's system calls and the process
  exit are not in the repository and are parameters. The facts: what a start leaves behind
  on every path, and that a failed receive leaves the caller's message alone.
\<close>

definition CUBS2_LOCKSTEP_MAGIC :: u32 where
  "CUBS2_LOCKSTEP_MAGIC = 0x43554253"

text \<open>The return codes: \<open>None\<close> is the code 0, an errno stands for its negation.\<close>

datatype errno = EIO | ECANCELED | ENOTSUP | Errno nat

type_synonym code = "errno option"

record 'p lockstep_shared =
  magic :: u32
  odometry_sequence :: u32
  response_sequence :: u32
  terminate :: u32
  shm_odometry :: odometry_data
  shm_pwm :: 'p
  shm_attitude :: attitude_command

text \<open>Which of the three builds.\<close>

datatype lockstep_board = Native_sim | Fastdyn_board | Other_board

section \<open>The host's mapping\<close>

text \<open>The host's calls: \<open>open\<close>, the size from \<open>fstat\<close>, and \<open>mmap\<close> of the file.\<close>

record 'p lockstep_host =
  host_open :: "string \<Rightarrow> int"
  host_fstat :: "int \<Rightarrow> nat option"
  host_mmap :: "int \<Rightarrow> nat \<Rightarrow> 'p lockstep_shared option"

text \<open>The calls that take or give back a resource of the host, in order.\<close>

datatype host_call = Opened int | Closed int | Mapped | Unmapped

definition cubs2_lockstep_host_map ::
  "'p lockstep_host \<Rightarrow> string \<Rightarrow> nat \<Rightarrow> 'p lockstep_shared option \<times> host_call list" where
  "cubs2_lockstep_host_map host path bytes =
     (let fd = host_open host path in
      if fd < 0 then (None, [])
      else if (case host_fstat host fd of None \<Rightarrow> True | Some st_size \<Rightarrow> st_size < bytes) then
        (None, [Opened fd, Closed fd])
      else
        case host_mmap host fd bytes of
          None \<Rightarrow> (None, [Opened fd, Closed fd])
        | Some shm \<Rightarrow> (Some shm, [Opened fd, Mapped, Closed fd]))"

definition cubs2_lockstep_host_unmap :: "'p lockstep_shared option \<Rightarrow> host_call list" where
  "cubs2_lockstep_host_unmap mapping = (case mapping of None \<Rightarrow> [] | Some _ \<Rightarrow> [Unmapped])"

section \<open>The exchange\<close>

text \<open>
  \<open>cubs2_lockstep_start\<close>: its return code, what \<open>g_shared\<close> points to after it, and the host
  calls. The environment variable is \<open>None\<close> when it is not set; \<open>sequence_init\<close> is the
  return code of the sequencing module, \<open>zeros\<close> are the zero payloads.
\<close>

definition cubs2_lockstep_start ::
  "bool \<Rightarrow> lockstep_board \<Rightarrow> 'p lockstep_host \<Rightarrow> nat \<Rightarrow> string option \<Rightarrow>
   odometry_data \<times> 'p \<times> attitude_command \<Rightarrow> ('p lockstep_shared option \<Rightarrow> code) \<Rightarrow>
   'p lockstep_shared option \<Rightarrow> code \<times> 'p lockstep_shared option \<times> host_call list" where
  "cubs2_lockstep_start transport board host bytes path zeros sequence_init g_shared =
     (if \<not> transport then (None, g_shared, [])
      else case board of
        Native_sim \<Rightarrow>
          if path = None \<or> path = Some '''' then (None, g_shared, [])
          else
            let (mapping, calls) = cubs2_lockstep_host_map host (the path) bytes in
            (case mapping of
               None \<Rightarrow> (Some EIO, None, calls)
             | Some shm \<Rightarrow>
                 if magic shm \<noteq> CUBS2_LOCKSTEP_MAGIC then
                   (Some EIO, None, calls @ cubs2_lockstep_host_unmap mapping)
                 else (sequence_init mapping, mapping, calls))
      | Fastdyn_board \<Rightarrow>
          let (odom, pwm, att) = zeros;
              shm = \<lparr>magic = CUBS2_LOCKSTEP_MAGIC, odometry_sequence = 0, response_sequence = 0,
                     terminate = 0, shm_odometry = odom, shm_pwm = pwm, shm_attitude = att\<rparr>
          in (sequence_init (Some shm), Some shm, [])
      | Other_board \<Rightarrow> (sequence_init g_shared, g_shared, []))"

definition cubs2_lockstep_enabled :: "'p lockstep_shared option \<Rightarrow> bool" where
  "cubs2_lockstep_enabled g_shared \<longleftrightarrow> g_shared \<noteq> None"

text \<open>
  Receive and send. \<open>wait_rc\<close> is the result of the wait; a result \<open>None\<close> is the process
  exit of the native simulator, which does not return. The receiver's message is returned
  with the code.
\<close>

definition cubs2_lockstep_receive ::
  "bool \<Rightarrow> lockstep_board \<Rightarrow> code \<Rightarrow> 'p lockstep_shared \<Rightarrow> odometry_data \<Rightarrow>
   (code \<times> odometry_data) option" where
  "cubs2_lockstep_receive transport board wait_rc shm odometry =
     (if \<not> transport then Some (Some ENOTSUP, odometry)
      else if wait_rc = Some ECANCELED then
        (if board = Native_sim then None else Some (wait_rc, odometry))
      else if wait_rc \<noteq> None then Some (wait_rc, odometry)
      else Some (None, shm_odometry shm))"

definition cubs2_lockstep_send ::
  "bool \<Rightarrow> ('p lockstep_shared \<Rightarrow> 'p lockstep_shared) \<Rightarrow> 'p \<Rightarrow> attitude_command \<Rightarrow>
   'p lockstep_shared \<Rightarrow> code \<times> 'p lockstep_shared" where
  "cubs2_lockstep_send transport respond pwm attitude shm =
     (if \<not> transport then (Some ENOTSUP, shm)
      else (None, respond (shm\<lparr>shm_pwm := pwm, shm_attitude := attitude\<rparr>)))"

section \<open>Facts\<close>

text \<open>
  C30 A start on the native simulator either leaves the exchange disabled, or fails with
  \<open>-EIO\<close> and keeps no mapping, or uses a mapping of a file that is large enough and has the
  magic number; and every file it opens is closed, every mapping it rejects is unmapped.
\<close>

theorem native_start_safe:
  "case cubs2_lockstep_start True Native_sim host bytes path zeros sequence_init None of
     (rc, g, calls) \<Rightarrow>
       (\<exists>fd. calls = [] \<and> g = None \<or>
          calls = [Opened fd, Closed fd] \<and> g = None \<or>
          calls = [Opened fd, Mapped, Closed fd, Unmapped] \<and> g = None \<or>
          calls = [Opened fd, Mapped, Closed fd] \<and> g \<noteq> None) \<and>
       (case g of
          None \<Rightarrow> rc = (if path = None \<or> path = Some '''' then None else Some EIO)
        | Some shm \<Rightarrow> magic shm = CUBS2_LOCKSTEP_MAGIC \<and> rc = sequence_init g \<and>
            (\<exists>st. host_fstat host (host_open host (the path)) = Some st \<and> bytes \<le> st))"
  by (auto simp: cubs2_lockstep_start_def cubs2_lockstep_host_map_def cubs2_lockstep_host_unmap_def
      Let_def split: option.splits if_splits)

text \<open>A receive that fails returns its error and leaves the caller's odometry as it was.\<close>

theorem receive_failure_keeps_message:
  "case cubs2_lockstep_receive transport board wait_rc shm odometry of
     None \<Rightarrow> transport \<and> board = Native_sim \<and> wait_rc = Some ECANCELED
   | Some (rc, odometry') \<Rightarrow>
       if transport \<and> wait_rc = None then rc = None \<and> odometry' = shm_odometry shm
       else rc \<noteq> None \<and> odometry' = odometry"
  by (auto simp: cubs2_lockstep_receive_def)

end
