(* ===== verification/Atomic_Double.thy ===== *)
theory Atomic_Double
  imports Shared_State
begin

text \<open>
  \<open>struct atomic_double\<close> of \<open>src/runtime_control.c\<close>: a double as two atomic 32-bit words
  guarded by a sequence counter, with its three operations. The main facts: alone, a store
  followed by a load returns the value stored; among the stores of another thread a load
  returns nothing or a value that was stored as a whole, never one half of each; and both
  operations end after a fixed number of their own steps, so neither thread ever waits.
\<close>

section \<open>The operations\<close>

definition atomic_double_init_value :: "slot \<Rightarrow> f64 \<Rightarrow> shared \<Rightarrow> shared" where
  "atomic_double_init_value s value =
     put_slot s \<lparr>sequence = 0, low = low_half value, high = high_half value\<rparr>"

text \<open>The atomic operations on the members of the slot \<open>s\<close> points at.\<close>

definition fetch_add_sequence :: "slot \<Rightarrow> shared \<Rightarrow> u32 \<times> shared" where
  "fetch_add_sequence s m =
     (sequence (get_slot s m), put_slot s ((get_slot s m)\<lparr>sequence := sequence (get_slot s m) + 1\<rparr>) m)"

definition store_low :: "slot \<Rightarrow> u32 \<Rightarrow> shared \<Rightarrow> shared" where
  "store_low s v m = put_slot s ((get_slot s m)\<lparr>low := v\<rparr>) m"

definition store_high :: "slot \<Rightarrow> u32 \<Rightarrow> shared \<Rightarrow> shared" where
  "store_high s v m = put_slot s ((get_slot s m)\<lparr>high := v\<rparr>) m"

definition atomic_double_store_value :: "slot \<Rightarrow> f64 \<Rightarrow> (shared, unit) prog" where
  "atomic_double_store_value s value =
     pbind (atomic (fetch_add_sequence s)) (\<lambda>_.
     pbind (atomic_do (store_low s (low_half value))) (\<lambda>_.
     pbind (atomic_do (store_high s (high_half value))) (\<lambda>_.
     pbind (atomic (fetch_add_sequence s)) (\<lambda>_.
     Ret ()))))"

text \<open>The loop over the attempts; \<open>continue\<close> goes on with one attempt less.\<close>

fun try_load_attempts :: "nat \<Rightarrow> slot \<Rightarrow> (shared, f64 option) prog" where
  "try_load_attempts 0 s = Ret None"
| "try_load_attempts (Suc attempts) s =
     pbind (atomic (\<lambda>m. (sequence (get_slot s m), m))) (\<lambda>before.
     if before AND 1 \<noteq> 0 then try_load_attempts attempts s
     else
       pbind (atomic (\<lambda>m. (low (get_slot s m), m))) (\<lambda>lo.
       pbind (atomic (\<lambda>m. (high (get_slot s m), m))) (\<lambda>hi.
       pbind (atomic (\<lambda>m. (sequence (get_slot s m), m))) (\<lambda>after.
       if before \<noteq> after \<or> after AND 1 \<noteq> 0 then try_load_attempts attempts s
       else Ret (Some (join_halves hi lo))))))"

definition atomic_double_try_load :: "slot \<Rightarrow> (shared, f64 option) prog" where
  "atomic_double_try_load s = try_load_attempts 3 s"

section \<open>Alone\<close>

definition slot_value :: "atomic_double \<Rightarrow> f64" where
  "slot_value d = join_halves (high d) (low d)"

definition slot_holds :: "slot \<Rightarrow> f64 \<Rightarrow> shared \<Rightarrow> bool" where
  "slot_holds s v m \<longleftrightarrow> even (sequence (get_slot s m)) \<and> slot_value (get_slot s m) = v"

lemma slot_value_split [simp]:
  "slot_value \<lparr>sequence = q, low = low_half v, high = high_half v\<rparr> = v"
  by (simp add: slot_value_def)

text \<open>What a whole store leaves in a slot.\<close>

definition stored :: "f64 \<Rightarrow> atomic_double \<Rightarrow> atomic_double" where
  "stored v d = \<lparr>sequence = sequence d + 2, low = low_half v, high = high_half v\<rparr>"

lemma stored_simps [simp]:
  "slot_value (stored v d) = v" "even (sequence (stored v d)) \<longleftrightarrow> even (sequence d)"
  by (simp_all add: stored_def slot_value_def)

lemma run_store [run_simps]:
  "run (atomic_double_store_value s v) m = ((), put_slot s (stored v (get_slot s m)) m)"
  by (simp add: stored_def atomic_double_store_value_def run_bind run_atomic run_atomic_do
      fetch_add_sequence_def store_low_def store_high_def)
     (cases "get_slot s m", simp add: add.commute)

lemma run_try_load_attempts:
  "run (try_load_attempts (Suc n) s) m =
     (if even (sequence (get_slot s m)) then Some (slot_value (get_slot s m)) else None, m)"
proof (cases "even (sequence (get_slot s m))")
  case True
  then show ?thesis by (simp add: run_bind run_atomic slot_value_def)
next
  case False
  then show ?thesis by (induction n) (simp_all add: run_bind run_atomic)
qed

lemma run_try_load [run_simps]:
  "run (atomic_double_try_load s) m =
     (if even (sequence (get_slot s m)) then Some (slot_value (get_slot s m)) else None, m)"
  unfolding atomic_double_try_load_def by (simp only: numeral_3_eq_3 run_try_load_attempts)

lemma run_bind_store [run_simps]:
  "run (pbind (atomic_double_store_value s v) h) m = run (h ()) (put_slot s (stored v (get_slot s m)) m)"
  by (simp add: run_bind run_store)

lemma run_bind_try_load [run_simps]:
  "run (pbind (atomic_double_try_load s) h) m =
     run (h (if even (sequence (get_slot s m)) then Some (slot_value (get_slot s m)) else None)) m"
  by (simp add: run_bind run_try_load)

lemma init_holds: "slot_holds s v (atomic_double_init_value s v m)"
  by (simp add: slot_holds_def atomic_double_init_value_def)

lemma store_holds:
  "run (atomic_double_store_value s v) m = (u, m') \<Longrightarrow> even (sequence (get_slot s m)) \<Longrightarrow>
   slot_holds s v m'"
  by (auto simp: run_store slot_holds_def)

lemma try_load_holds: "slot_holds s v m \<Longrightarrow> run (atomic_double_try_load s) m = (Some v, m)"
  by (simp add: run_try_load slot_holds_def)

section \<open>Bounded number of steps\<close>

lemma within_store: "returns_within (atomic_double_store_value s v) 4"
proof -
  have "returns_within (atomic_double_store_value s v) (1 + (1 + (1 + (1 + 0))))"
    unfolding atomic_double_store_value_def by (intro within_bind) auto
  then show ?thesis by (rule within_mono) simp
qed

lemma within_try_load_attempts: "returns_within (try_load_attempts n s) (4 * n)"
proof (induction n)
  case (Suc n)
  have *: "returns_within (try_load_attempts n s) (1 + (1 + (1 + 4 * n)))"
    by (rule within_mono [OF Suc]) simp
  have "returns_within (try_load_attempts (Suc n) s) (1 + (1 + (1 + (1 + 4 * n))))"
    unfolding try_load_attempts.simps
    by (rule within_bind, simp, split if_split, intro conjI impI)
       (rule *, (rule within_bind, simp)+, simp add: Suc)
  then show ?case by (rule within_mono) simp
qed simp

lemma within_try_load: "returns_within (atomic_double_try_load s) 12"
  using within_try_load_attempts [of 3 s] by (simp add: atomic_double_try_load_def)

section \<open>Among the stores of another thread\<close>

text \<open>What a thread that stores to slot \<open>s\<close> may do to it in one step.\<close>

definition slot_change :: "atomic_double \<Rightarrow> atomic_double \<Rightarrow> bool" where
  "slot_change d d' \<longleftrightarrow>
     sequence d' = sequence d + 1 \<and> low d' = low d \<and> high d' = high d \<or>
     sequence d' = sequence d \<and> (low d' = low d \<and> high d' = high d \<or> odd (sequence d))"

definition slot_step :: "slot \<Rightarrow> shared \<Rightarrow> shared \<Rightarrow> bool" where
  "slot_step s m m' \<longleftrightarrow> slot_change (get_slot s m) (get_slot s m')"

text \<open>The values in \<open>S\<close> are the only ones the slot holds when its counter is even.\<close>

definition slot_among :: "slot \<Rightarrow> f64 set \<Rightarrow> shared \<Rightarrow> bool" where
  "slot_among s S m \<longleftrightarrow>
     (even (sequence (get_slot s m)) \<longrightarrow> slot_value (get_slot s m) \<in> S)"

interpretation slot_lock: seqlock
  "\<lambda>m. sequence (get_slot s m)" "\<lambda>m. (low (get_slot s m), high (get_slot s m))" "slot_step s"
  for s
  by unfold_locales (auto simp: slot_step_def slot_change_def)

text \<open>
  The two loads of the data, and the load of the counter after them, as a window that
  starts with the load of the counter before them.
\<close>

definition load_words :: "slot \<Rightarrow> (shared, u32 \<times> u32) prog" where
  "load_words s =
     pbind (atomic (\<lambda>m. (low (get_slot s m), m))) (\<lambda>lo.
     pbind (atomic (\<lambda>m. (high (get_slot s m), m))) (\<lambda>hi. Ret (lo, hi)))"

lemma quiet_load_words:
  assumes "exec_env R n (load_words s) m a m'"
    and "\<And>x y. R x y \<Longrightarrow> low (get_slot s y) = low (get_slot s x)"
    and "\<And>x y. R x y \<Longrightarrow> high (get_slot s y) = high (get_slot s x)"
  shows "a = (low (get_slot s m), high (get_slot s m))"
proof -
  have lo: "env_steps R i x y \<Longrightarrow> low (get_slot s y) = low (get_slot s x)" for i x y
    by (induction rule: env_steps.induct) (auto simp: assms(2))
  have hi: "env_steps R i x y \<Longrightarrow> high (get_slot s y) = high (get_slot s x)" for i x y
    by (induction rule: env_steps.induct) (auto simp: assms(3))
  from assms(1) show ?thesis
    unfolding load_words_def
    by (auto dest!: exec_env_bindD exec_env_load exec_env_RetD simp: lo hi)
qed

lemma try_load_words: "try_load_attempts (Suc n) s =
  pbind (atomic (\<lambda>m. (sequence (get_slot s m), m))) (\<lambda>before.
  if odd before then try_load_attempts n s
  else pbind (load_words s) (\<lambda>(lo, hi).
    pbind (atomic (\<lambda>m. (sequence (get_slot s m), m))) (\<lambda>after.
    if before \<noteq> after \<or> odd after then try_load_attempts n s
    else Ret (Some (join_halves hi lo)))))"
  unfolding load_words_def bind_assoc by (simp add: bind_assoc cong: if_cong)

declare try_load_attempts.simps(2) [simp del]

text \<open>An even counter that is unchanged after the two loads: both belong to one store.\<close>

lemma words_untorn:
  assumes "\<And>x y. R x y \<Longrightarrow> slot_step s x y" and "env_steps R i m m1"
    and "exec_env R j (load_words s) m1 w m2" and "env_steps R l m2 m'"
    and "even (sequence (get_slot s m))" and "sequence (get_slot s m') = sequence (get_slot s m)"
    and "i + j + l < 2 ^ 32"
  shows "w = (low (get_slot s m), high (get_slot s m))"
proof -
  have "exec_env R (i + j + l) (load_words s) m w m'"
    by (rule exec_env_suffix [OF exec_env_prefix [OF assms(2,3)] assms(4)])
  then have "exec_env (slot_step s) (i + j + l) (load_words s) m w m'"
    by (rule exec_env_mono) (rule assms(1))
  then have "exec_env (\<lambda>x y. slot_step s x y \<and> sequence (get_slot s y) = sequence (get_slot s x) \<and>
      (low (get_slot s y), high (get_slot s y)) = (low (get_slot s x), high (get_slot s x)))
    (i + j + l) (load_words s) m w m'"
    by (rule slot_lock.quiet_window)
       (use assms(5-7) in \<open>auto simp: load_words_def intro!: steps_in_bind\<close>)
  then show ?thesis by (rule quiet_load_words) auto
qed

text \<open>A load that succeeds returns a value the slot held, as a whole, with an even counter.\<close>

lemma try_load_attempts_among:
  assumes step: "\<And>x y. R x y \<Longrightarrow> slot_step s x y"
    and among: "\<And>x y. R x y \<Longrightarrow> slot_among s S x \<Longrightarrow> slot_among s S y"
  shows "exec_env R n (try_load_attempts k s) m (Some v) m' \<Longrightarrow> n < 2 ^ 32 \<Longrightarrow>
    slot_among s S m \<Longrightarrow> v \<in> S"
proof (induction k arbitrary: n m)
  case 0
  then show ?case by (auto dest: exec_env_RetD)
next
  case (Suc k)
  let ?seq = "\<lambda>m. sequence (get_slot s m)"
  have env: "env_steps R i x y \<Longrightarrow> slot_among s S x \<Longrightarrow> slot_among s S y" for i x y
    by (erule env_steps_invariant) (use among in blast)
  from Suc.prems(1) obtain i j l ma m1 where n: "n = i + j + l"
    and ma: "env_steps R i m ma" "env_steps R j ma m1"
    and rest: "exec_env R l (if odd (?seq ma) then try_load_attempts k s
      else pbind (load_words s) (\<lambda>(lo, hi).
        pbind (atomic (\<lambda>m. (?seq m, m))) (\<lambda>after.
        if ?seq ma \<noteq> after \<or> odd after then try_load_attempts k s
        else Ret (Some (join_halves hi lo))))) m1 (Some v) m'"
    unfolding try_load_words by (rule exec_env_loadE)
  have am: "slot_among s S ma" "slot_among s S m1" using env ma Suc.prems(3) by blast+
  show ?case
  proof (cases "odd (?seq ma)")
    case True
    with rest am(2) n Suc.prems(2) show ?thesis by (auto intro: Suc.IH)
  next
    case False
    with rest obtain j1 j2 lo hi m2 where l: "l = j1 + j2"
      and words: "exec_env R j1 (load_words s) m1 (lo, hi) m2"
      and rest2: "exec_env R j2 (pbind (atomic (\<lambda>m. (?seq m, m))) (\<lambda>after.
        if ?seq ma \<noteq> after \<or> odd after then try_load_attempts k s
        else Ret (Some (join_halves hi lo)))) m2 (Some v) m'"
      by (auto elim!: exec_env_bindE [where p = "load_words s"])
    from rest2 obtain i3 i4 j4 mb m3 where j2: "j2 = i3 + i4 + j4"
      and mb: "env_steps R i3 m2 mb" "env_steps R i4 mb m3"
      and rest3: "exec_env R j4 (if ?seq ma \<noteq> ?seq mb \<or> odd (?seq mb) then try_load_attempts k s
        else Ret (Some (join_halves hi lo))) m3 (Some v) m'"
      by (rule exec_env_loadE)
    have "slot_among s S m2"
      by (rule exec_env_invariant [where I = "slot_among s S", OF words among _ am(2)])
         (auto simp: load_words_def intro!: steps_in_bind)
    then have am3: "slot_among s S m3" using env mb by blast
    have small: "j + j1 + i3 < 2 ^ 32" using n l j2 Suc.prems(2) by simp
    show ?thesis
    proof (cases "?seq ma \<noteq> ?seq mb \<or> odd (?seq mb)")
      case True
      with am3 rest3 n l j2 Suc.prems(2) show ?thesis by (auto intro: Suc.IH)
    next
      case same: False
      have "(lo, hi) = (low (get_slot s ma), high (get_slot s ma))"
        by (rule words_untorn [OF _ ma(2) words mb(1) _ _ small])
           (use step False same in simp_all)
      with rest3 same am(1) False show ?thesis
        by (auto dest!: exec_env_RetD simp: slot_among_def slot_value_def)
    qed
  qed
qed

lemma try_load_among:
  assumes "\<And>x y. R x y \<Longrightarrow> slot_step s x y"
    and "\<And>x y. R x y \<Longrightarrow> slot_among s S x \<Longrightarrow> slot_among s S y"
    and "exec_env R n (atomic_double_try_load s) m (Some v) m'" and "n < 2 ^ 32"
    and "slot_among s S m"
  shows "v \<in> S"
  by (rule try_load_attempts_among [where k = 3, OF assms(1,2) _ assms(4,5)])
     (use assms(3) in \<open>simp_all only: atomic_double_try_load_def\<close>)

text \<open>A load only reads.\<close>

lemma silent_try_load [simp]: "silent view (atomic_double_try_load s)"
proof -
  have "silent view (try_load_attempts k s)" for k
  proof (induction k)
    case (Suc k)
    then show ?case
      unfolding try_load_attempts.simps
      by (intro steps_in_bind steps_in_if) simp_all
  qed simp
  then show ?thesis by (simp add: atomic_double_try_load_def)
qed

section \<open>The writer's side\<close>

text \<open>
  A store in an environment that leaves its slot alone: each of its steps changes only the
  slot, in the allowed ways, and at the end the slot holds the value. \<open>P\<close> is whatever else
  the writer relies on.
\<close>

lemma keeps_store [writer_intros]:
  assumes own: "\<And>x y. R x y \<Longrightarrow> get_slot s y = get_slot s x"
    and P: "kept_by R P" "\<And>x d. P x \<Longrightarrow> P (put_slot s d x)"
    and G: "\<And>x d. P x \<Longrightarrow> slot_change (get_slot s x) d \<Longrightarrow>
      (even (sequence d) \<Longrightarrow> slot_value d = v) \<Longrightarrow> G x (put_slot s d x)"
    and m: "P m" "even (sequence (get_slot s m))"
  shows "keeps R G (\<lambda>_ x. P x \<and> slot_holds s v x) (atomic_double_store_value s v) m"
proof -
  have kept: "kept_by R (\<lambda>x. P x \<and> H (get_slot s x))" for H
    using P(1) own by (auto simp: kept_by_def)
  let ?A = "\<lambda>x. P x \<and> even (sequence (get_slot s x))"
  let ?B = "\<lambda>x. P x \<and> odd (sequence (get_slot s x))"
  let ?C = "\<lambda>x. P x \<and> (odd (sequence (get_slot s x)) \<and> low (get_slot s x) = low_half v)"
  let ?D = "\<lambda>x. P x \<and> (odd (sequence (get_slot s x)) \<and> low (get_slot s x) = low_half v \<and>
    high (get_slot s x) = high_half v)"
  let ?E = "\<lambda>x. P x \<and> (even (sequence (get_slot s x)) \<and> slot_value (get_slot s x) = v)"
  have "keeps R G (\<lambda>_. ?B) (atomic (fetch_add_sequence s)) m"
    by (rule keeps_atomicI [where P = ?A])
       (use m in \<open>auto simp: fetch_add_sequence_def slot_change_def intro!: kept G P(2)\<close>)
  moreover have "keeps R G (\<lambda>_. ?C) (atomic_do (store_low s (low_half v))) x" if "?B x" for x
    by (rule keeps_atomic_doI [where P = ?B])
       (use that in \<open>auto simp: store_low_def slot_change_def intro!: kept G P(2)\<close>)
  moreover have "keeps R G (\<lambda>_. ?D) (atomic_do (store_high s (high_half v))) x" if "?C x" for x
    by (rule keeps_atomic_doI [where P = ?C])
       (use that in \<open>auto simp: store_high_def slot_change_def intro!: kept G P(2)\<close>)
  moreover have "keeps R G (\<lambda>_. ?E) (atomic (fetch_add_sequence s)) x" if "?D x" for x
    by (rule keeps_atomicI [where P = ?D])
       (use that in \<open>auto simp: fetch_add_sequence_def slot_change_def slot_value_def
          intro!: kept G P(2)\<close>)
  moreover have "keeps R G (\<lambda>_. ?E) (Ret ()) x" if "?E x" for x
    by (rule keeps_RetI) (use that in \<open>auto intro!: kept\<close>)
  ultimately show ?thesis
    unfolding atomic_double_store_value_def slot_holds_def by (blast intro: keeps_bind)
qed

text \<open>A thread that stores a list of values to one slot, one after the other.\<close>

definition store_all :: "slot \<Rightarrow> f64 list \<Rightarrow> (shared, unit) prog" where
  "store_all s vs = for_each vs (\<lambda>v _. atomic_double_store_value s v) ()"

lemma keeps_store_all:
  assumes "set vs \<subseteq> S" and "slot_holds s v0 m" and "v0 \<in> S"
  shows "keeps (\<lambda>x y. get_slot s y = get_slot s x)
    (\<lambda>x y. slot_step s x y \<and> (slot_among s S x \<longrightarrow> slot_among s S y))
    (\<lambda>_ x. \<exists>v \<in> S. slot_holds s v x) (store_all s vs) m"
  unfolding store_all_def
proof (rule keeps_for_each [where I = "\<lambda>_ x. \<exists>v \<in> S. slot_holds s v x"])
  fix v u m
  assume v: "v \<in> set vs" and m: "\<exists>v \<in> S. slot_holds s v m"
  show "keeps (\<lambda>x y. get_slot s y = get_slot s x)
    (\<lambda>x y. slot_step s x y \<and> (slot_among s S x \<longrightarrow> slot_among s S y))
    (\<lambda>_ x. \<exists>v \<in> S. slot_holds s v x) (atomic_double_store_value s v) m"
  proof (rule keeps_post [OF keeps_store [where P = "\<lambda>_. True"]])
    show "even (sequence (get_slot s m))" using m by (auto simp: slot_holds_def)
  qed (use v assms(1) in \<open>auto simp: kept_by_def slot_step_def slot_among_def\<close>)
qed (use assms in \<open>auto simp: slot_holds_def\<close>)

text \<open>C11 The reader of an atomic double never sees a torn value.\<close>

theorem try_load_untorn:
  assumes "interleaved n (atomic_double_try_load s) (store_all s vs) m r w' m'"
    and "slot_holds s v0 m" and "n < 2 ^ 32"
  shows "r = None \<or> (\<exists>v \<in> set (v0 # vs). r = Some v)"
proof (cases r)
  case (Some v)
  let ?S = "set (v0 # vs)"
  let ?G = "\<lambda>x y. slot_step s x y \<and> (slot_among s ?S x \<longrightarrow> slot_among s ?S y)"
  have "exec_env ?G n (atomic_double_try_load s) m r m'"
    using interleaved_exec_env [OF assms(1) silent_try_load keeps_store_all [OF _ assms(2)]]
    by auto
  then have "v \<in> ?S" unfolding Some
    by (rule try_load_among [rotated 2])
       (use assms(2,3) in \<open>auto simp: slot_among_def slot_holds_def\<close>)
  with Some show ?thesis by simp
qed simp

text \<open>The writer has made its first step when the reader comes, and the reader gives up.\<close>

theorem try_load_untorn_witness:
  "\<exists>m r w' m'. interleaved 1 (atomic_double_try_load (Live_value 0))
       (store_all (Live_value 0) [0x3FF0000000000000]) m r w' m' \<and>
     (r = None \<or> (\<exists>v \<in> set [0, 0x3FF0000000000000]. r = Some v))"
proof -
  let ?m = "atomic_double_init_value (Live_value 0) 0 undefined"
  obtain f k where w: "store_all (Live_value 0) [0x3FF0000000000000] = Step f k"
    by (simp add: store_all_def atomic_double_store_value_def atomic_def)
  obtain r m' where "run (atomic_double_try_load (Live_value 0)) (snd (f ?m)) = (r, m')"
    by (cases "run (atomic_double_try_load (Live_value 0)) (snd (f ?m))")
  from interleaved_one_step [where f = f and m = ?m and k = k, OF this] have *:
    "interleaved 1 (atomic_double_try_load (Live_value 0))
      (store_all (Live_value 0) [0x3FF0000000000000]) ?m r (k (fst (f ?m))) m'"
    by (simp add: w)
  from try_load_untorn [OF * init_holds] have "r = None \<or> (\<exists>v \<in> set [0, 0x3FF0000000000000]. r = Some v)"
    by simp
  with * show ?thesis by blast
qed

end
