(* ===== verification/Services.thy ===== *)
theory Services
  imports Atomic_Double Route Messages
begin

text \<open>
  The three services of \<open>src/runtime_control.c\<close> (\<open>cmd/param_set\<close>, \<open>cmd/param_get\<close> and
  \<open>cmd/trajectory_set\<close>) as programs of atomic steps on the shared state, with the dispatch
  \<open>runtime_query\<close> and the initialisation. A request is \<open>None\<close> for a NULL pointer; a result
  is the reply, or \<open>None\<close> for \<open>false\<close>.
\<close>

section \<open>The atomics of the services\<close>

definition test_and_set_writer :: "shared \<Rightarrow> u32 \<times> shared" where
  "test_and_set_writer m = (of_bool (command_writer m), m\<lparr>command_writer := True\<rparr>)"

definition clear_writer :: "shared \<Rightarrow> shared" where
  "clear_writer m = m\<lparr>command_writer := False\<rparr>"

definition set_value_pending :: "nat \<Rightarrow> shared \<Rightarrow> shared" where
  "set_value_pending i m = m\<lparr>pending_value_set := (pending_value_set m)(i := True)\<rparr>"

definition set_mission_pending :: "shared \<Rightarrow> shared" where
  "set_mission_pending m = m\<lparr>pending_mission := True\<rparr>"

definition fetch_add_mission :: "shared \<Rightarrow> u32 \<times> shared" where
  "fetch_add_mission m = (mission_sequence m, m\<lparr>mission_sequence := mission_sequence m + 1\<rparr>)"

definition store_segments :: "u32 \<Rightarrow> shared \<Rightarrow> shared" where
  "store_segments n m = m\<lparr>pending_segments := n\<rparr>"

definition store_plan_version :: "u32 \<Rightarrow> shared \<Rightarrow> shared" where
  "store_plan_version v m = m\<lparr>plan_version := v\<rparr>"

lemmas service_atomics = test_and_set_writer_def clear_writer_def set_value_pending_def
  set_mission_pending_def fetch_add_mission_def store_segments_def store_plan_version_def

definition current_plan_version :: "(shared, u32) prog" where
  "current_plan_version = atomic (\<lambda>m. (plan_version m, m))"

section \<open>Parameters\<close>

text \<open>The part of a handler before its first atomic: a rejection, or the arguments.\<close>

definition handle_param_set ::
  "('r, 'v) set_reader \<Rightarrow> 'b builder \<Rightarrow> bytes option \<Rightarrow> nat \<Rightarrow> (shared, bytes option) prog" where
  "handle_param_set rd fb request capacity =
     (let invalid = Ret (build_param_set_reply fb capacity Failed (Some '''') 0 (- 1)) in
      case request of
        None \<Rightarrow> invalid
      | Some req \<Rightarrow>
        if \<not> set_verify rd req then invalid
        else case set_root rd req of
          None \<Rightarrow> invalid
        | Some req_root \<Rightarrow> (case set_value rd req_root of
            None \<Rightarrow> invalid
          | Some value \<Rightarrow> (case value_name rd value of
              None \<Rightarrow> invalid
            | Some nm \<Rightarrow>
              if value_kind rd value \<noteq> Kind_Float then invalid
              else
                let number = value_float rd value; index = find_value nm in
                if index < 0 then
                  Ret (build_param_set_reply fb capacity Unsupported (Some nm) number (- 2))
                else if \<not> isfinite64 number then
                  Ret (build_param_set_reply fb capacity Denied (Some nm) number (- 3))
                else
                  pbind (atomic test_and_set_writer) (\<lambda>busy.
                  if busy \<noteq> 0 then
                    Ret (build_param_set_reply fb capacity TemporarilyRejected (Some nm) number (- 4))
                  else
                    pbind (atomic_double_store_value (Pending_value (nat index)) number) (\<lambda>_.
                    pbind (atomic_do (set_value_pending (nat index))) (\<lambda>_.
                    pbind (atomic_do clear_writer) (\<lambda>_.
                    Ret (build_param_set_reply fb capacity Accepted (Some nm) number 0))))))))"

definition handle_param_get ::
  "'r get_reader \<Rightarrow> 'b builder \<Rightarrow> bytes option \<Rightarrow> nat \<Rightarrow> (shared, bytes option) prog" where
  "handle_param_get rd fb request capacity =
     (let invalid = Ret (build_param_get_reply fb capacity Failed '''' 0 (- 1)) in
      case request of
        None \<Rightarrow> invalid
      | Some req \<Rightarrow>
        if \<not> get_verify rd req then invalid
        else case get_root rd req of
          None \<Rightarrow> invalid
        | Some req_root \<Rightarrow> (case get_name rd req_root of
            None \<Rightarrow> invalid
          | Some nm \<Rightarrow>
            let index = find_value nm in
            if index < 0 then Ret (build_param_get_reply fb capacity Unsupported nm 0 (- 2))
            else
              pbind (atomic_double_try_load (Live_value (nat index))) (\<lambda>number.
              case number of
                None \<Rightarrow> Ret (build_param_get_reply fb capacity TemporarilyRejected nm 0 (- 3))
              | Some v \<Rightarrow> Ret (build_param_get_reply fb capacity Accepted nm v 0))))"

section \<open>Missions\<close>

definition vec3_finite :: "vec3f \<Rightarrow> bool" where
  "vec3_finite p \<longleftrightarrow> isfinite32 (vec_x p) \<and> isfinite32 (vec_y p) \<and> isfinite32 (vec_z p)"

text \<open>A point of the message (floats) as a row of the waypoint array (doubles).\<close>

definition point_row :: "vec3f \<Rightarrow> (nat \<Rightarrow> f64) \<Rightarrow> nat \<Rightarrow> f64" where
  "point_row p old =
     old(0 := f64_of_f32 (vec_x p), 1 := f64_of_f32 (vec_y p), 2 := f64_of_f32 (vec_z p))"

definition segment_ok :: "segment_data \<Rightarrow> nat \<Rightarrow> bool" where
  "segment_ok segment i \<longleftrightarrow> segment_seq segment = i \<and> frame segment = LocalEnu \<and>
     vec3_finite (p0_enu_m segment) \<and> vec3_finite (p1_enu_m segment)"

text \<open>The loop over the segments: the index it fails at, or the waypoints of the mission.\<close>

fun collect_waypoints ::
  "(nat \<Rightarrow> segment_data) \<Rightarrow> nat list \<Rightarrow> (nat \<Rightarrow> nat \<Rightarrow> f64) \<Rightarrow> nat + (nat \<Rightarrow> nat \<Rightarrow> f64)" where
  "collect_waypoints segment_at [] waypoints = Inr waypoints"
| "collect_waypoints segment_at (i # is) waypoints =
     (let segment = segment_at i in
      if \<not> segment_ok segment i then Inl i
      else
        let waypoints =
              (if i = 0 then waypoints(0 := point_row (p0_enu_m segment) (waypoints 0))
               else waypoints) in
        collect_waypoints segment_at is
          (waypoints(i + 1 := point_row (p1_enu_m segment) (waypoints (i + 1)))))"

text \<open>The stores of the staged waypoints, row by row.\<close>

definition store_waypoints :: "(nat \<Rightarrow> nat \<Rightarrow> f64) \<Rightarrow> (shared, unit) prog" where
  "store_waypoints waypoints =
     for_each [0..<MAX_POINTS] (\<lambda>row.
       for_each [0..<3] (\<lambda>column _.
         atomic_double_store_value (Pending_waypoint row column) (waypoints row column))) ()"

definition next_version :: "u32 \<Rightarrow> u32" where
  "next_version v = (let v = v + 1 in if v = 0 then 1 else v)"

text \<open>The part of \<open>handle_trajectory_set\<close> from its first access to the writer flag.\<close>

definition stage_mission ::
  "'b builder \<Rightarrow> nat \<Rightarrow> u32 \<Rightarrow> (nat \<Rightarrow> nat \<Rightarrow> f64) \<Rightarrow> nat \<Rightarrow> (shared, bytes option) prog" where
  "stage_mission fb capacity expected waypoints count =
     pbind (atomic test_and_set_writer) (\<lambda>busy.
     if busy \<noteq> 0 then
       pbind current_plan_version (\<lambda>version.
       Ret (build_trajectory_reply fb capacity TemporarilyRejected version (- 5) 0))
     else
       pbind current_plan_version (\<lambda>version.
       if expected \<noteq> 0 \<and> expected \<noteq> version then
         pbind (atomic_do clear_writer) (\<lambda>_.
         Ret (build_trajectory_reply fb capacity TemporarilyRejected version (- 4) 0))
       else
         pbind (atomic fetch_add_mission) (\<lambda>_.
         pbind (store_waypoints waypoints) (\<lambda>_.
         pbind (atomic_do (store_segments (of_nat count))) (\<lambda>_.
         pbind (atomic fetch_add_mission) (\<lambda>_.
         pbind (atomic_do set_mission_pending) (\<lambda>_.
         pbind (atomic_do (store_plan_version (next_version version))) (\<lambda>_.
         pbind (atomic_do clear_writer) (\<lambda>_.
         Ret (build_trajectory_reply fb capacity Accepted (next_version version) 0 0))))))))))"

definition handle_trajectory_set ::
  "('r, 's) trajectory_reader \<Rightarrow> 'b builder \<Rightarrow> bytes option \<Rightarrow> nat \<Rightarrow> (shared, bytes option) prog"
  where
  "handle_trajectory_set rd fb request capacity =
     (let reject = (\<lambda>result detail failed_seq.
            pbind current_plan_version (\<lambda>version.
            Ret (build_trajectory_reply fb capacity result version detail failed_seq)))
      in case request of
        None \<Rightarrow> reject Failed (- 1) 0
      | Some req \<Rightarrow>
        if \<not> trajectory_verify rd req then reject Failed (- 1) 0
        else case trajectory_root rd req of
          None \<Rightarrow> reject Failed (- 1) 0
        | Some req_root \<Rightarrow> (case trajectory_segments rd req_root of
            None \<Rightarrow> reject Failed (- 1) 0
          | Some segments \<Rightarrow>
            let count = segments_len rd segments in
            if count = 0 \<or> count > MAX_SEGMENTS \<or> trajectory_total rd req_root \<noteq> count then
              reject Denied (- 2) 0
            else case collect_waypoints (segments_at rd segments) [0..<count] (\<lambda>_ _. 0) of
              Inl i \<Rightarrow> reject Denied (- 3) (of_nat i)
            | Inr waypoints \<Rightarrow>
              stage_mission fb capacity (expected_plan_version rd req_root) waypoints count))"

section \<open>Dispatch and initialisation\<close>

text \<open>The external interfaces of the three services together.\<close>

record ('r, 'v, 'g, 't, 's, 'b) synapse =
  set_reader :: "('r, 'v) set_reader"
  get_reader :: "'g get_reader"
  trajectory_reader :: "('t, 's) trajectory_reader"
  builder :: "'b builder"

definition runtime_query ::
  "('r, 'v, 'g, 't, 's, 'b) synapse \<Rightarrow> string \<Rightarrow> bytes option \<Rightarrow> nat \<Rightarrow> (shared, bytes option) prog"
  where
  "runtime_query syn service request capacity =
     (if service = ''param_set'' then
        handle_param_set (set_reader syn) (builder syn) request capacity
      else if service = ''param_get'' then
        handle_param_get (get_reader syn) (builder syn) request capacity
      else if service = ''trajectory_set'' then
        handle_trajectory_set (trajectory_reader syn) (builder syn) request capacity
      else Ret None)"

text \<open>
  The initial values of the shared members: one slot per index and both arrays, the flags
  and counters zero. \<open>leaf model\<close> at an entry's member is the source's read through
  \<open>live_offset\<close>. The registration of a queryable is a parameter; the source registers the
  next one only if the one before succeeded.
\<close>

definition zero_slot :: atomic_double where
  "zero_slot = \<lparr>sequence = 0, low = 0, high = 0\<rparr>"

definition zero_shared :: shared where
  "zero_shared = \<lparr>plan_version = 0, command_writer = False, pending_mission = False,
     mission_sequence = 0, pending_values = (\<lambda>_. zero_slot), pending_value_set = (\<lambda>_. False),
     live_values = (\<lambda>_. zero_slot), pending_waypoints = (\<lambda>_ _. zero_slot), pending_segments = 0\<rparr>"

definition zero_applied :: applied where
  "zero_applied = \<lparr>applied_values = (\<lambda>_. 0), applied_value_set = (\<lambda>_. False),
     applied_waypoints = (\<lambda>_ _. 0), applied_segments = 0, applied_mission = False\<rparr>"

definition init_value_slots :: "'z outer_loop_scheme \<Rightarrow> nat \<Rightarrow> shared \<Rightarrow> shared" where
  "init_value_slots model i m =
     (let value = (if i < length value_table then leaf model (live_member (value_table ! i)) else 0);
          m = atomic_double_init_value (Pending_value i) value m;
          m = atomic_double_init_value (Live_value i) value m
      in m\<lparr>pending_value_set := (pending_value_set m)(i := False)\<rparr>)"

definition init_waypoint_slots :: "'z outer_loop_scheme \<Rightarrow> nat \<Rightarrow> nat \<Rightarrow> shared \<Rightarrow> shared" where
  "init_waypoint_slots model row column =
     atomic_double_init_value (Pending_waypoint row column) (route_waypoints model row column)"

fun register_all :: "(string \<Rightarrow> string \<Rightarrow> 'e \<Rightarrow> bool \<times> 'e) \<Rightarrow> (string \<times> string) list \<Rightarrow> 'e \<Rightarrow> bool \<times> 'e" where
  "register_all register [] env = (True, env)"
| "register_all register ((key, service) # rest) env =
     (let (ok, env) = register key service env
      in if ok then register_all register rest env else (False, env))"

definition queryables :: "(string \<times> string) list" where
  "queryables = [(''cmd/param_set'', ''param_set''), (''cmd/param_get'', ''param_get''),
     (''cmd/trajectory_set'', ''trajectory_set'')]"

definition cubs2_runtime_control_init ::
  "(string \<Rightarrow> string \<Rightarrow> 'e \<Rightarrow> bool \<times> 'e) \<Rightarrow> 'z outer_loop_scheme option \<Rightarrow> shared \<times> applied \<Rightarrow> 'e \<Rightarrow>
   bool \<times> (shared \<times> applied) \<times> 'e" where
  "cubs2_runtime_control_init register model g env =
     (case model of
        None \<Rightarrow> (False, g, env)
      | Some model \<Rightarrow>
        let m = zero_shared\<lparr>plan_version := 1, command_writer := False, pending_mission := False,
                  mission_sequence := 0, pending_segments := 0\<rparr>;
            m = fold (init_value_slots model) [0..<PENDING_SIZE] m;
            m = fold (\<lambda>row. fold (init_waypoint_slots model row) [0..<3]) [0..<MAX_POINTS] m;
            (ok, env) = register_all register queryables env
        in (ok, (m, zero_applied), env))"

section \<open>Every reply fits, and no handler waits\<close>

definition fits :: "nat \<Rightarrow> bytes option \<Rightarrow> bool" where
  "fits capacity r \<longleftrightarrow> (case r of None \<Rightarrow> True | Some b \<Rightarrow> length b \<le> capacity)"

lemma fits_replies [simp]:
  "fits capacity (build_param_set_reply fb capacity result on v d)"
  "fits capacity (build_param_get_reply fb capacity result nm v d)"
  "fits capacity (build_trajectory_reply fb capacity result version d seq)"
  "fits capacity None"
  by (auto simp: fits_def build_replies_fit split: option.split)

lemma always_stage_mission: "always (fits capacity) (stage_mission fb capacity e w n)"
  unfolding stage_mission_def by (auto intro!: always_bind')

lemma always_param_set: "always (fits capacity) (handle_param_set rd fb request capacity)"
  unfolding handle_param_set_def Let_def
  by (auto intro!: always_bind' split: option.split)

lemma always_param_get: "always (fits capacity) (handle_param_get rd fb request capacity)"
  unfolding handle_param_get_def Let_def
  by (auto intro!: always_bind' split: option.split)

lemma always_trajectory_set: "always (fits capacity) (handle_trajectory_set rd fb request capacity)"
  unfolding handle_trajectory_set_def Let_def
  by (auto intro!: always_bind' always_stage_mission split: option.split sum.split)

lemma always_fits: "always (fits capacity) (runtime_query syn service request capacity)"
  by (simp add: runtime_query_def always_param_set always_param_get always_trajectory_set)

text \<open>C40 Whatever the other thread does and whatever flatcc returns, a reply never exceeds its buffer.\<close>

theorem reply_fits:
  assumes "interleaved n (runtime_query syn service request capacity) w m (Some reply) w' m'"
  shows "length reply \<le> capacity"
  using interleaved_always [OF assms always_fits] by (simp add: fits_def)

lemma within_store_waypoints: "returns_within (store_waypoints w) 84"
proof -
  have "returns_within (store_waypoints w) (4 * length [0..<3 :: nat] * length [0..<MAX_POINTS])"
    unfolding store_waypoints_def by (intro within_for_each within_store)
  then show ?thesis by simp
qed

lemma within_stage_mission: "returns_within (stage_mission fb capacity e w n) 92"
  unfolding stage_mission_def current_plan_version_def
  by (auto intro!: within_bindI [OF within_store_waypoints])

lemma within_param_set: "returns_within (handle_param_set rd fb request capacity) 7"
  unfolding handle_param_set_def
  by (auto simp: Let_def split: option.split intro!: within_bindI [OF within_store])

lemma within_param_get: "returns_within (handle_param_get rd fb request capacity) 12"
  unfolding handle_param_get_def
  by (auto simp: Let_def split: option.split intro!: within_bindI [OF within_try_load])

lemma within_trajectory_set: "returns_within (handle_trajectory_set rd fb request capacity) 92"
  unfolding handle_trajectory_set_def current_plan_version_def
  by (auto simp: Let_def within_stage_mission split: option.split sum.split)

text \<open>
  C38 A query always returns, after at most 92 atomic operations of its own, whatever
  another thread does to the shared state before each of them.
\<close>

theorem query_returns:
  "\<exists>reply m'. drive other 92 (runtime_query syn service request capacity) m = Some (reply, m')"
  unfolding runtime_query_def
  by (intro within_returns)
     (auto intro: within_trajectory_set within_mono [OF within_param_set]
        within_mono [OF within_param_get])

end
