(* ===== verification/Runtime_Apply.thy ===== *)
theory Runtime_Apply
  imports Services
begin

text \<open>
  The controller thread's side of \<open>src/runtime_control.c\<close>: \<open>cubs2_runtime_control_apply\<close> at
  every cycle and \<open>cubs2_runtime_control_restore\<close> after the controller was initialised
  again. The atomics are steps of a program; the controller and the plain members of
  \<open>g_runtime\<close>, which only this thread touches, are threaded through as values.
\<close>

type_synonym 'z controller = "'z outer_loop_scheme \<times> applied"

section \<open>The exchanges\<close>

definition exchange_value_set :: "nat \<Rightarrow> shared \<Rightarrow> u32 \<times> shared" where
  "exchange_value_set i m =
     (of_bool (pending_value_set m i), m\<lparr>pending_value_set := (pending_value_set m)(i := False)\<rparr>)"

definition exchange_mission :: "shared \<Rightarrow> u32 \<times> shared" where
  "exchange_mission m = (of_bool (pending_mission m), m\<lparr>pending_mission := False\<rparr>)"

section \<open>Apply\<close>

definition apply_pending_value :: "nat \<Rightarrow> 'z controller \<Rightarrow> (shared, 'z controller) prog" where
  "apply_pending_value i = (\<lambda>(model, app).
     pbind (atomic (exchange_value_set i)) (\<lambda>pending.
     if pending \<noteq> 0 then
       pbind (atomic_double_try_load (Pending_value i)) (\<lambda>loaded.
       case loaded of
         None \<Rightarrow> pbind (atomic_do (set_value_pending i)) (\<lambda>_. Ret (model, app))
       | Some value \<Rightarrow>
           pbind (atomic_double_store_value (Live_value i) value) (\<lambda>_.
           Ret (apply_value model i value,
                app\<lparr>applied_values := (applied_values app)(i := value),
                    applied_value_set := (applied_value_set app)(i := True)\<rparr>)))
     else Ret (model, app)))"

text \<open>The loops over the staged waypoints; they stop at the first load that fails.\<close>

definition load_cell ::
  "nat \<Rightarrow> nat \<Rightarrow> bool \<times> (nat \<Rightarrow> nat \<Rightarrow> f64) \<Rightarrow> (shared, bool \<times> (nat \<Rightarrow> nat \<Rightarrow> f64)) prog" where
  "load_cell row column = (\<lambda>(complete, waypoints).
     if complete then
       pbind (atomic_double_try_load (Pending_waypoint row column)) (\<lambda>loaded.
       case loaded of
         None \<Rightarrow> Ret (False, waypoints)
       | Some v \<Rightarrow> Ret (True, waypoints(row := (waypoints row)(column := v))))
     else Ret (complete, waypoints))"

definition load_waypoints ::
  "bool \<times> (nat \<Rightarrow> nat \<Rightarrow> f64) \<Rightarrow> (shared, bool \<times> (nat \<Rightarrow> nat \<Rightarrow> f64)) prog" where
  "load_waypoints = for_each [0..<MAX_POINTS] (\<lambda>row. for_each [0..<3] (load_cell row))"

text \<open>The reads of the staged mission: its waypoints and segments, if they are one mission.\<close>

definition load_mission :: "(shared, ((nat \<Rightarrow> nat \<Rightarrow> f64) \<times> u32) option) prog" where
  "load_mission =
     pbind (atomic (\<lambda>m. (mission_sequence m, m))) (\<lambda>before.
     pbind (load_waypoints (before AND 1 = 0, \<lambda>_ _. 0)) (\<lambda>(complete, waypoints).
     pbind (atomic (\<lambda>m. (pending_segments m, m))) (\<lambda>segments.
     if complete then
       pbind (atomic (\<lambda>m. (mission_sequence m, m))) (\<lambda>after.
       Ret (if before = after then Some (waypoints, segments) else None))
     else Ret None)))"

definition apply_pending_mission :: "'z controller \<Rightarrow> (shared, 'z controller) prog" where
  "apply_pending_mission = (\<lambda>(model, app).
     pbind (atomic exchange_mission) (\<lambda>pending.
     if pending \<noteq> 0 then
       pbind load_mission (\<lambda>mission.
       case mission of
         None \<Rightarrow> pbind (atomic_do set_mission_pending) (\<lambda>_. Ret (model, app))
       | Some (waypoints, segments) \<Rightarrow>
           Ret (apply_route model waypoints segments,
                app\<lparr>applied_waypoints := waypoints, applied_segments := segments,
                    applied_mission := True\<rparr>))
     else Ret (model, app)))"

definition cubs2_runtime_control_apply ::
  "'z outer_loop_scheme option \<Rightarrow> applied \<Rightarrow> (shared, 'z outer_loop_scheme option \<times> applied) prog"
  where
  "cubs2_runtime_control_apply model app =
     (case model of
        None \<Rightarrow> Ret (None, app)
      | Some model \<Rightarrow>
          pbind (for_each [0..<length value_table] apply_pending_value (model, app)) (\<lambda>c.
          pbind (apply_pending_mission c) (\<lambda>(model, app). Ret (Some model, app))))"

section \<open>Restore\<close>

definition restore_value ::
  "applied \<Rightarrow> nat \<Rightarrow> 'z outer_loop_scheme \<Rightarrow> (shared, 'z outer_loop_scheme) prog" where
  "restore_value app i model =
     (if applied_value_set app i then
        pbind (atomic_double_store_value (Live_value i) (applied_values app i)) (\<lambda>_.
        Ret (apply_value model i (applied_values app i)))
      else Ret model)"

definition cubs2_runtime_control_restore ::
  "'z outer_loop_scheme option \<Rightarrow> applied \<Rightarrow> (shared, 'z outer_loop_scheme option) prog" where
  "cubs2_runtime_control_restore model app =
     (case model of
        None \<Rightarrow> Ret None
      | Some model \<Rightarrow>
          pbind (for_each [0..<length value_table] (restore_value app) model) (\<lambda>model.
          Ret (Some (if applied_mission app
                     then apply_route model (applied_waypoints app) (applied_segments app)
                     else model))))"

section \<open>Apply never waits\<close>

lemma within_apply_value: "returns_within (apply_pending_value i c) 17"
  unfolding apply_pending_value_def
  by (auto split: prod.split option.split
      intro!: within_bindI [OF within_try_load] within_bindI [OF within_store])

lemma within_load_waypoints: "returns_within (load_waypoints c) 252"
proof -
  have "returns_within (load_cell row column c) 12" for row column c
    unfolding load_cell_def
    by (auto split: prod.split option.split intro!: within_bindI [OF within_try_load])
  then have "returns_within (load_waypoints c) (12 * length [0..<3 :: nat] * length [0..<MAX_POINTS])"
    unfolding load_waypoints_def by (intro within_for_each)
  then show ?thesis by simp
qed

lemma within_load_mission: "returns_within load_mission 255"
  unfolding load_mission_def
  by (auto split: prod.split intro!: within_bindI [OF within_load_waypoints])

lemma within_apply_mission: "returns_within (apply_pending_mission c) 257"
  unfolding apply_pending_mission_def
  by (auto split: prod.split option.split intro!: within_bindI [OF within_load_mission])

lemma within_apply: "returns_within (cubs2_runtime_control_apply model app) 733"
proof -
  have "returns_within (for_each [0..<length value_table] apply_pending_value c) (17 * length [0..<length value_table])"
    for c :: "'a controller"
    by (intro within_for_each within_apply_value)
  then have loop: "returns_within (for_each [0..<length value_table] apply_pending_value c) 476"
    for c :: "'a controller" by simp
  show ?thesis
    unfolding cubs2_runtime_control_apply_def
    by (auto split: prod.split option.split
        intro!: within_bindI [OF loop] within_bindI [OF within_apply_mission] simp del: length_values)
qed

lemma within_restore: "returns_within (cubs2_runtime_control_restore model app) 112"
proof -
  have "returns_within (restore_value app i c) 4" for i and c :: "'a outer_loop_scheme"
    unfolding restore_value_def by (auto intro!: within_bindI [OF within_store])
  then have "returns_within (for_each [0..<length value_table] (restore_value app) c) (4 * length [0..<length value_table])"
    for c :: "'a outer_loop_scheme" by (intro within_for_each)
  then have loop: "returns_within (for_each [0..<length value_table] (restore_value app) c) 112"
    for c :: "'a outer_loop_scheme" by simp
  show ?thesis
    unfolding cubs2_runtime_control_restore_def
    by (auto split: option.split intro!: within_bindI [OF loop] simp del: length_values)
qed

text \<open>
  The controller's cycle never waits for the transport thread: apply returns after at
  most 733 atomic operations of its own, whatever another thread does before each of them.
\<close>

theorem apply_returns:
  "\<exists>c m'. drive other 733 (cubs2_runtime_control_apply model app) m = Some (c, m')"
  by (rule within_returns [OF within_apply])

end
