(* ===== verification/Examples.thy ===== *)
theory Examples
  imports Services
begin

text \<open>
  Concrete instances of the external interfaces, at which the witnesses evaluate the
  theorems: a message format whose root is the request itself, a builder that appends
  bytes, and a controller on a route of one segment.
\<close>

definition example_builder :: "bytes builder" where
  "example_builder =
     \<lparr>builder_init = Some [], param_set_start = Some, param_set_value_start = Some,
      value_name_create = (\<lambda>nm b. Some (b @ [of_nat (length nm)])), value_kind_add = (\<lambda>_. Some),
      value_float_add = (\<lambda>v b. Some (b @ [ucast v])), param_set_value_end = Some,
      param_set_result_add = (\<lambda>r b. Some (b @ [if r = Accepted then 1 else 0])),
      param_set_detail_add = (\<lambda>_. Some), param_set_end = Some,
      param_get_start = Some, param_get_values_start = Some, param_get_push_start = Some,
      param_get_push_end = Some, param_get_values_end = Some,
      param_get_result_add = (\<lambda>r b. Some (b @ [if r = Accepted then 1 else 0])),
      param_get_total_add = (\<lambda>_. Some), param_get_detail_add = (\<lambda>_. Some), param_get_end = Some,
      trajectory_start = Some,
      trajectory_create = (\<lambda>r i v d s n b. Some (b @ [if r = Accepted then 1 else 0, ucast v])),
      trajectory_end = Some, get_direct_buffer = Some\<rparr>"

text \<open>0.5 under the public name of a parameter, and a route from the origin to (1, 2, 4).\<close>

definition example_set_reader :: "(bytes, bytes) set_reader" where
  "example_set_reader =
     \<lparr>set_verify = (\<lambda>b. b \<noteq> []), set_root = Some, set_value = Some,
      value_name = (\<lambda>_. Some ''tecs.pitchKi''), value_kind = (\<lambda>_. Kind_Float),
      value_float = (\<lambda>_. 0x3FE0000000000000)\<rparr>"

definition example_get_reader :: "bytes get_reader" where
  "example_get_reader =
     \<lparr>get_verify = (\<lambda>b. b \<noteq> []), get_root = Some, get_name = (\<lambda>_. Some ''tecsParams_pitchKi'')\<rparr>"

definition example_segment :: segment_data where
  "example_segment =
     \<lparr>p0_enu_m = \<lparr>vec_x = 0, vec_y = 0, vec_z = 0\<rparr>,
      p1_enu_m = \<lparr>vec_x = 0x3F800000, vec_y = 0x40000000, vec_z = 0x40800000\<rparr>,
      segment_seq = 0, frame = LocalEnu\<rparr>"

definition example_trajectory_reader :: "(bytes, bytes) trajectory_reader" where
  "example_trajectory_reader =
     \<lparr>trajectory_verify = (\<lambda>b. b \<noteq> []), trajectory_root = Some, trajectory_segments = Some,
      segments_len = length, segments_at = (\<lambda>_ _. example_segment), trajectory_total = length,
      expected_plan_version = (\<lambda>_. 0)\<rparr>"

definition example_synapse :: "(bytes, bytes, bytes, bytes, bytes, bytes) synapse" where
  "example_synapse =
     \<lparr>set_reader = example_set_reader, get_reader = example_get_reader,
      trajectory_reader = example_trajectory_reader, builder = example_builder\<rparr>"

lemmas example_simps = example_builder_def example_set_reader_def example_get_reader_def
  example_segment_def example_trajectory_reader_def example_synapse_def

lemma finite_half [simp]: "isfinite64 0x3FE0000000000000"
  by (simp add: isfinite64_def f64_unpack_def fp_unpack_def)

lemma example_index: "find_value ''tecs.pitchKi'' = 11" "find_value ''tecsParams_pitchKi'' = 11"
proof -
  have "name (value_table ! 11) = ''tecsParams_pitchKi''" by (simp add: value_table_def VALUE_def)
  then show "find_value ''tecsParams_pitchKi'' = 11" using find_value_name [of 11] by simp
  moreover have "canonical_name ''tecs.pitchKi'' = ''tecsParams_pitchKi''"
    by (rule canonical_alias) (simp add: aliases_def)
  ultimately show "find_value ''tecs.pitchKi'' = 11"
    by (simp add: find_value_def canonical_plain)
qed

definition example_model :: outer_loop where
  "example_model = undefined
     \<lparr>leaf := (\<lambda>_. 0), currentWaypoint := 1, route_nSegments := 1, guidance_route_nSegments := 1,
      route_waypoints := (\<lambda>_ _. 0), guidance_route_waypoints := (\<lambda>_ _. 0),
      guidance_currentWaypoint := 1, guidance_activeWaypoint := 1,
      previous_guidance_currentWaypoint := 1, guidance_segmentEndIndex := 2\<rparr>"

lemma example_model_simps [simp]:
  "leaf example_model = (\<lambda>_. 0)" "currentWaypoint example_model = 1"
  "route_nSegments example_model = 1" "guidance_route_nSegments example_model = 1"
  "route_waypoints example_model = (\<lambda>_ _. 0)" "guidance_route_waypoints example_model = (\<lambda>_ _. 0)"
  by (simp_all add: example_model_def)

lemma example_model_on_route: "on_route example_model"
  by (simp add: on_route_def example_model_def list_all_iff)

section \<open>Witnesses of the services\<close>

theorem reply_fits_witness:
  "\<exists>reply. run (runtime_query example_synapse ''param_set'' None 8) zero_shared = (Some reply, zero_shared) \<and>
     length reply \<le> 8"
proof -
  have "run (runtime_query example_synapse ''param_set'' None 8) zero_shared = (Some [0, 0, 0], zero_shared)"
    by (simp add: runtime_query_def handle_param_set_def build_param_set_reply_def finish_reply_def
        example_simps Option.bind_def)
  from reply_fits [OF interleaved_run [OF this, where w = "Ret ()"]] this show ?thesis by blast
qed

theorem apply_route_rows_witness:
  "route_waypoints (apply_route example_model (\<lambda>r c. of_nat (10 * r + c)) 2) 6 1 = 21 \<and>
   guidance_route_waypoints (apply_route example_model (\<lambda>r c. of_nat (10 * r + c)) 2) 6 1 = 21"
  using apply_route_rows [of 6 1 example_model "\<lambda>r c. of_nat (10 * r + c)" 2] by simp

end
