(* ===== verification/Runtime_Spec.thy ===== *)
theory Runtime_Spec
  imports Runtime_Apply Examples
begin

text \<open>
  What the runtime control promises, without slots, counters and flags: a plan version, the
  live values, the values staged for the next cycle and the staged mission. \<open>runtime_abs\<close>
  reads that state off the shared memory, and the lemmas show that each service and each
  operation of the controller thread, run to its end, is one operation of it. Behaviour
  among the steps of the other thread is the subject of theory Interleaving.
\<close>

section \<open>The abstract state and its operations\<close>

type_synonym mission = "(nat \<Rightarrow> nat \<Rightarrow> f64) \<times> u32"

record runtime_spec =
  spec_version :: u32
  spec_live :: "nat \<Rightarrow> f64"
  spec_staged :: "nat \<Rightarrow> f64 option"
  spec_mission :: "mission option"

text \<open>The cells of the waypoint array; what a function has outside of it is cut off.\<close>

definition cells :: "(nat \<Rightarrow> nat \<Rightarrow> f64) \<Rightarrow> nat \<Rightarrow> nat \<Rightarrow> f64" where
  "cells w r c = (if r < MAX_POINTS \<and> c < 3 then w r c else 0)"

definition spec_set_value :: "nat \<Rightarrow> f64 \<Rightarrow> runtime_spec \<Rightarrow> runtime_spec" where
  "spec_set_value i v a = a\<lparr>spec_staged := (spec_staged a)(i \<mapsto> v)\<rparr>"

definition spec_set_mission :: "mission \<Rightarrow> runtime_spec \<Rightarrow> runtime_spec" where
  "spec_set_mission mis a =
     a\<lparr>spec_mission := Some (cells (fst mis), snd mis), spec_version := next_version (spec_version a)\<rparr>"

definition spec_apply_value :: "(nat \<Rightarrow> f64 option) \<Rightarrow> nat \<Rightarrow> 'z outer_loop_scheme \<Rightarrow> 'z outer_loop_scheme"
  where
  "spec_apply_value staged i model =
     (case staged i of None \<Rightarrow> model | Some v \<Rightarrow> apply_value model i v)"

definition spec_apply_model :: "runtime_spec \<Rightarrow> 'z outer_loop_scheme \<Rightarrow> 'z outer_loop_scheme" where
  "spec_apply_model a model =
     (let model = fold (spec_apply_value (spec_staged a)) [0..<length value_table] model
      in case spec_mission a of
           None \<Rightarrow> model
         | Some (w, n) \<Rightarrow> apply_route model w n)"

definition note_value :: "(nat \<Rightarrow> f64 option) \<Rightarrow> nat \<Rightarrow> applied \<Rightarrow> applied" where
  "note_value staged i app =
     (case staged i of
        None \<Rightarrow> app
      | Some v \<Rightarrow> app\<lparr>applied_values := (applied_values app)(i := v),
                      applied_value_set := (applied_value_set app)(i := True)\<rparr>)"

definition spec_applied :: "runtime_spec \<Rightarrow> applied \<Rightarrow> applied" where
  "spec_applied a app =
     (let app = fold (note_value (spec_staged a)) [0..<length value_table] app
      in case spec_mission a of
           None \<Rightarrow> app
         | Some (w, n) \<Rightarrow>
             app\<lparr>applied_waypoints := w, applied_segments := n, applied_mission := True\<rparr>)"

definition spec_apply :: "runtime_spec \<Rightarrow> runtime_spec" where
  "spec_apply a =
     a\<lparr>spec_live := (\<lambda>i. case spec_staged a i of None \<Rightarrow> spec_live a i | Some v \<Rightarrow> v),
       spec_staged := Map.empty, spec_mission := None\<rparr>"

section \<open>The abstraction\<close>

text \<open>No operation is in progress: the writer flag is clear and every counter is even.\<close>

definition slots_even :: "shared \<Rightarrow> bool" where
  "slots_even m \<longleftrightarrow>
     (\<forall>i. even (sequence (pending_values m i)) \<and> even (sequence (live_values m i))) \<and>
     (\<forall>r c. even (sequence (pending_waypoints m r c)))"

definition at_rest :: "shared \<Rightarrow> bool" where
  "at_rest m \<longleftrightarrow> \<not> command_writer m \<and> even (mission_sequence m) \<and> plan_version m \<noteq> 0 \<and>
     (\<forall>i. pending_value_set m i \<longrightarrow> i < length value_table) \<and> slots_even m"

definition runtime_abs :: "shared \<Rightarrow> runtime_spec" where
  "runtime_abs m =
     \<lparr>spec_version = plan_version m,
      spec_live = (\<lambda>i. slot_value (live_values m i)),
      spec_staged = (\<lambda>i. if pending_value_set m i then Some (slot_value (pending_values m i)) else None),
      spec_mission =
        (if pending_mission m
         then Some (cells (\<lambda>r c. slot_value (pending_waypoints m r c)), pending_segments m)
         else None)\<rparr>"

section \<open>The services, run to their end\<close>

definition stage_value :: "nat \<Rightarrow> f64 \<Rightarrow> shared \<Rightarrow> shared" where
  "stage_value i v m = set_value_pending i (put_slot (Pending_value i) (stored v (pending_values m i)) m)"

definition param_set_args :: "('r, 'v) set_reader \<Rightarrow> bytes option \<Rightarrow> (string \<times> f64) option" where
  "param_set_args rd request = do {
     req \<leftarrow> request;
     r \<leftarrow> (if set_verify rd req then set_root rd req else None);
     value \<leftarrow> set_value rd r;
     nm \<leftarrow> value_name rd value;
     if value_kind rd value = Kind_Float then Some (nm, value_float rd value) else None
   }"

lemma writer_same [simp]: "command_writer m \<Longrightarrow> m\<lparr>command_writer := True\<rparr> = m"
  "\<not> command_writer m \<Longrightarrow> m\<lparr>command_writer := False\<rparr> = m"
  by (cases m; simp)+

lemma param_set_run:
  "run (handle_param_set rd fb request capacity) m =
     (case param_set_args rd request of
        None \<Rightarrow> (build_param_set_reply fb capacity Failed (Some '''') 0 (- 1), m)
      | Some (nm, number) \<Rightarrow>
          if find_value nm < 0 then
            (build_param_set_reply fb capacity Unsupported (Some nm) number (- 2), m)
          else if \<not> isfinite64 number then
            (build_param_set_reply fb capacity Denied (Some nm) number (- 3), m)
          else if command_writer m then
            (build_param_set_reply fb capacity TemporarilyRejected (Some nm) number (- 4), m)
          else
            (build_param_set_reply fb capacity Accepted (Some nm) number 0,
             stage_value (nat (find_value nm)) number m))"
  by (cases request)
     (auto simp: handle_param_set_def param_set_args_def Let_def run_simps service_atomics
        stage_value_def split: option.split)

text \<open>
  C33 \<open>param_set\<close> on every branch: an invalid message, an unknown name, a NaN or an infinity
  and a busy writer are each rejected with their code and leave the shared state exactly as
  it was; otherwise the value is staged and nothing else changes.
\<close>

theorem param_set_behaviour:
  "run (handle_param_set rd fb request capacity) m =
     (case param_set_args rd request of
        None \<Rightarrow> (build_param_set_reply fb capacity Failed (Some '''') 0 (- 1), m)
      | Some (nm, number) \<Rightarrow>
          if find_value nm < 0 then
            (build_param_set_reply fb capacity Unsupported (Some nm) number (- 2), m)
          else if \<not> isfinite64 number then
            (build_param_set_reply fb capacity Denied (Some nm) number (- 3), m)
          else if command_writer m then
            (build_param_set_reply fb capacity TemporarilyRejected (Some nm) number (- 4), m)
          else
            (build_param_set_reply fb capacity Accepted (Some nm) number 0,
             stage_value (nat (find_value nm)) number m))"
  by (rule param_set_run)

definition param_get_args :: "'r get_reader \<Rightarrow> bytes option \<Rightarrow> string option" where
  "param_get_args rd request = do {
     req \<leftarrow> request;
     r \<leftarrow> (if get_verify rd req then get_root rd req else None);
     get_name rd r
   }"

lemma param_get_run:
  "run (handle_param_get rd fb request capacity) m =
     (case param_get_args rd request of
        None \<Rightarrow> build_param_get_reply fb capacity Failed '''' 0 (- 1)
      | Some nm \<Rightarrow>
          if find_value nm < 0 then build_param_get_reply fb capacity Unsupported nm 0 (- 2)
          else if odd (sequence (live_values m (nat (find_value nm)))) then
            build_param_get_reply fb capacity TemporarilyRejected nm 0 (- 3)
          else build_param_get_reply fb capacity Accepted nm
                 (spec_live (runtime_abs m) (nat (find_value nm))) 0,
      m)"
  by (cases request)
     (auto simp: handle_param_get_def param_get_args_def runtime_abs_def Let_def run_simps
        split: option.split)

text \<open>
  C34 \<open>param_get\<close> on every branch: it never changes the shared state, and the value it
  reports is the live one, which the controller flies, not one staged for later.
\<close>

theorem param_get_behaviour:
  "run (handle_param_get rd fb request capacity) m =
     (case param_get_args rd request of
        None \<Rightarrow> build_param_get_reply fb capacity Failed '''' 0 (- 1)
      | Some nm \<Rightarrow>
          if find_value nm < 0 then build_param_get_reply fb capacity Unsupported nm 0 (- 2)
          else if odd (sequence (live_values m (nat (find_value nm)))) then
            build_param_get_reply fb capacity TemporarilyRejected nm 0 (- 3)
          else build_param_get_reply fb capacity Accepted nm
                 (spec_live (runtime_abs m) (nat (find_value nm))) 0,
      m)"
  by (rule param_get_run)

section \<open>Missions\<close>

text \<open>A point of the message as a row of doubles, and the whole array a message describes.\<close>

definition point_of :: "vec3f \<Rightarrow> nat \<Rightarrow> f64" where
  "point_of p c = f64_of_f32 (if c = 0 then vec_x p else if c = 1 then vec_y p else vec_z p)"

definition mission_points :: "(nat \<Rightarrow> segment_data) \<Rightarrow> nat \<Rightarrow> nat \<Rightarrow> nat \<Rightarrow> f64" where
  "mission_points seg count r c =
     (if c < 3 \<and> r = 0 then point_of (p0_enu_m (seg 0)) c
      else if c < 3 \<and> r \<le> count then point_of (p1_enu_m (seg (r - 1))) c
      else 0)"

lemma point_row_eq: "point_row p old = (\<lambda>c. if c < 3 then point_of p c else old c)"
  by (auto simp: point_row_def point_of_def fun_eq_iff)

lemma collect_from:
  "collect_waypoints seg [k..<n] w =
     (case find (\<lambda>i. \<not> segment_ok (seg i) i) [k..<n] of
        Some i \<Rightarrow> Inl i
      | None \<Rightarrow> Inr (\<lambda>r c.
          if c < 3 \<and> r = 0 \<and> k = 0 \<and> 0 < n then point_of (p0_enu_m (seg 0)) c
          else if c < 3 \<and> k < r \<and> r \<le> n then point_of (p1_enu_m (seg (r - 1))) c
          else w r c))"
proof (induction "n - k" arbitrary: k w)
  case 0
  then show ?case by (auto simp: fun_eq_iff)
next
  case (Suc d)
  then have k: "k < n" and d: "d = n - Suc k" by simp_all
  show ?case
    unfolding upt_conv_Cons [OF k] collect_waypoints.simps Let_def Suc(1) [OF d]
    using k by (auto simp: point_row_eq fun_eq_iff split: option.split)
      (metis less_Suc0 linorder_neqE_nat)
qed

text \<open>The loop stops at the first bad segment, or yields all the points of the message.\<close>

lemma collect_waypoints_eq:
  assumes "0 < n"
  shows "collect_waypoints seg [0..<n] (\<lambda>_ _. 0) =
     (case find (\<lambda>i. \<not> segment_ok (seg i) i) [0..<n] of
        Some i \<Rightarrow> Inl i
      | None \<Rightarrow> Inr (mission_points seg n))"
  unfolding collect_from using assms
  by (auto simp: mission_points_def fun_eq_iff split: option.split)

text \<open>Storing the waypoints: every cell stored once, nothing else touched.\<close>

definition stored_waypoints :: "(nat \<Rightarrow> nat \<Rightarrow> f64) \<Rightarrow> shared \<Rightarrow> shared" where
  "stored_waypoints w m = m\<lparr>pending_waypoints := (\<lambda>r c.
     if r < MAX_POINTS \<and> c < 3 then stored (w r c) (pending_waypoints m r c)
     else pending_waypoints m r c)\<rparr>"

lemma run_store_row:
  "distinct cs \<Longrightarrow>
   run (for_each cs (\<lambda>c _. atomic_double_store_value (Pending_waypoint row c) (w row c)) u) m =
     (u, m\<lparr>pending_waypoints := (pending_waypoints m)(row := (\<lambda>c.
        if c \<in> set cs then stored (w row c) (pending_waypoints m row c)
        else pending_waypoints m row c))\<rparr>)"
proof (induction cs arbitrary: m)
  case Nil
  then show ?case by simp
next
  case (Cons c cs)
  then show ?case
    by (simp add: run_simps) (auto simp: fun_eq_iff intro!: shared.equality)
qed

lemma run_store_rows:
  "distinct rs \<Longrightarrow> distinct cs \<Longrightarrow>
   run (for_each rs (\<lambda>row. for_each cs (\<lambda>c _.
     atomic_double_store_value (Pending_waypoint row c) (w row c))) u) m =
     (u, m\<lparr>pending_waypoints := (\<lambda>r c.
        if r \<in> set rs \<and> c \<in> set cs then stored (w r c) (pending_waypoints m r c)
        else pending_waypoints m r c)\<rparr>)"
proof (induction rs arbitrary: m)
  case Nil
  then show ?case by simp
next
  case (Cons r rs)
  then show ?case
    by (simp add: run_bind run_store_row) (auto simp: fun_eq_iff intro!: shared.equality)
qed

lemma run_store_waypoints [run_simps]: "run (store_waypoints w) m = ((), stored_waypoints w m)"
  unfolding store_waypoints_def stored_waypoints_def
  by (subst run_store_rows) (auto intro!: shared.equality)

text \<open>An accepted mission, as one update of the shared state.\<close>

definition mission_staged :: "mission \<Rightarrow> shared \<Rightarrow> shared" where
  "mission_staged = (\<lambda>(w, n) m. (stored_waypoints w m)
     \<lparr>pending_segments := n, mission_sequence := mission_sequence m + 2, pending_mission := True,
      plan_version := next_version (plan_version m)\<rparr>)"

lemma run_stage_mission:
  "run (stage_mission fb capacity expected w n) m =
     (if command_writer m then
        (build_trajectory_reply fb capacity TemporarilyRejected (plan_version m) (- 5) 0, m)
      else if expected \<noteq> 0 \<and> expected \<noteq> plan_version m then
        (build_trajectory_reply fb capacity TemporarilyRejected (plan_version m) (- 4) 0, m)
      else
        (build_trajectory_reply fb capacity Accepted (next_version (plan_version m)) 0 0,
         mission_staged (w, of_nat n) m))"
  by (auto simp: stage_mission_def current_plan_version_def run_simps run_bind service_atomics
      mission_staged_def stored_waypoints_def intro!: shared.equality cong: if_cong)

section \<open>The trajectory service on every branch\<close>

text \<open>The version and the mission a request asks for, or the code it is rejected with.\<close>

definition mission_of ::
  "('r, 's) trajectory_reader \<Rightarrow> bytes option \<Rightarrow> (result_code \<times> int \<times> u32) + (u32 \<times> mission)" where
  "mission_of rd request =
     (case do { req \<leftarrow> request;
                r \<leftarrow> (if trajectory_verify rd req then trajectory_root rd req else None);
                segments \<leftarrow> trajectory_segments rd r;
                Some (r, segments) } of
        None \<Rightarrow> Inl (Failed, - 1, 0)
      | Some (r, segments) \<Rightarrow>
          let count = segments_len rd segments; seg = segments_at rd segments in
          if count = 0 \<or> count > MAX_SEGMENTS \<or> trajectory_total rd r \<noteq> count then
            Inl (Denied, - 2, 0)
          else case find (\<lambda>i. \<not> segment_ok (seg i) i) [0..<count] of
            Some i \<Rightarrow> Inl (Denied, - 3, of_nat i)
          | None \<Rightarrow> Inr (expected_plan_version rd r, mission_points seg count, of_nat count))"

lemma trajectory_set_run:
  "run (handle_trajectory_set rd fb request capacity) m =
     (case mission_of rd request of
        Inl (result, detail, seq) \<Rightarrow>
          (build_trajectory_reply fb capacity result (plan_version m) detail seq, m)
      | Inr (expected, mis) \<Rightarrow>
          if command_writer m then
            (build_trajectory_reply fb capacity TemporarilyRejected (plan_version m) (- 5) 0, m)
          else if expected \<noteq> 0 \<and> expected \<noteq> plan_version m then
            (build_trajectory_reply fb capacity TemporarilyRejected (plan_version m) (- 4) 0, m)
          else
            (build_trajectory_reply fb capacity Accepted (next_version (plan_version m)) 0 0,
             mission_staged mis m))"
  by (cases request)
     (auto simp: handle_trajectory_set_def mission_of_def current_plan_version_def Let_def
        run_simps run_stage_mission collect_waypoints_eq split: option.split)

text \<open>
  C17 \<open>trajectory_set\<close> on every branch: an invalid message, a wrong number of segments, a
  segment out of sequence, in another frame or with a coordinate that is not finite, a busy
  writer and a plan version that is not the current one are each rejected with their code
  and leave the shared state exactly as it was; otherwise the whole mission is staged and
  the plan version moves on.
\<close>

theorem trajectory_set_behaviour:
  "run (handle_trajectory_set rd fb request capacity) m =
     (case mission_of rd request of
        Inl (result, detail, seq) \<Rightarrow>
          (build_trajectory_reply fb capacity result (plan_version m) detail seq, m)
      | Inr (expected, mis) \<Rightarrow>
          if command_writer m then
            (build_trajectory_reply fb capacity TemporarilyRejected (plan_version m) (- 5) 0, m)
          else if expected \<noteq> 0 \<and> expected \<noteq> plan_version m then
            (build_trajectory_reply fb capacity TemporarilyRejected (plan_version m) (- 4) 0, m)
          else
            (build_trajectory_reply fb capacity Accepted (next_version (plan_version m)) 0 0,
             mission_staged mis m))"
  by (rule trajectory_set_run)

text \<open>A mission that passes has 1 to 6 segments and only finite coordinates.\<close>

definition mission_ok :: "mission \<Rightarrow> bool" where
  "mission_ok = (\<lambda>(w, n). 1 \<le> unat n \<and> unat n \<le> MAX_SEGMENTS \<and> (\<forall>r c. isfinite64 (w r c)))"

lemma point_of_finite: "vec3_finite p \<Longrightarrow> isfinite64 (point_of p c)"
  by (simp add: vec3_finite_def point_of_def f64_of_f32_exact)

lemma mission_points_finite:
  assumes "find (\<lambda>i. \<not> segment_ok (seg i) i) [0..<n] = None" and "0 < n"
  shows "isfinite64 (mission_points seg n r c)"
proof -
  have ok: "segment_ok (seg i) i" if "i < n" for i
    using assms(1) that by (auto simp: find_None_iff)
  have "vec3_finite (p0_enu_m (seg 0))" using ok [of 0] assms(2) by (simp add: segment_ok_def)
  moreover have "vec3_finite (p1_enu_m (seg (r - 1)))" if "r \<noteq> 0" "r \<le> n"
    using ok [of "r - 1"] that by (simp add: segment_ok_def)
  ultimately show ?thesis by (auto simp: mission_points_def point_of_finite)
qed

lemma missions_ok:
  assumes "mission_of rd request = Inr (expected, mis)"
  shows "mission_ok mis"
proof -
  have small: "unat (of_nat n :: u32) = n" if "n \<le> 6" for n
    using that by (simp add: unat_of_nat take_bit_nat_eq_self)
  from assms obtain seg n where mis: "mis = (mission_points seg n, of_nat n)"
    and n: "n \<noteq> 0" "n \<le> 6" and ok: "find (\<lambda>i. \<not> segment_ok (seg i) i) [0..<n] = None"
    by (auto simp: mission_of_def Let_def split: option.splits if_splits prod.splits)
  from n mission_points_finite [OF ok] show ?thesis
    by (simp add: mis mission_ok_def small)
qed

text \<open>
  C29 What \<open>trajectory_set\<close> stages is sound, whatever bytes it is given and in whatever state
  it runs: either it leaves the shared state exactly as it was, or it has flagged a mission of
  1 to 6 segments of which every one of the 21 stored coordinates is finite, and has
  touched no parameter: no staged value, no flag of one, and no live value.
\<close>

theorem only_sound_missions_staged:
  "case run (handle_trajectory_set rd fb request capacity) m of (reply, m') \<Rightarrow>
     m' = m \<or>
     pending_mission m' \<and> 1 \<le> unat (pending_segments m') \<and> unat (pending_segments m') \<le> 6 \<and>
     list_all (\<lambda>row. list_all (\<lambda>column. isfinite64 (slot_value (pending_waypoints m' row column))) [0, 1, 2])
       [0, 1, 2, 3, 4, 5, 6] \<and>
     pending_values m' = pending_values m \<and> pending_value_set m' = pending_value_set m \<and>
     live_values m' = live_values m"
proof (cases "mission_of rd request")
  case (Inl e)
  then show ?thesis by (cases e) (simp add: trajectory_set_run)
next
  case (Inr x)
  then obtain expected w n where x: "mission_of rd request = Inr (expected, (w, n))" by (cases x) auto
  from missions_ok [OF x] have ok: "1 \<le> unat n" "unat n \<le> 6" "isfinite64 (w r c)" for r c
    by (simp_all add: mission_ok_def)
  let ?m = "mission_staged (w, n) m"
  have cells: "isfinite64 (slot_value (pending_waypoints ?m r c))" if "r < 7" "c < 3" for r c
    using ok(3) that by (simp add: mission_staged_def stored_waypoints_def)
  have rest: "pending_mission ?m" "pending_segments ?m = n" "pending_values ?m = pending_values m"
    "pending_value_set ?m = pending_value_set m" "live_values ?m = live_values m"
    by (simp_all add: mission_staged_def stored_waypoints_def)
  have "snd (run (handle_trajectory_set rd fb request capacity) m) \<in> {m, ?m}"
    by (simp add: trajectory_set_run x)
  moreover have "list_all (\<lambda>row. list_all (\<lambda>column. isfinite64 (slot_value (pending_waypoints ?m row column))) [0, 1, 2])
      [0, 1, 2, 3, 4, 5, 6]"
    unfolding list_all_iff by (intro ballI cells) auto
  ultimately show ?thesis
    using rest ok(1,2)
    by (cases "run (handle_trajectory_set rd fb request capacity) m") (auto simp del: list.pred_inject One_nat_def)
qed

section \<open>The services refine the abstract operations\<close>

lemma next_version_nonzero [simp]: "next_version v \<noteq> 0"
  by (simp add: next_version_def Let_def)

lemma at_rest_stage_value: "at_rest m \<Longrightarrow> i < length value_table \<Longrightarrow> at_rest (stage_value i v m)"
  by (auto simp: at_rest_def slots_even_def stage_value_def set_value_pending_def)

lemma abs_stage_value: "runtime_abs (stage_value i v m) = spec_set_value i v (runtime_abs m)"
  by (auto simp: runtime_abs_def spec_set_value_def stage_value_def set_value_pending_def fun_eq_iff)

lemma at_rest_mission_staged: "at_rest m \<Longrightarrow> at_rest (mission_staged mis m)"
  by (auto simp: at_rest_def slots_even_def mission_staged_def stored_waypoints_def split: prod.split)

lemma abs_mission_staged: "runtime_abs (mission_staged mis m) = spec_set_mission mis (runtime_abs m)"
  by (auto simp: runtime_abs_def spec_set_mission_def mission_staged_def stored_waypoints_def
      cells_def fun_eq_iff split: prod.split)

text \<open>What the services do to the abstract state.\<close>

definition spec_param_set :: "(string \<times> f64) option \<Rightarrow> runtime_spec \<Rightarrow> runtime_spec" where
  "spec_param_set args a =
     (case args of
        None \<Rightarrow> a
      | Some (nm, v) \<Rightarrow>
          if 0 \<le> find_value nm \<and> isfinite64 v then spec_set_value (nat (find_value nm)) v a else a)"

definition spec_trajectory_set ::
  "(result_code \<times> int \<times> u32) + (u32 \<times> mission) \<Rightarrow> runtime_spec \<Rightarrow> runtime_spec" where
  "spec_trajectory_set request a =
     (case request of
        Inl _ \<Rightarrow> a
      | Inr (expected, mis) \<Rightarrow>
          if expected = 0 \<or> expected = spec_version a then spec_set_mission mis a else a)"

definition spec_query ::
  "('r, 'v, 'g, 't, 's, 'b) synapse \<Rightarrow> string \<Rightarrow> bytes option \<Rightarrow> runtime_spec \<Rightarrow> runtime_spec" where
  "spec_query syn service request a =
     (if service = ''param_set'' then spec_param_set (param_set_args (set_reader syn) request) a
      else if service = ''trajectory_set'' then
        spec_trajectory_set (mission_of (trajectory_reader syn) request) a
      else a)"

lemma query_run:
  assumes "at_rest m"
  shows "at_rest (snd (run (runtime_query syn service request capacity) m)) \<and>
    runtime_abs (snd (run (runtime_query syn service request capacity) m)) =
      spec_query syn service request (runtime_abs m)"
proof -
  have free: "\<not> command_writer m" using assms by (simp add: at_rest_def)
  have i: "0 \<le> find_value nm \<Longrightarrow> nat (find_value nm) < length value_table" for nm
    using find_value_range [of nm] by auto
  have v: "spec_version (runtime_abs m) = plan_version m" by (simp add: runtime_abs_def)
  show ?thesis
    by (auto simp: runtime_query_def spec_query_def param_set_run param_get_run
        trajectory_set_run free assms v i at_rest_stage_value abs_stage_value
        at_rest_mission_staged abs_mission_staged spec_param_set_def spec_trajectory_set_def
        simp del: length_values split: option.split sum.split)
qed

text \<open>
  C19 Refinement of the services: a query run to its end is one operation of the abstract
  state, and leaves no store, counter or writer flag half done.
\<close>

theorem query_refines:
  assumes "at_rest m"
  shows "at_rest (snd (run (runtime_query syn service request capacity) m)) \<and>
    runtime_abs (snd (run (runtime_query syn service request capacity) m)) =
      spec_query syn service request (runtime_abs m)"
  using assms by (rule query_run)

section \<open>The controller thread refines the abstract operations\<close>

text \<open>One value, and the loop over the table, at rest.\<close>

definition take_value :: "nat \<Rightarrow> shared \<Rightarrow> shared" where
  "take_value i m =
     (if pending_value_set m i
      then put_slot (Live_value i) (stored (slot_value (pending_values m i)) (live_values m i))
             (m\<lparr>pending_value_set := (pending_value_set m)(i := False)\<rparr>)
      else m)"

lemma pending_same [simp]:
  "\<not> pending_value_set m i \<Longrightarrow> m\<lparr>pending_value_set := (pending_value_set m)(i := False)\<rparr> = m"
  "\<not> pending_mission m \<Longrightarrow> m\<lparr>pending_mission := False\<rparr> = m"
  by (cases m; auto simp: fun_eq_iff)+

lemma run_apply_value:
  assumes "at_rest m"
  shows "run (apply_pending_value i (model, app)) m =
    ((spec_apply_value (spec_staged (runtime_abs m)) i model,
      note_value (spec_staged (runtime_abs m)) i app), take_value i m)"
  using assms
  by (auto simp: apply_pending_value_def run_simps exchange_value_set_def take_value_def
      spec_apply_value_def note_value_def runtime_abs_def at_rest_def slots_even_def)

lemma at_rest_take_value: "at_rest m \<Longrightarrow> at_rest (take_value i m)"
  by (auto simp: at_rest_def slots_even_def take_value_def)

lemma staged_take_value:
  "spec_staged (runtime_abs (take_value i m)) = (spec_staged (runtime_abs m))(i := None)"
  by (auto simp: runtime_abs_def take_value_def fun_eq_iff)

lemma staged_cong:
  "(\<And>i. i \<in> set is \<Longrightarrow> f i = g i) \<Longrightarrow> fold (spec_apply_value f) is x = fold (spec_apply_value g) is x"
  "(\<And>i. i \<in> set is \<Longrightarrow> f i = g i) \<Longrightarrow> fold (note_value f) is y = fold (note_value g) is y"
  by (auto intro!: fold_cong simp: spec_apply_value_def note_value_def fun_eq_iff)

lemma run_apply_values:
  "distinct is \<Longrightarrow> at_rest m \<Longrightarrow>
   run (for_each is apply_pending_value (model, app)) m =
     ((fold (spec_apply_value (spec_staged (runtime_abs m))) is model,
       fold (note_value (spec_staged (runtime_abs m))) is app), fold take_value is m)"
proof (induction "is" arbitrary: model app m)
  case (Cons i "is")
  let ?s = "spec_staged (runtime_abs m)"
  have "fold (spec_apply_value (?s(i := None))) is x = fold (spec_apply_value ?s) is x"
    "fold (note_value (?s(i := None))) is y = fold (note_value ?s) is y" for x y
    using Cons.prems(1) by (auto intro: staged_cong)
  with Cons show ?case
    by (simp add: run_bind run_apply_value at_rest_take_value staged_take_value)
qed simp

lemma fold_take_value: "at_rest m \<Longrightarrow> at_rest (fold take_value is m)"
  by (induction "is" arbitrary: m) (simp_all add: at_rest_take_value)

lemma abs_take_values:
  "runtime_abs (fold take_value is m) = (runtime_abs m)
     \<lparr>spec_live := (\<lambda>i. if i \<in> set is \<and> pending_value_set m i then slot_value (pending_values m i)
                        else slot_value (live_values m i)),
      spec_staged := (\<lambda>i. if i \<in> set is then None else spec_staged (runtime_abs m) i)\<rparr>"
proof (induction "is" arbitrary: m)
  case Nil
  then show ?case by (simp add: runtime_abs_def)
next
  case (Cons i "is")
  then show ?case by (auto simp: runtime_abs_def take_value_def fun_eq_iff)
qed

lemma take_values_frame [simp]:
  "pending_mission (fold take_value is m) = pending_mission m"
  "pending_waypoints (fold take_value is m) = pending_waypoints m"
  "pending_segments (fold take_value is m) = pending_segments m"
  "mission_sequence (fold take_value is m) = mission_sequence m"
  by (induction "is" arbitrary: m) (simp_all add: take_value_def)

lemma take_values_pending [simp]:
  "pending_value_set (fold take_value is m) i \<longleftrightarrow> i \<notin> set is \<and> pending_value_set m i"
  by (induction "is" arbitrary: m) (auto simp: take_value_def)

text \<open>The staged mission at rest: every load succeeds.\<close>

lemma run_load_row:
  assumes "at_rest m"
  shows "run (for_each cs (load_cell r) (True, w)) m =
    ((True, w(r := (\<lambda>c. if c \<in> set cs then slot_value (pending_waypoints m r c) else w r c))), m)"
proof (induction cs arbitrary: w)
  case Nil
  then show ?case by simp
next
  case (Cons c cs)
  have "even (sequence (pending_waypoints m r c))"
    using assms by (simp add: at_rest_def slots_even_def)
  then have "run (load_cell r c (True, w)) m =
      ((True, w(r := (w r)(c := slot_value (pending_waypoints m r c)))), m)"
    by (simp add: load_cell_def run_simps)
  then show ?case by (simp add: run_bind Cons) (auto simp: fun_eq_iff)
qed

lemma run_load_rows:
  assumes "at_rest m"
  shows "run (for_each rs (\<lambda>r. for_each cs (load_cell r)) (True, w)) m =
    ((True, \<lambda>r c. if r \<in> set rs \<and> c \<in> set cs then slot_value (pending_waypoints m r c) else w r c), m)"
proof (induction rs arbitrary: w)
  case Nil
  then show ?case by simp
next
  case (Cons r rs)
  then show ?case by (simp add: run_bind run_load_row [OF assms]) (auto simp: fun_eq_iff)
qed

lemma run_load_mission:
  assumes "at_rest m"
  shows "run load_mission m =
    (Some (cells (\<lambda>r c. slot_value (pending_waypoints m r c)), pending_segments m), m)"
proof -
  have "run (load_waypoints (True, \<lambda>_ _. 0)) m =
      ((True, cells (\<lambda>r c. slot_value (pending_waypoints m r c))), m)"
    unfolding load_waypoints_def run_load_rows [OF assms] by (auto simp: cells_def fun_eq_iff)
  then show ?thesis
    using assms by (simp add: load_mission_def run_simps run_bind at_rest_def)
qed

lemma run_apply_mission:
  assumes "at_rest m"
  shows "run (apply_pending_mission (model, app)) m =
    (case spec_mission (runtime_abs m) of
       None \<Rightarrow> ((model, app), m)
     | Some (w, n) \<Rightarrow>
         ((apply_route model w n,
           app\<lparr>applied_waypoints := w, applied_segments := n, applied_mission := True\<rparr>),
          m\<lparr>pending_mission := False\<rparr>))"
proof -
  have "at_rest (m\<lparr>pending_mission := False\<rparr>)" using assms by (simp add: at_rest_def slots_even_def)
  from run_load_mission [OF this] show ?thesis
    by (simp add: apply_pending_mission_def run_simps run_bind exchange_mission_def runtime_abs_def)
qed

lemma spec_apply_mission [simp]: "spec_mission (spec_apply a) = None"
  by (simp add: spec_apply_def)

lemma apply_run:
  assumes "at_rest m"
  shows "\<exists>m'. run (cubs2_runtime_control_apply (Some model) app) m =
      ((Some (spec_apply_model (runtime_abs m) model), spec_applied (runtime_abs m) app), m') \<and>
    at_rest m' \<and> runtime_abs m' = spec_apply (runtime_abs m)"
proof -
  let ?idx = "[0..<length value_table]"
  let ?m1 = "fold take_value ?idx m"
  let ?model = "fold (spec_apply_value (spec_staged (runtime_abs m))) ?idx model"
  let ?app = "fold (note_value (spec_staged (runtime_abs m))) ?idx app"
  have rest: "at_rest ?m1" by (rule fold_take_value [OF assms])
  have idx: "pending_value_set m i \<Longrightarrow> i < length value_table" for i
    using assms by (simp add: at_rest_def)
  have staged: "runtime_abs (?m1\<lparr>pending_mission := False\<rparr>) = spec_apply (runtime_abs m)"
    using abs_take_values [of ?idx m] idx
    by (auto simp: runtime_abs_def spec_apply_def fun_eq_iff)
  have rest': "at_rest (?m1\<lparr>pending_mission := False\<rparr>)"
    using rest by (simp add: at_rest_def slots_even_def)
  have mis: "spec_mission (runtime_abs ?m1) = spec_mission (runtime_abs m)"
    by (simp add: runtime_abs_def)
  have run: "run (cubs2_runtime_control_apply (Some model) app) m =
      (let ((model, app), m') = run (apply_pending_mission (?model, ?app)) ?m1
       in ((Some model, app), m'))"
    by (simp add: cubs2_runtime_control_apply_def run_bind run_apply_values [OF distinct_upt assms]
        split: prod.split)
  show ?thesis
  proof (cases "spec_mission (runtime_abs m)")
    case None
    then have "?m1\<lparr>pending_mission := False\<rparr> = ?m1" by (simp add: runtime_abs_def split: if_splits)
    with rest staged None show ?thesis
      by (simp add: run run_apply_mission [OF rest] mis spec_apply_model_def spec_applied_def del: length_values)
  next
    case (Some wn)
    then show ?thesis using rest' staged
      by (cases wn) (simp add: run run_apply_mission [OF rest] mis spec_apply_model_def spec_applied_def
          del: length_values)
  qed
qed

text \<open>
  C18 Refinement of apply: at rest, one cycle writes every staged value and the staged
  mission to the controller at once, makes the values the live ones, and leaves nothing
  staged.
\<close>

theorem apply_refines:
  assumes "at_rest m"
  shows "\<exists>m'. run (cubs2_runtime_control_apply (Some model) app) m =
      ((Some (spec_apply_model (runtime_abs m) model), spec_applied (runtime_abs m) app), m') \<and>
    at_rest m' \<and> runtime_abs m' = spec_apply (runtime_abs m)"
  using assms by (rule apply_run)

section \<open>Witnesses\<close>

lemma example_mission:
  "mission_of example_trajectory_reader (Some [0]) = Inr (0, mission_points (\<lambda>_. example_segment) 1, 1)"
  by (simp add: mission_of_def example_simps segment_ok_def vec3_finite_def isfinite32_def
      f32_unpack_def fp_unpack_def Let_def)

end
