(* ===== verification/Runtime_Cycle.thy ===== *)
theory Runtime_Cycle
  imports Runtime_Spec
begin

text \<open>
  Whole histories of the runtime control: the state after initialisation, a parameter set,
  applied and read back, and the restoration of everything applied so far after the
  controller was initialised again. The restoration facts hold however the transport
  thread interleaves, since they only read members of the controller thread.
\<close>

section \<open>After initialisation\<close>

lemma init_value_slots_fold:
  "fold (init_value_slots model) is m = m
     \<lparr>pending_values := (\<lambda>i. if i \<in> set is then
          get_slot (Pending_value i) (init_value_slots model i m) else pending_values m i),
      live_values := (\<lambda>i. if i \<in> set is then
          get_slot (Live_value i) (init_value_slots model i m) else live_values m i),
      pending_value_set := (\<lambda>i. i \<notin> set is \<and> pending_value_set m i)\<rparr>"
proof (induction "is" arbitrary: m)
  case Nil
  show ?case by (rule shared.equality) (simp_all add: fun_eq_iff)
next
  case (Cons i "is")
  show ?case
    unfolding fold.simps comp_apply Cons
    by (rule shared.equality)
       (auto simp: init_value_slots_def atomic_double_init_value_def Let_def fun_eq_iff)
qed

lemma init_row_fold:
  "fold (init_waypoint_slots model row) cs m = m
     \<lparr>pending_waypoints := (\<lambda>r c. if r = row \<and> c \<in> set cs then
        \<lparr>sequence = 0, low = low_half (route_waypoints model r c), high = high_half (route_waypoints model r c)\<rparr>
        else pending_waypoints m r c)\<rparr>"
proof (induction cs arbitrary: m)
  case (Cons c cs)
  show ?case
    unfolding fold.simps comp_apply Cons
    by (rule shared.equality)
       (auto simp: init_waypoint_slots_def atomic_double_init_value_def fun_eq_iff)
qed (auto intro!: shared.equality)

lemma init_rows_fold:
  "fold (\<lambda>row. fold (init_waypoint_slots model row) cs) rs m = m
     \<lparr>pending_waypoints := (\<lambda>r c. if r \<in> set rs \<and> c \<in> set cs then
        \<lparr>sequence = 0, low = low_half (route_waypoints model r c), high = high_half (route_waypoints model r c)\<rparr>
        else pending_waypoints m r c)\<rparr>"
proof (induction rs arbitrary: m)
  case (Cons r rs)
  show ?case
    unfolding fold.simps comp_apply Cons
    by (rule shared.equality) (auto simp: init_row_fold fun_eq_iff)
qed (auto intro!: shared.equality)

definition init_shared :: "'z outer_loop_scheme \<Rightarrow> shared" where
  "init_shared model =
     fst (fst (snd (cubs2_runtime_control_init (\<lambda>_ _ e. (True, e))
       (Some model) (zero_shared, zero_applied) ())))"

lemma init_result:
  "fst (snd (cubs2_runtime_control_init register (Some model) g env)) =
     (init_shared model, zero_applied)"
  by (simp add: cubs2_runtime_control_init_def init_shared_def Let_def split: prod.split)

lemma zero_slot_simps [simp]: "slot_value zero_slot = 0" "sequence zero_slot = 0"
  by (simp_all add: zero_slot_def slot_value_def join_halves_def)

text \<open>
  After initialisation nothing is staged, no operation is in progress, the plan version
  is 1, and the live values are those of the controller.
\<close>

theorem init_establishes:
  "at_rest (init_shared model) \<and>
   runtime_abs (init_shared model) =
     \<lparr>spec_version = 1,
      spec_live = (\<lambda>i. if i < length value_table then leaf model (live_member (value_table ! i)) else 0),
      spec_staged = Map.empty, spec_mission = None\<rparr>"
  unfolding init_shared_def cubs2_runtime_control_init_def Let_def option.case
    init_value_slots_fold init_rows_fold
  by (auto simp: at_rest_def slots_even_def runtime_abs_def init_value_slots_def zero_shared_def
      atomic_double_init_value_def Let_def PENDING_SIZE_def fun_eq_iff split: prod.split)

lemma init_pending:
  "slot_value (pending_values (init_shared model) i) =
     (if i < length value_table then leaf model (live_member (value_table ! i)) else 0)"
  unfolding init_shared_def cubs2_runtime_control_init_def Let_def option.case
    init_value_slots_fold init_rows_fold
  by (auto simp: init_value_slots_def zero_shared_def atomic_double_init_value_def Let_def
      PENDING_SIZE_def split: prod.split)

text \<open>Without a controller nothing happens, and a refused registration is reported.\<close>

lemma init_null [simp]: "cubs2_runtime_control_init register None g env = (False, g, env)"
  by (simp add: cubs2_runtime_control_init_def)

section \<open>Set, apply, get\<close>

lemma spec_apply_values_leaf:
  assumes "distinct is" "set is \<subseteq> {..<length value_table}" "j < length value_table"
  shows "leaf (fold (spec_apply_value staged) is model) (live_member (value_table ! j)) =
      (case if j \<in> set is then staged j else None of
         None \<Rightarrow> leaf model (live_member (value_table ! j)) | Some v \<Rightarrow> v)"
    and "leaf (fold (spec_apply_value staged) is model) (mirror_member (value_table ! j)) =
      (case if j \<in> set is then staged j else None of
         None \<Rightarrow> leaf model (mirror_member (value_table ! j)) | Some v \<Rightarrow> v)"
  using assms
  by (induction "is" arbitrary: model)
     (auto simp: spec_apply_value_def apply_value_leaf simp del: length_values split: option.split)

lemma spec_apply_model_leaf:
  assumes "j < length value_table"
  shows "leaf (spec_apply_model a model) (live_member (value_table ! j)) =
      (case spec_staged a j of None \<Rightarrow> leaf model (live_member (value_table ! j)) | Some v \<Rightarrow> v)"
    and "leaf (spec_apply_model a model) (mirror_member (value_table ! j)) =
      (case spec_staged a j of None \<Rightarrow> leaf model (mirror_member (value_table ! j)) | Some v \<Rightarrow> v)"
proof -
  have *: "set [0..<length value_table] \<subseteq> {..<length value_table}" "j \<in> set [0..<length value_table]"
    using assms by (auto simp del: length_values)
  note leafs = spec_apply_values_leaf [OF distinct_upt *(1) assms]
  show "leaf (spec_apply_model a model) (live_member (value_table ! j)) =
      (case spec_staged a j of None \<Rightarrow> leaf model (live_member (value_table ! j)) | Some v \<Rightarrow> v)"
    and "leaf (spec_apply_model a model) (mirror_member (value_table ! j)) =
      (case spec_staged a j of None \<Rightarrow> leaf model (mirror_member (value_table ! j)) | Some v \<Rightarrow> v)"
    using *(2) by (auto simp: spec_apply_model_def Let_def leafs simp del: length_values set_upt
        split: option.split)
qed

text \<open>
  C20 Round trip: a value that \<open>param_set\<close> accepts is, after the next cycle, what the
  controller uses in both of its copies, and what \<open>param_get\<close> reports under every name of
  the parameter.
\<close>

theorem set_apply_get:
  assumes "at_rest m" and "param_set_args rd request = Some (nm, v)"
    and "find_value nm = int i" and "isfinite64 v"
    and "run (handle_param_set rd fb request capacity) m = (r1, m1)"
    and "run (cubs2_runtime_control_apply (Some model) app) m1 = ((Some model', app'), m2)"
    and "param_get_args grd get_request = Some nm'" and "find_value nm' = find_value nm"
  shows "leaf model' (live_member (value_table ! i)) = v \<and> leaf model' (mirror_member (value_table ! i)) = v \<and>
    run (handle_param_get grd fb get_request capacity) m2 =
      (build_param_get_reply fb capacity Accepted nm' v 0, m2)"
proof -
  have i: "i < length value_table" using assms(3) find_value_range [of nm] by auto
  have m1: "m1 = stage_value i v m"
    using assms by (simp add: param_set_run at_rest_def)
  then have "at_rest m1" using assms(1) i by (simp add: at_rest_stage_value del: length_values)
  from apply_run [OF this, of model app] assms(6) have
    model': "model' = spec_apply_model (runtime_abs m1) model" and m2: "at_rest m2"
    "runtime_abs m2 = spec_apply (runtime_abs m1)" by auto
  have staged: "spec_staged (runtime_abs m1) i = Some v"
    by (simp add: m1 abs_stage_value spec_set_value_def)
  then have leafs: "leaf model' (live_member (value_table ! i)) = v" "leaf model' (mirror_member (value_table ! i)) = v"
    by (simp_all add: model' spec_apply_model_leaf i del: length_values)
  have "even (sequence (live_values m2 i))" using m2(1) by (simp add: at_rest_def slots_even_def)
  then have "run (handle_param_get grd fb get_request capacity) m2 =
      (build_param_get_reply fb capacity Accepted nm' v 0, m2)"
    using staged assms(3,7,8) by (simp add: param_get_run m2(2) spec_apply_def)
  with leafs show ?thesis by blast
qed

section \<open>Restoration\<close>

lemma always_for_each_fold:
  "(\<And>i s. always (\<lambda>s'. s' = f i s) (b i s)) \<Longrightarrow> always (\<lambda>s'. s' = fold f is s) (for_each is b s)"
proof (induction "is" arbitrary: s)
  case (Cons i "is")
  have "always (\<lambda>s'. s' = fold f (i # is) s) (for_each is b s')" if "s' = f i s" for s'
    using Cons that by simp
  then show ?case using Cons.prems by (auto intro: always_bind)
qed simp

text \<open>
  The controller carries what was applied: every value in both copies, and the mission in
  both copies of the route. \<open>applied\<close> records it for the controller's next initialisation.
\<close>

definition carries :: "applied \<Rightarrow> 'z outer_loop_scheme \<Rightarrow> bool" where
  "carries app model \<longleftrightarrow>
     list_all (\<lambda>i. applied_value_set app i \<longrightarrow>
       leaf model (live_member (value_table ! i)) = applied_values app i \<and>
       leaf model (mirror_member (value_table ! i)) = applied_values app i) [0..<length value_table] \<and>
     (applied_mission app \<longrightarrow>
       route_nSegments model = applied_segments app \<and>
       guidance_route_nSegments model = applied_segments app \<and>
       list_all (\<lambda>r. list_all (\<lambda>c.
         route_waypoints model r c = applied_waypoints app (min r (unat (applied_segments app))) c \<and>
         guidance_route_waypoints model r c = applied_waypoints app (min r (unat (applied_segments app))) c)
         [0..<3]) [0..<MAX_POINTS])"

lemma carries_init: "carries zero_applied model"
  by (simp add: carries_def zero_applied_def list_all_iff)

lemma carries_value:
  assumes "carries app model" "i < length value_table"
  shows "carries (app\<lparr>applied_values := (applied_values app)(i := v),
    applied_value_set := (applied_value_set app)(i := True)\<rparr>) (apply_value model i v)"
  using assms
  by (auto simp: carries_def list_all_iff apply_value_leaf simp del: length_values)

lemma carries_mission:
  assumes "carries app model"
  shows "carries (app\<lparr>applied_waypoints := w, applied_segments := n, applied_mission := True\<rparr>)
    (apply_route model w n)"
  using assms by (auto simp: carries_def list_all_iff apply_route_eq routed_def)

lemma always_apply_value:
  "i < length value_table \<Longrightarrow> carries (snd c) (fst c) \<Longrightarrow>
   always (\<lambda>c. carries (snd c) (fst c)) (apply_pending_value i c)"
  unfolding apply_pending_value_def
  by (auto intro!: always_bind' carries_value split: prod.split option.split simp del: length_values)

lemma always_apply_mission:
  "carries (snd c) (fst c) \<Longrightarrow> always (\<lambda>c. carries (snd c) (fst c)) (apply_pending_mission c)"
  unfolding apply_pending_mission_def
  by (auto intro!: always_bind' carries_mission split: prod.split option.split)

lemma always_apply_carries:
  assumes "carries app model"
  shows "always (\<lambda>(mo, app). \<forall>model. mo = Some model \<longrightarrow> carries app model)
    (cubs2_runtime_control_apply (Some model) app)"
  unfolding cubs2_runtime_control_apply_def option.case
proof (rule always_bind [where Q = "\<lambda>c. carries (snd c) (fst c)"])
  let ?I = "\<lambda>c :: 'a controller. carries (snd c) (fst c)"
  show "always ?I (for_each [0..<length value_table] apply_pending_value (model, app))"
    by (rule always_for_each) (use assms in \<open>auto intro: always_apply_value\<close>)
  show "always (\<lambda>(mo, app). \<forall>model. mo = Some model \<longrightarrow> carries app model)
      (pbind (apply_pending_mission c) (\<lambda>(model, app). Ret (Some model, app)))" if "?I c" for c
    by (rule always_bind [OF always_apply_mission [OF that]]) auto
qed

text \<open>Apply keeps the record of what the controller carries complete, under any interleaving.\<close>

theorem apply_carries:
  assumes "interleaved n (cubs2_runtime_control_apply (Some model) app) w m (Some model', app') w' m'"
    and "carries app model"
  shows "carries app' model'"
  using interleaved_always [OF assms(1) always_apply_carries [OF assms(2)]] by simp

text \<open>The result of a restoration does not depend on the shared state.\<close>

definition restored :: "applied \<Rightarrow> 'z outer_loop_scheme \<Rightarrow> 'z outer_loop_scheme" where
  "restored app model =
     (let model = fold (spec_apply_value
            (\<lambda>i. if applied_value_set app i then Some (applied_values app i) else None))
            [0..<length value_table] model
      in if applied_mission app
         then apply_route model (applied_waypoints app) (applied_segments app) else model)"

lemma always_restore:
  "always (\<lambda>r. r = Some (restored app model)) (cubs2_runtime_control_restore (Some model) app)"
proof -
  let ?f = "spec_apply_value (\<lambda>i. if applied_value_set app i then Some (applied_values app i) else None)"
  have "always (\<lambda>s'. s' = ?f i s) (restore_value app i s)" for i and s :: "'a outer_loop_scheme"
    by (auto simp: restore_value_def spec_apply_value_def intro!: always_bind')
  then have "always (\<lambda>s'. s' = fold ?f [0..<length value_table] model)
      (for_each [0..<length value_table] (restore_value app) model)"
    by (rule always_for_each_fold)
  then show ?thesis
    unfolding cubs2_runtime_control_restore_def restored_def option.case Let_def
    by (rule always_bind) simp
qed

lemma carries_restored: "carries app (restored app model)"
proof -
  have *: "set [0..<length value_table] \<subseteq> {..<length value_table}" by auto
  note leafs = spec_apply_values_leaf [OF distinct_upt *]
  show ?thesis
    by (auto simp: carries_def list_all_iff restored_def Let_def leafs apply_route_eq routed_def
        simp del: length_values)
qed

text \<open>
  C22 Restore brings back everything: whatever state the controller was initialised to, and
  whatever the other thread does meanwhile, it carries all that was applied before.
\<close>

theorem restore_carries:
  assumes "interleaved n (cubs2_runtime_control_restore (Some model) app) w m (Some model') w' m'"
  shows "carries app model'"
  using interleaved_always [OF assms always_restore] carries_restored by auto

text \<open>What writes of values and routes keep of the controller, apply and restore keep.\<close>

lemma apply_keeps:
  assumes "\<And>model i v. J model \<Longrightarrow> J (apply_value model i v)"
    and "\<And>model w n. J model \<Longrightarrow> J (apply_route model w n)" and "J model"
  shows "always (\<lambda>(r, app). \<exists>model. r = Some model \<and> J model) (cubs2_runtime_control_apply (Some model) app)"
proof -
  let ?I = "\<lambda>c :: 'a outer_loop_scheme \<times> applied. J (fst c)"
  have v: "always ?I (apply_pending_value i c)" if "?I c" for i c
    using that assms(1) unfolding apply_pending_value_def
    by (auto intro!: always_bind' split: prod.split option.split)
  have r: "always ?I (apply_pending_mission c)" if "?I c" for c
    using that assms(2) unfolding apply_pending_mission_def
    by (auto intro!: always_bind' split: prod.split option.split)
  have "always ?I (for_each [0..<length value_table] apply_pending_value (model, app))"
    by (rule always_for_each) (use assms(3) v in simp_all)
  then show ?thesis unfolding cubs2_runtime_control_apply_def option.case
    by (rule always_bind) (auto intro!: always_bind [OF r])
qed

lemma restore_keeps:
  assumes "\<And>model i v. J model \<Longrightarrow> J (apply_value model i v)"
    and "\<And>model w n. J model \<Longrightarrow> J (apply_route model w n)" and "J model"
  shows "always (\<lambda>mo. \<exists>model. mo = Some model \<and> J model) (cubs2_runtime_control_restore (Some model) app)"
proof -
  have "always J (restore_value app i s)" if "J s" for i and s :: "'a outer_loop_scheme"
    using that assms(1) by (auto simp: restore_value_def intro!: always_bind')
  then have "always J (for_each [0..<length value_table] (restore_value app) model)"
    by (rule always_for_each) (use assms(3) in simp_all)
  then show ?thesis
    unfolding cubs2_runtime_control_restore_def option.case
    by (rule always_bind) (use assms(2) in auto)
qed

section \<open>Witnesses\<close>

lemma init_at_rest [simp]: "at_rest (init_shared model)"
  using init_establishes [of model] by blast

lemma init_abs: "runtime_abs (init_shared model) =
    \<lparr>spec_version = 1, spec_live = (\<lambda>i. if i < length value_table then leaf model (live_member (value_table ! i)) else 0),
     spec_staged = Map.empty, spec_mission = None\<rparr>"
  using init_establishes [of model] by blast

text \<open>A mission sent after initialisation gets version 2.\<close>

theorem query_refines_witness:
  "at_rest (snd (run (runtime_query example_synapse ''trajectory_set'' (Some [0]) 16) (init_shared example_model))) \<and>
   spec_version (runtime_abs
     (snd (run (runtime_query example_synapse ''trajectory_set'' (Some [0]) 16) (init_shared example_model)))) = 2"
proof -
  have "trajectory_reader example_synapse = example_trajectory_reader" by (simp add: example_synapse_def)
  then have "spec_version (spec_query example_synapse ''trajectory_set'' (Some [0])
      (runtime_abs (init_shared example_model))) = 2"
    by (simp add: spec_query_def spec_trajectory_set_def example_mission init_abs spec_set_mission_def
        next_version_def)
  then show ?thesis
    using query_refines [OF init_at_rest [of example_model], of example_synapse "''trajectory_set''" "Some [0]" 16]
    by simp
qed

theorem apply_refines_witness:
  "\<exists>m'. run (cubs2_runtime_control_apply (Some example_model) zero_applied) (init_shared example_model) =
      ((Some (spec_apply_model (runtime_abs (init_shared example_model)) example_model),
        spec_applied (runtime_abs (init_shared example_model)) zero_applied), m') \<and>
    at_rest m' \<and> runtime_abs m' = spec_apply (runtime_abs (init_shared example_model))"
  by (rule apply_refines [OF init_at_rest])

lemma example_set_args: "param_set_args example_set_reader (Some [0]) = Some (''tecs.pitchKi'', 0x3FE0000000000000)"
  by (simp add: param_set_args_def example_simps)

lemma example_get_args: "param_get_args example_get_reader (Some [0]) = Some ''tecsParams_pitchKi''"
  by (simp add: param_get_args_def example_simps)

text \<open>Set under the public name, and read back under the member's name.\<close>

theorem set_apply_get_witness:
  "\<exists>r1 m1 model' app' m2.
     run (handle_param_set example_set_reader example_builder (Some [0]) 16) (init_shared example_model) = (r1, m1) \<and>
     run (cubs2_runtime_control_apply (Some example_model) zero_applied) m1 = ((Some model', app'), m2) \<and>
     leaf model' (live_member (value_table ! 11)) = 0x3FE0000000000000 \<and>
     run (handle_param_get example_get_reader example_builder (Some [0]) 16) m2 =
       (build_param_get_reply example_builder 16 Accepted ''tecsParams_pitchKi'' 0x3FE0000000000000 0, m2)"
proof -
  let ?m = "init_shared example_model"
  let ?set = "run (handle_param_set example_set_reader example_builder (Some [0]) 16) ?m"
  obtain r1 m1 where 1: "?set = (r1, m1)" by (cases ?set)
  have "find_value ''tecs.pitchKi'' = int 11" by (simp add: example_index)
  have "m1 = stage_value 11 0x3FE0000000000000 ?m"
    using 1 init_at_rest [of example_model]
    by (simp add: param_set_run example_set_args example_index at_rest_def)
  then have "at_rest m1" by (simp add: at_rest_stage_value)
  from apply_run [OF this, of example_model zero_applied] obtain model' app' m2 where
    2: "run (cubs2_runtime_control_apply (Some example_model) zero_applied) m1 = ((Some model', app'), m2)"
    by blast
  have "leaf model' (live_member (value_table ! 11)) = 0x3FE0000000000000 \<and>
      leaf model' (mirror_member (value_table ! 11)) = 0x3FE0000000000000 \<and>
      run (handle_param_get example_get_reader example_builder (Some [0]) 16) m2 =
        (build_param_get_reply example_builder 16 Accepted ''tecsParams_pitchKi'' 0x3FE0000000000000 0, m2)"
    by (rule set_apply_get [OF init_at_rest example_set_args _ _ 1 2 example_get_args])
       (simp_all add: example_index)
  with 1 2 show ?thesis by blast
qed

theorem apply_carries_witness:
  "\<exists>model' app' m'. interleaved 0 (cubs2_runtime_control_apply (Some example_model) zero_applied) (Ret ())
     (init_shared example_model) (Some model', app') (Ret ()) m' \<and> carries app' model'"
proof -
  from apply_run [OF init_at_rest] obtain model' app' m' where
    "run (cubs2_runtime_control_apply (Some example_model) zero_applied) (init_shared example_model) =
      ((Some model', app'), m')" by blast
  note i = interleaved_run [OF this, where w = "Ret ()"]
  from i apply_carries [OF i carries_init] show ?thesis by blast
qed

text \<open>An applied value and mission come back on a controller that has neither.\<close>

theorem restore_carries_witness:
  "\<exists>model' m'. interleaved 0 (cubs2_runtime_control_restore (Some example_model)
       (zero_applied\<lparr>applied_values := (\<lambda>_. 0x3FE0000000000000), applied_value_set := (\<lambda>i. i = 11),
         applied_segments := 2, applied_mission := True\<rparr>)) (Ret ())
       (init_shared example_model) (Some model') (Ret ()) m' \<and>
     leaf model' (live_member (value_table ! 11)) = 0x3FE0000000000000 \<and> route_nSegments model' = 2"
proof -
  let ?app = "zero_applied\<lparr>applied_values := (\<lambda>_. 0x3FE0000000000000), applied_value_set := (\<lambda>i. i = 11),
    applied_segments := 2, applied_mission := True\<rparr>"
  let ?r = "run (cubs2_runtime_control_restore (Some example_model) ?app) (init_shared example_model)"
  obtain r m' where run: "?r = (r, m')" by (cases ?r)
  from interleaved_run [OF run, where w = "Ret ()"] interleaved_always [OF _ always_restore]
  obtain model' where *: "r = Some model'" by blast
  from interleaved_run [OF run, where w = "Ret ()"] have
    i: "interleaved 0 (cubs2_runtime_control_restore (Some example_model) ?app) (Ret ())
      (init_shared example_model) (Some model') (Ret ()) m'" by (simp only: *)
  from restore_carries [OF i] have "leaf model' (live_member (value_table ! 11)) = 0x3FE0000000000000"
    "route_nSegments model' = 2"
    by (auto simp: carries_def list_all_iff)
  with i show ?thesis by blast
qed

end
