(* ===== verification/Interleaving.thy ===== *)
theory Interleaving
  imports Runtime_Cycle
begin

text \<open>
  The two threads of the runtime control together. The transport thread serves a list of
  requests; the controller thread applies what is staged. First the guarantee of the
  transport thread: each of its steps is a \<open>service_step\<close>. Then what the controller thread
  sees among such steps: an applied mission is one mission that was sent, as a whole, and
  an applied value is finite. Last, whole flights of any number of cycles.
\<close>

section \<open>The transport thread\<close>

type_synonym query = "string \<times> bytes option \<times> nat"

definition serve :: "('r, 'v, 'g, 't, 's, 'b) synapse \<Rightarrow> query list \<Rightarrow> (shared, unit) prog" where
  "serve syn queries =
     for_each queries (\<lambda>(service, request, capacity) _.
       pbind (runtime_query syn service request capacity) (\<lambda>_. Ret ())) ()"

text \<open>The missions the requests ask for.\<close>

definition sent :: "('r, 'v, 'g, 't, 's, 'b) synapse \<Rightarrow> query list \<Rightarrow> mission set" where
  "sent syn queries =
     {mis. \<exists>service request capacity expected.
        (service, request, capacity) \<in> set queries \<and>
        mission_of (trajectory_reader syn) request = Inr (expected, mis)}"

text \<open>The staged mission as the reader would find it, and its storage.\<close>

definition mission_view :: "shared \<Rightarrow> mission" where
  "mission_view m = (cells (\<lambda>r c. slot_value (pending_waypoints m r c)), pending_segments m)"

definition mission_data :: "shared \<Rightarrow> (nat \<Rightarrow> nat \<Rightarrow> atomic_double) \<times> u32" where
  "mission_data m = (pending_waypoints m, pending_segments m)"

definition mission_among :: "mission set \<Rightarrow> shared \<Rightarrow> bool" where
  "mission_among S m \<longleftrightarrow> (even (mission_sequence m) \<longrightarrow> mission_view m \<in> S)"

definition mission_step :: "shared \<Rightarrow> shared \<Rightarrow> bool" where
  "mission_step x y \<longleftrightarrow>
     mission_sequence y = mission_sequence x + 1 \<and> mission_data y = mission_data x \<or>
     mission_sequence y = mission_sequence x \<and>
       (mission_data y = mission_data x \<or> odd (mission_sequence x))"

abbreviation finite_values :: "f64 set" where
  "finite_values \<equiv> {v. isfinite64 v}"

definition service_step :: "mission set \<Rightarrow> shared \<Rightarrow> shared \<Rightarrow> bool" where
  "service_step S x y \<longleftrightarrow>
     live_values y = live_values x \<and>
     (\<forall>i. slot_step (Pending_value i) x y \<and>
       (slot_among (Pending_value i) finite_values x \<longrightarrow> slot_among (Pending_value i) finite_values y)) \<and>
     mission_step x y \<and> (mission_among S x \<longrightarrow> mission_among S y) \<and>
     (pending_mission y \<longrightarrow> pending_mission x \<or> mission_among S y) \<and>
     (plan_version x \<noteq> 0 \<longrightarrow> plan_version y \<noteq> 0)"

interpretation mission_lock: seqlock mission_sequence mission_data "service_step S" for S
  by unfold_locales (auto simp: service_step_def mission_step_def)

text \<open>What the controller thread leaves alone.\<close>

definition controller_step :: "shared \<Rightarrow> shared \<Rightarrow> bool" where
  "controller_step x y \<longleftrightarrow>
     plan_version y = plan_version x \<and> command_writer y = command_writer x \<and>
     mission_sequence y = mission_sequence x \<and> pending_segments y = pending_segments x \<and>
     pending_values y = pending_values x \<and> pending_waypoints y = pending_waypoints x"

section \<open>The guarantee of the transport thread\<close>

text \<open>The transport thread between two requests: no store of its own is half done.\<close>

definition quiet :: "shared \<Rightarrow> bool" where
  "quiet m \<longleftrightarrow> \<not> command_writer m \<and> even (mission_sequence m) \<and>
     (\<forall>i. even (sequence (pending_values m i))) \<and> (\<forall>r c. even (sequence (pending_waypoints m r c)))"

lemma kept_simps:
  assumes "\<And>x y. controller_step x y \<Longrightarrow> P x \<Longrightarrow> P y"
  shows "kept_by controller_step P"
  using assms by (auto simp: kept_by_def)

lemma service_step_same:
  assumes "live_values y = live_values x" "pending_values y = pending_values x"
    "mission_sequence y = mission_sequence x" "mission_data y = mission_data x"
    "pending_mission y \<longrightarrow> pending_mission x \<or> mission_among S x"
    "plan_version x \<noteq> 0 \<longrightarrow> plan_version y \<noteq> 0"
  shows "service_step S x y"
  using assms
  by (auto simp: service_step_def slot_step_def slot_change_def slot_among_def mission_step_def
      mission_among_def mission_view_def mission_data_def)

text \<open>The steps all handlers share; with the writer flag taken the thread is \<open>locked\<close>.\<close>

definition locked :: "shared \<Rightarrow> bool" where
  "locked m \<longleftrightarrow> command_writer m \<and> quiet (m\<lparr>command_writer := False\<rparr>)"

lemma kept_quiet [simp]: "kept_by controller_step quiet" "kept_by controller_step locked"
  by (auto intro!: kept_simps simp: quiet_def locked_def controller_step_def)

lemma keeps_quiet_Ret [writer_intros]:
  "quiet m \<Longrightarrow> keeps controller_step (service_step S) (\<lambda>_. quiet) (Ret r) m"
  by (rule keeps_RetI) simp_all

lemma keeps_test_and_set [writer_intros]:
  "quiet m \<Longrightarrow>
   keeps controller_step (service_step S) (\<lambda>busy x. locked x \<and> busy = 0) (atomic test_and_set_writer) m"
  by (rule keeps_atomicI [where P = quiet])
     (auto simp: quiet_def locked_def controller_step_def test_and_set_writer_def mission_data_def
        intro!: kept_simps service_step_same)

lemma keeps_clear [writer_intros]:
  "locked m \<Longrightarrow> keeps controller_step (service_step S) (\<lambda>_. quiet) (atomic_do clear_writer) m"
  by (rule keeps_atomic_doI [where P = locked])
     (auto simp: quiet_def locked_def clear_writer_def mission_data_def intro!: service_step_same)

lemma keeps_version [writer_intros]:
  "kept_by controller_step P \<Longrightarrow> P m \<Longrightarrow>
   keeps controller_step (service_step S) (\<lambda>_. P) current_plan_version m"
  unfolding current_plan_version_def
  by (rule keeps_atomicI [where P = P]) (auto intro!: service_step_same simp: mission_data_def)

lemma keeps_store_value [writer_intros]:
  assumes "locked m" "isfinite64 v"
  shows "keeps controller_step (service_step S) (\<lambda>_. locked)
    (atomic_double_store_value (Pending_value i) v) m"
proof (rule keeps_post [OF keeps_store [where P = "\<lambda>x. command_writer x \<and> even (mission_sequence x) \<and>
    (\<forall>j. j \<noteq> i \<longrightarrow> even (sequence (pending_values x j))) \<and>
    (\<forall>r c. even (sequence (pending_waypoints x r c)))"]])
  show "service_step S x (put_slot (Pending_value i) d x)"
    if "slot_change (get_slot (Pending_value i) x) d" "even (sequence d) \<Longrightarrow> slot_value d = v" for x d
    using that assms(2)
    by (auto simp: service_step_def slot_step_def slot_among_def mission_step_def mission_data_def
        mission_among_def mission_view_def slot_change_def)
qed (use assms in \<open>auto simp: quiet_def locked_def controller_step_def slot_holds_def intro!: kept_simps\<close>)

lemma keeps_flag_value [writer_intros]:
  "locked m \<Longrightarrow> keeps controller_step (service_step S) (\<lambda>_. locked) (atomic_do (set_value_pending i)) m"
  by (rule keeps_atomic_doI [where P = locked])
     (auto simp: quiet_def locked_def set_value_pending_def mission_data_def intro!: service_step_same)

lemma keeps_param_set:
  "quiet m \<Longrightarrow>
   keeps controller_step (service_step S) (\<lambda>_. quiet) (handle_param_set rd fb request capacity) m"
  unfolding handle_param_set_def Let_def
  by (auto simp del: keeps.simps split: option.split
      intro!: keeps_quiet_Ret keeps_bind [OF keeps_test_and_set] keeps_bind [OF keeps_store_value]
        keeps_bind [OF keeps_flag_value] keeps_bind [OF keeps_clear])

lemma keeps_silent:
  assumes "steps_in (\<lambda>x y. y = x) p" "quiet m"
  shows "keeps controller_step (service_step S) (\<lambda>_. quiet) p m"
  using assms
proof (induction p arbitrary: m)
  case (Ret x)
  then show ?case by (simp add: keeps_quiet_Ret del: keeps.simps)
next
  case (Step f k)
  then have f: "snd (f x) = x" for x by simp
  show ?case
    by (rule keeps_StepI [where P = quiet])
       (use Step f in \<open>auto intro!: service_step_same simp del: keeps.simps\<close>)
qed

lemma keeps_param_get:
  "quiet m \<Longrightarrow>
   keeps controller_step (service_step S) (\<lambda>_. quiet) (handle_param_get rd fb request capacity) m"
proof (rule keeps_silent)
  show "steps_in (\<lambda>x y. y = x) (handle_param_get rd fb request capacity)"
    unfolding handle_param_get_def Let_def
    by (auto split: option.split intro!: steps_in_bind silent_try_load)
qed

text \<open>
  While a mission is stored its counter is odd; \<open>writing w X\<close> is the state in which the
  cells of \<open>X\<close> have their new values.
\<close>

definition writing :: "(nat \<Rightarrow> nat \<Rightarrow> f64) \<Rightarrow> (nat \<times> nat) set \<Rightarrow> shared \<Rightarrow> bool" where
  "writing w X m \<longleftrightarrow> command_writer m \<and> odd (mission_sequence m) \<and>
     (\<forall>i. even (sequence (pending_values m i))) \<and>
     (\<forall>r c. even (sequence (pending_waypoints m r c))) \<and>
     (\<forall>r c. (r, c) \<in> X \<longrightarrow> slot_value (pending_waypoints m r c) = w r c)"

lemma kept_writing [simp]: "kept_by controller_step (writing w X)"
  by (auto intro!: kept_simps simp: writing_def controller_step_def)

text \<open>The same but for one cell, whose store is under way.\<close>

definition writing_cell ::
  "(nat \<Rightarrow> nat \<Rightarrow> f64) \<Rightarrow> (nat \<times> nat) set \<Rightarrow> nat \<Rightarrow> nat \<Rightarrow> shared \<Rightarrow> bool" where
  "writing_cell w X row column m \<longleftrightarrow> command_writer m \<and> odd (mission_sequence m) \<and>
     (\<forall>i. even (sequence (pending_values m i))) \<and>
     (\<forall>r c. (r, c) \<noteq> (row, column) \<longrightarrow> even (sequence (pending_waypoints m r c))) \<and>
     (\<forall>r c. (r, c) \<noteq> (row, column) \<longrightarrow> (r, c) \<in> X \<longrightarrow>
        slot_value (pending_waypoints m r c) = w r c)"

lemma keeps_store_cell:
  assumes "writing w X m"
  shows "keeps controller_step (service_step S) (\<lambda>_. writing w (insert (r, c) X))
    (atomic_double_store_value (Pending_waypoint r c) (w r c)) m"
proof (rule keeps_post [OF keeps_store [where P = "writing_cell w X r c"]])
  show "service_step S x (put_slot (Pending_waypoint r c) d x)" if "writing_cell w X r c x" for x d
    using that
    by (auto simp: writing_cell_def service_step_def slot_step_def slot_change_def slot_among_def
        mission_step_def mission_among_def)
  show "kept_by controller_step (writing_cell w X r c)"
    by (auto intro!: kept_simps simp: writing_cell_def controller_step_def)
  show "writing_cell w X r c (put_slot (Pending_waypoint r c) d x)" if "writing_cell w X r c x" for x d
    using that by (auto simp: writing_cell_def)
  show "writing w (insert (r, c) X) x"
    if "writing_cell w X r c x \<and> slot_holds (Pending_waypoint r c) (w r c) x" for x
    using that unfolding writing_def writing_cell_def slot_holds_def get_slot.simps
    by (metis insert_iff prod.inject)
qed (use assms in \<open>auto simp: writing_def writing_cell_def controller_step_def\<close>)

lemma keeps_store_waypoints [writer_intros]:
  assumes "writing w {} m"
  shows "keeps controller_step (service_step S) (\<lambda>_. writing w ({0..<MAX_POINTS} \<times> {0..<3}))
    (store_waypoints w) m"
proof -
  let ?I = "\<lambda>D. writing w (D \<times> {0..<3})"
  have grow: "D \<times> {0..<3} \<union> {r} \<times> insert c E = insert (r, c) (D \<times> {0..<3} \<union> {r} \<times> E)"
    for D E and r c :: nat by auto
  have "keeps controller_step (service_step S) (\<lambda>_. ?I ({} \<union> set [0..<MAX_POINTS])) (store_waypoints w) m"
    unfolding store_waypoints_def
  proof (rule keeps_for_each_done [where I = "\<lambda>D _. ?I D"])
    fix r D s x
    let ?J = "\<lambda>E. writing w (D \<times> {0..<3} \<union> {r} \<times> E)"
    assume "?I D x"
    then have "?J {} x" by simp
    then have "keeps controller_step (service_step S) (\<lambda>_. ?J ({} \<union> set [0..<3]))
        (for_each [0..<3] (\<lambda>c _. atomic_double_store_value (Pending_waypoint r c) (w r c)) s) x"
      by (intro keeps_for_each_done [where I = "\<lambda>E _. ?J E"]) (simp_all only: grow keeps_store_cell kept_writing)
    moreover have "D \<times> {0..<3} \<union> {r} \<times> ({} \<union> set [0..<3]) = insert r D \<times> {0..<3}" by auto
    ultimately show "keeps controller_step (service_step S) (\<lambda>_. ?I (insert r D))
        (for_each [0..<3] (\<lambda>c _. atomic_double_store_value (Pending_waypoint r c) (w r c)) s) x"
      by (simp only:)
  qed (use assms in simp_all)
  then show ?thesis by simp
qed

text \<open>All cells stored: with the segments, the storage holds the mission.\<close>

definition written :: "mission \<Rightarrow> shared \<Rightarrow> bool" where
  "written mis m \<longleftrightarrow> command_writer m \<and> (\<forall>i. even (sequence (pending_values m i))) \<and>
     (\<forall>r c. even (sequence (pending_waypoints m r c))) \<and> mission_view m = mis"

lemma kept_written [simp]:
  "kept_by controller_step (written mis)"
  "kept_by controller_step (\<lambda>m. written mis m \<and> odd (mission_sequence m))"
  "kept_by controller_step (\<lambda>m. written mis m \<and> even (mission_sequence m))"
  by (auto intro!: kept_simps simp: written_def controller_step_def mission_view_def)

lemma keeps_begin_mission:
  "locked m \<Longrightarrow> keeps controller_step (service_step S) (\<lambda>_. writing w {}) (atomic fetch_add_mission) m"
  by (rule keeps_atomicI [where P = locked])
     (auto simp: locked_def quiet_def writing_def fetch_add_mission_def service_step_def slot_step_def
        slot_change_def slot_among_def mission_step_def mission_data_def mission_among_def)

lemma keeps_store_segments:
  "writing w ({0..<MAX_POINTS} \<times> {0..<3}) m \<Longrightarrow>
   keeps controller_step (service_step S) (\<lambda>_ m. written (cells w, n) m \<and> odd (mission_sequence m))
     (atomic_do (store_segments n)) m"
  by (rule keeps_atomic_doI [OF kept_writing [of w "{0..<MAX_POINTS} \<times> {0..<3}"] _ _ _ kept_written(2)])
     (auto simp: writing_def written_def store_segments_def service_step_def slot_step_def
        slot_change_def slot_among_def mission_step_def mission_among_def mission_view_def cells_def fun_eq_iff)

lemma keeps_end_mission:
  "written mis m \<and> odd (mission_sequence m) \<Longrightarrow> mis \<in> S \<Longrightarrow>
   keeps controller_step (service_step S) (\<lambda>_ m. written mis m \<and> even (mission_sequence m))
     (atomic fetch_add_mission) m"
  by (rule keeps_atomicI [OF kept_written(2) [of mis] _ _ _ kept_written(3)])
     (auto simp: written_def fetch_add_mission_def service_step_def slot_step_def slot_change_def
        slot_among_def mission_step_def mission_data_def mission_among_def mission_view_def)

lemma keeps_flag_mission:
  "written mis m \<and> even (mission_sequence m) \<Longrightarrow> mis \<in> S \<Longrightarrow>
   keeps controller_step (service_step S) (\<lambda>_. locked) (atomic_do set_mission_pending) m"
  by (rule keeps_atomic_doI [OF kept_written(3) [of mis] _ _ _ kept_quiet(2)])
     (auto simp: written_def locked_def quiet_def set_mission_pending_def mission_data_def
        mission_among_def intro!: service_step_same)

lemma keeps_store_version:
  "locked m \<Longrightarrow> v \<noteq> 0 \<Longrightarrow>
   keeps controller_step (service_step S) (\<lambda>_. locked) (atomic_do (store_plan_version v)) m"
  by (rule keeps_atomic_doI [where P = locked])
     (auto simp: locked_def quiet_def store_plan_version_def mission_data_def intro!: service_step_same)

lemma keeps_stage_mission:
  assumes "quiet m" and "(cells w, of_nat n) \<in> S"
  shows "keeps controller_step (service_step S) (\<lambda>_. quiet) (stage_mission fb capacity e w n) m"
proof -
  have accept: "keeps controller_step (service_step S) (\<lambda>_. quiet)
      (pbind (atomic fetch_add_mission) (\<lambda>_.
       pbind (store_waypoints w) (\<lambda>_.
       pbind (atomic_do (store_segments (of_nat n))) (\<lambda>_.
       pbind (atomic fetch_add_mission) (\<lambda>_.
       pbind (atomic_do set_mission_pending) (\<lambda>_.
       pbind (atomic_do (store_plan_version (next_version v))) (\<lambda>_.
       pbind (atomic_do clear_writer) (\<lambda>_. Ret r)))))))) m" if "locked m" for m v r
    by (rule keeps_bind [OF keeps_begin_mission [OF that]],
        rule keeps_bind [OF keeps_store_waypoints], assumption,
        rule keeps_bind [OF keeps_store_segments], assumption,
        rule keeps_bind [OF keeps_end_mission [OF _ assms(2)]], assumption,
        rule keeps_bind [OF keeps_flag_mission [OF _ assms(2)]], assumption,
        rule keeps_bind [OF keeps_store_version [OF _ next_version_nonzero]], assumption,
        rule keeps_bind [OF keeps_clear], assumption, rule keeps_quiet_Ret)
  show ?thesis
    unfolding stage_mission_def using assms
    by (auto simp del: keeps.simps
        intro!: accept keeps_quiet_Ret keeps_bind [OF keeps_test_and_set] keeps_bind [OF keeps_clear]
          keeps_bind [OF keeps_version [where P = locked]])
qed

lemma cells_mission_points [simp]: "n \<le> 6 \<Longrightarrow> cells (mission_points seg n) = mission_points seg n"
  by (auto simp: cells_def mission_points_def fun_eq_iff)

lemma mission_of_cells: "mission_of rd request = Inr (e, w, n) \<Longrightarrow> cells w = w"
  by (auto simp: mission_of_def Let_def split: option.splits if_splits prod.splits)

lemma keeps_trajectory_set:
  assumes "quiet m" and "\<And>e mis. mission_of rd request = Inr (e, mis) \<Longrightarrow> mis \<in> S"
  shows "keeps controller_step (service_step S) (\<lambda>_. quiet)
    (handle_trajectory_set rd fb request capacity) m"
proof -
  have reject: "keeps controller_step (service_step S) (\<lambda>_. quiet)
      (pbind current_plan_version (\<lambda>v. Ret (h v))) m" for h
    using assms(1) by (auto intro!: keeps_bind [OF keeps_version [where P = quiet]] keeps_quiet_Ret
        simp del: keeps.simps)
  show ?thesis
    unfolding handle_trajectory_set_def Let_def
    using assms
    by (auto simp: collect_waypoints_eq mission_of_def Let_def simp del: keeps.simps
        split: option.splits sum.splits if_splits intro!: reject keeps_stage_mission)
qed

lemma keeps_query:
  assumes "quiet m"
    and "\<And>e mis. mission_of (trajectory_reader syn) request = Inr (e, mis) \<Longrightarrow> mis \<in> S"
  shows "keeps controller_step (service_step S) (\<lambda>_. quiet) (runtime_query syn service request capacity) m"
  using assms
  by (auto simp: runtime_query_def simp del: keeps.simps
      intro!: keeps_param_set keeps_param_get keeps_trajectory_set keeps_quiet_Ret)

lemma keeps_serve:
  assumes "quiet m" and "sent syn queries \<subseteq> S"
  shows "keeps controller_step (service_step S) (\<lambda>_. quiet) (serve syn queries) m"
  unfolding serve_def
proof (rule keeps_for_each [where I = "\<lambda>_. quiet"])
  fix q u m
  assume q: "q \<in> set queries" and m: "quiet m"
  obtain service request capacity where sq: "q = (service, request, capacity)" by (cases q)
  have "mis \<in> S" if "mission_of (trajectory_reader syn) request = Inr (e, mis)" for e mis
    using that q assms(2) unfolding sq sent_def by blast
  then show "keeps controller_step (service_step S) (\<lambda>_. quiet)
      ((case q of (service, request, capacity) \<Rightarrow> \<lambda>_.
        pbind (runtime_query syn service request capacity) (\<lambda>_. Ret ())) u) m"
    unfolding sq prod.case by (intro keeps_bind [OF keeps_query [OF m]] keeps_quiet_Ret)
qed (use assms in \<open>auto simp: quiet_def controller_step_def\<close>)

end
