(* ===== verification/Flight.thy ===== *)
theory Flight
  imports Interleaving
begin

text \<open>
  What the controller thread sees while the transport thread serves queries: apply reads
  every staged value and the staged mission as wholes. \<open>cycle_safe\<close> and \<open>mission_whole\<close> say
  it of one cycle at any interleaving, \<open>flight_safe\<close> of flights of any number of cycles.
\<close>

section \<open>The controller thread's steps\<close>

lemma controller_steps_apply_value: "steps_in controller_step (apply_pending_value i c)"
  unfolding apply_pending_value_def atomic_double_store_value_def
  by (auto simp: controller_step_def exchange_value_set_def set_value_pending_def store_low_def
      store_high_def fetch_add_sequence_def split: prod.split option.split
      intro!: steps_in_bind steps_in_mono [OF silent_try_load [where view = "\<lambda>m. m"]])

lemma silent_load_waypoints [simp]: "silent view (load_waypoints c)"
  unfolding load_waypoints_def load_cell_def
  by (auto split: prod.split option.split intro!: steps_in_for_each steps_in_bind)

lemma silent_load_mission [simp]: "silent view load_mission"
  unfolding load_mission_def by (auto split: prod.split intro!: steps_in_bind)

lemma controller_steps_apply_mission: "steps_in controller_step (apply_pending_mission c)"
  unfolding apply_pending_mission_def
  by (auto simp: controller_step_def exchange_mission_def set_mission_pending_def
      split: prod.split option.split
      intro!: steps_in_bind steps_in_mono [OF silent_load_mission [where view = "\<lambda>m. m"]])

lemma controller_steps_apply: "steps_in controller_step (cubs2_runtime_control_apply model app)"
  unfolding cubs2_runtime_control_apply_def
  by (auto split: option.split prod.split simp del: length_values
      intro!: steps_in_bind steps_in_for_each controller_steps_apply_value controller_steps_apply_mission)

section \<open>What the transport thread keeps for the controller thread\<close>

text \<open>Staged values are finite, and a mission flagged as staged is one of \<open>S\<close>.\<close>

definition staged_ok :: "mission set \<Rightarrow> shared \<Rightarrow> bool" where
  "staged_ok S m \<longleftrightarrow> (\<forall>i. slot_among (Pending_value i) finite_values m) \<and>
     (pending_mission m \<longrightarrow> mission_among S m) \<and> plan_version m \<noteq> 0"

text \<open>The live values are those of the controller.\<close>

definition live_ok :: "'z outer_loop_scheme \<Rightarrow> shared \<Rightarrow> bool" where
  "live_ok model m \<longleftrightarrow>
     (\<forall>i < length value_table. slot_holds (Live_value i) (leaf model (live_member (value_table ! i))) m)"

definition leafs_finite :: "'z outer_loop_scheme \<Rightarrow> bool" where
  "leafs_finite model \<longleftrightarrow> (\<forall>i < length value_table.
     isfinite64 (leaf model (live_member (value_table ! i))) \<and>
     isfinite64 (leaf model (mirror_member (value_table ! i))))"

lemma service_step_staged_ok: "service_step S x y \<Longrightarrow> staged_ok S x \<Longrightarrow> staged_ok S y"
  by (auto simp: service_step_def staged_ok_def)

lemma service_step_among: "service_step S x y \<Longrightarrow> mission_among S x \<Longrightarrow> mission_among S y"
  by (simp add: service_step_def)

lemma service_step_live: "service_step S x y \<Longrightarrow> live_ok model x \<Longrightarrow> live_ok model y"
  by (simp add: service_step_def live_ok_def slot_holds_def)

lemma kept_service [simp]:
  "kept_by (service_step S) (staged_ok S)" "kept_by (service_step S) (live_ok model)"
  "kept_by (service_step S) (mission_among S)"
  by (auto simp: kept_by_def intro: service_step_staged_ok service_step_live service_step_among)

section \<open>Values\<close>

text \<open>The part of the controller's state that is its route.\<close>

definition route_of :: "'z outer_loop_scheme \<Rightarrow> i32 \<times> i32 \<times> i32 \<times> i32 \<times> i32 \<times> i32 \<times> i32 \<times>
    (nat \<Rightarrow> nat \<Rightarrow> f64) \<times> (nat \<Rightarrow> nat \<Rightarrow> f64)" where
  "route_of m = (currentWaypoint m, route_nSegments m, guidance_route_nSegments m,
     guidance_currentWaypoint m, guidance_activeWaypoint m, previous_guidance_currentWaypoint m,
     guidance_segmentEndIndex m, route_waypoints m, guidance_route_waypoints m)"

lemma route_of_apply_value [simp]: "route_of (apply_value model i v) = route_of model"
  by (simp add: route_of_def)

definition mission_part :: "applied \<Rightarrow> bool \<times> (nat \<Rightarrow> nat \<Rightarrow> f64) \<times> u32" where
  "mission_part app = (applied_mission app, applied_waypoints app, applied_segments app)"

text \<open>The invariant of the loop over the table.\<close>

definition cycle_ok :: "mission set \<Rightarrow> 'z controller \<Rightarrow> shared \<Rightarrow> bool" where
  "cycle_ok S c m \<longleftrightarrow> staged_ok S m \<and> live_ok (fst c) m \<and> leafs_finite (fst c)"

lemma kept_cycle [simp]: "kept_by (service_step S) (cycle_ok S c)"
  using kept_service(1) [of S] kept_service(2) [of S "fst c"]
  by (auto simp: cycle_ok_def kept_by_def)

lemma leafs_finite_value:
  "leafs_finite model \<Longrightarrow> i < length value_table \<Longrightarrow> isfinite64 v \<Longrightarrow> leafs_finite (apply_value model i v)"
  by (simp add: leafs_finite_def apply_value_leaf del: length_values)

lemma env_steps_kept: "env_steps R n m m' \<Longrightarrow> kept_by R P \<Longrightarrow> P m \<Longrightarrow> P m'"
  by (erule env_steps_invariant) (auto simp: kept_by_def)

text \<open>An own step, with steps of the environment around it.\<close>

lemma exec_env_atomicD:
  assumes "exec_env R n (atomic f) m a m'"
  obtains i x where "i \<le> n" "env_steps R i m x" "a = fst (f x)" "env_steps R (n - i) (snd (f x)) m'"
proof -
  from assms obtain i j x where "n = i + j" "env_steps R i m x"
    "exec_env R j (Ret (fst (f x))) (snd (f x)) a m'"
    unfolding atomic_def by (auto dest: exec_env_StepD)
  with that [of i x] show ?thesis by (auto dest: exec_env_RetD)
qed

lemma keeps_store_live:
  assumes "staged_ok S m" "live_ok model m" "i < length value_table"
  shows "keeps (service_step S) (\<lambda>_ _. True) (\<lambda>_ x. staged_ok S x \<and> live_ok (apply_value model i v) x)
    (atomic_double_store_value (Live_value i) v) m"
proof (rule keeps_post [OF keeps_store [where P = "\<lambda>x. staged_ok S x \<and>
    (\<forall>j < length value_table. j \<noteq> i \<longrightarrow>
      slot_holds (Live_value j) (leaf model (live_member (value_table ! j))) x)"]])
  show "get_slot (Live_value i) y = get_slot (Live_value i) x" if "service_step S x y" for x y
    using that by (simp add: service_step_def)
  show "kept_by (service_step S) (\<lambda>x. staged_ok S x \<and>
      (\<forall>j < length value_table. j \<noteq> i \<longrightarrow>
        slot_holds (Live_value j) (leaf model (live_member (value_table ! j))) x))"
    by (auto simp: kept_by_def slot_holds_def service_step_def staged_ok_def)
qed (use assms in \<open>auto simp: staged_ok_def live_ok_def slot_holds_def slot_among_def
    mission_among_def mission_view_def apply_value_leaf simp del: length_values\<close>)

lemma try_load_pending:
  assumes "exec_env (service_step S) n (atomic_double_try_load (Pending_value i)) m r m'"
    and "n < 2 ^ 32" and "staged_ok S m" and "live_ok model m"
  shows "staged_ok S m' \<and> live_ok model m' \<and> (\<forall>v. r = Some v \<longrightarrow> isfinite64 v)"
proof -
  have keep: "P m'" if "kept_by (service_step S) P" "P m" for P
    by (rule exec_env_invariant [OF assms(1)])
       (use that in \<open>auto simp: kept_by_def intro: steps_in_mono [OF silent_try_load [where view = "\<lambda>m. m"]]\<close>)
  have "v \<in> finite_values" if "r = Some v" for v
    by (rule try_load_among [where R = "service_step S" and s = "Pending_value i" and n = n and m = m and m' = m'])
       (use assms that in \<open>auto simp: service_step_def staged_ok_def\<close>)
  with keep [OF kept_service(1) assms(3)] keep [OF kept_service(2) assms(4)] show ?thesis by simp
qed

text \<open>The three steps of one entry: take the flag, and then put it back or take the value.\<close>

lemma cycle_ok_flags [simp]:
  "cycle_ok S c (m\<lparr>pending_value_set := f\<rparr>) = cycle_ok S c m"
  by (simp add: cycle_ok_def staged_ok_def live_ok_def slot_holds_def slot_among_def
      mission_among_def mission_view_def)

lemma keeps_take_flag:
  "cycle_ok S c m \<Longrightarrow>
   keeps (service_step S) (\<lambda>_ _. True) (\<lambda>_. cycle_ok S c) (atomic (exchange_value_set i)) m"
  by (rule keeps_atomicI [OF kept_cycle]) (auto simp: exchange_value_set_def)

lemma keeps_put_back:
  assumes "cycle_ok S c m"
  shows "keeps (service_step S) (\<lambda>_ _. True) (\<lambda>r x. r = c \<and> cycle_ok S c x)
    (pbind (atomic_do (set_value_pending i)) (\<lambda>_. Ret c)) m"
proof (rule keeps_bind [where Q = "\<lambda>_. cycle_ok S c"])
  show "keeps (service_step S) (\<lambda>_ _. True) (\<lambda>_. cycle_ok S c) (atomic_do (set_value_pending i)) m"
    by (rule keeps_atomic_doI [OF kept_cycle assms])
       (auto simp: set_value_pending_def)
qed (rule keeps_RetI, use kept_cycle [of S c] in simp_all)

lemma keeps_take_value:
  assumes "cycle_ok S (model, app) m" "i < length value_table" "isfinite64 v"
  shows "keeps (service_step S) (\<lambda>_ _. True)
    (\<lambda>r x. r = (apply_value model i v, app') \<and> cycle_ok S r x)
    (pbind (atomic_double_store_value (Live_value i) v) (\<lambda>_. Ret (apply_value model i v, app'))) m"
proof -
  have ok: "staged_ok S m" "live_ok model m" "leafs_finite model"
    using assms(1) by (simp_all add: cycle_ok_def)
  have "kept_by (service_step S) (\<lambda>x. staged_ok S x \<and> live_ok (apply_value model i v) x)"
    using kept_service(1) [of S] kept_service(2) [of S "apply_value model i v"]
    by (auto simp: kept_by_def)
  then show ?thesis
    by (intro keeps_bind [OF keeps_store_live [OF ok(1,2) assms(2)]] keeps_RetI)
       (use leafs_finite_value [OF ok(3) assms(2,3)] in \<open>simp_all add: cycle_ok_def\<close>)
qed

lemma apply_value_cycle:
  assumes "exec_env (service_step S) n (apply_pending_value i c) m c' m'"
    and "n < 2 ^ 32" and "i < length value_table" and "cycle_ok S c m"
  shows "cycle_ok S c' m' \<and> route_of (fst c') = route_of (fst c) \<and>
    mission_part (snd c') = mission_part (snd c)"
proof -
  obtain model app where c: "c = (model, app)" by (cases c)
  let ?entry = "\<lambda>loaded. case loaded of
      None \<Rightarrow> pbind (atomic_do (set_value_pending i)) (\<lambda>_. Ret (model, app))
    | Some value \<Rightarrow>
        pbind (atomic_double_store_value (Live_value i) value) (\<lambda>_.
        Ret (apply_value model i value,
             app\<lparr>applied_values := (applied_values app)(i := value),
                 applied_value_set := (applied_value_set app)(i := True)\<rparr>))"
  from assms(1) obtain n1 n2 pending m1 where n: "n = n1 + n2"
    and ex: "exec_env (service_step S) n1 (atomic (exchange_value_set i)) m pending m1"
    and rest: "exec_env (service_step S) n2
      (if pending \<noteq> 0 then pbind (atomic_double_try_load (Pending_value i)) ?entry
       else Ret (model, app)) m1 c' m'"
    unfolding apply_pending_value_def c prod.case by (rule exec_env_bindE)
  have ok1: "cycle_ok S c m1" by (rule exec_env_keeps [OF ex keeps_take_flag [OF assms(4)]])
  show ?thesis
  proof (cases "pending = 0")
    case True
    with rest have "c' = c" "env_steps (service_step S) n2 m1 m'" by (auto dest: exec_env_RetD simp: c)
    with env_steps_kept [OF this(2) kept_cycle ok1] show ?thesis by simp
  next
    case False
    with rest obtain n3 n4 loaded m2 where n2: "n2 = n3 + n4"
      and ld: "exec_env (service_step S) n3 (atomic_double_try_load (Pending_value i)) m1 loaded m2"
      and rest: "exec_env (service_step S) n4 (?entry loaded) m2 c' m'"
      by (auto elim: exec_env_bindE)
    have ok2: "cycle_ok S (model, app) m2" and fin: "\<And>v. loaded = Some v \<Longrightarrow> isfinite64 v"
      using try_load_pending [OF ld, of model] ok1 n n2 assms(2) by (auto simp: cycle_ok_def c)
    show ?thesis
    proof (cases loaded)
      case None
      with exec_env_keeps [OF _ keeps_put_back [OF ok2], of n4 i c' m'] rest c show ?thesis by simp
    next
      case (Some v)
      note keeps_take_value [OF ok2 assms(3) fin [OF Some], where app' =
        "app\<lparr>applied_values := (applied_values app)(i := v),
             applied_value_set := (applied_value_set app)(i := True)\<rparr>"]
      from exec_env_keeps [OF _ this, of n4 c' m'] rest Some show ?thesis by (auto simp: c mission_part_def)
    qed
  qed
qed

section \<open>The mission\<close>

text \<open>Loads among steps that leave a slot alone return what it holds.\<close>

lemma keeps_load_still:
  assumes "kept_by R P" and "\<And>x. P x \<Longrightarrow> get_slot s x = d" and "P m"
  shows "keeps R (\<lambda>_ _. True) (\<lambda>r x. P x \<and> (\<forall>v. r = Some v \<longrightarrow> v = slot_value d))
    (try_load_attempts k s) m"
  using assms(3)
proof (induction k arbitrary: m)
  case 0
  then show ?case using assms(1) by (auto intro!: keeps_RetI simp: kept_by_def simp del: keeps.simps)
next
  case (Suc k)
  have kept: "kept_by R (\<lambda>x. P x \<and> B)" for B using assms(1) by (auto simp: kept_by_def)
  have load: "keeps R (\<lambda>_ _. True) (\<lambda>a x. P x \<and> a = f d) (atomic (\<lambda>m. (f (get_slot s m), m))) x"
    if "P x" for f x
    by (rule keeps_atomicI [OF assms(1)]) (use that kept assms(2) in simp_all)
  have ret: "keeps R (\<lambda>_ _. True) (\<lambda>r x. P x \<and> (\<forall>v. r = Some v \<longrightarrow> v = slot_value d))
      (Ret (Some (join_halves (high d) (low d)))) x" if "P x" for x
    by (rule keeps_RetI) (use that kept assms(1) in \<open>simp_all add: slot_value_def\<close>)
  show ?case
    unfolding try_load_attempts.simps using Suc
    by (auto simp del: keeps.simps intro!: keeps_bind [OF load] ret)
qed

text \<open>
  The loops over the cells, while the storage is \<open>d\<close>: a load that is complete so far
  started from an even counter, and has every cell it did as the storage has it.
\<close>

type_synonym storage = "(nat \<Rightarrow> nat \<Rightarrow> atomic_double) \<times> u32"

definition loaded_cells ::
  "bool \<Rightarrow> storage \<Rightarrow> (nat \<times> nat) set \<Rightarrow> bool \<times> (nat \<Rightarrow> nat \<Rightarrow> f64) \<Rightarrow> shared \<Rightarrow> bool" where
  "loaded_cells b d X s m \<longleftrightarrow> mission_data m = d \<and> (fst s \<longrightarrow> b \<and>
     snd s = (\<lambda>r c. if (r, c) \<in> X then slot_value (fst d r c) else 0))"

definition still :: "shared \<Rightarrow> shared \<Rightarrow> bool" where
  "still x y \<longleftrightarrow> mission_data y = mission_data x"

lemma kept_still [simp]: "kept_by still (loaded_cells b d X s)" "kept_by still (\<lambda>m. mission_data m = d)"
  by (simp_all add: kept_by_def loaded_cells_def still_def)

lemma keeps_load_cell:
  assumes "loaded_cells b d X s m"
  shows "keeps still (\<lambda>_ _. True) (loaded_cells b d (insert (r, c) X)) (load_cell r c s) m"
proof (cases s)
  case (Pair complete w)
  have ret: "keeps still (\<lambda>_ _. True) (loaded_cells b' d' Y) (Ret s') x"
    if "loaded_cells b' d' Y s' x" for b' d' Y s' x
    by (rule keeps_RetI) (simp_all only: kept_still that)
  have ld: "keeps still (\<lambda>_ _. True)
      (\<lambda>a x. mission_data x = d \<and> (\<forall>v. a = Some v \<longrightarrow> v = slot_value (fst d r c)))
      (atomic_double_try_load (Pending_waypoint r c)) m"
    unfolding atomic_double_try_load_def
    by (rule keeps_load_still [OF kept_still(2)])
       (use assms in \<open>auto simp: loaded_cells_def mission_data_def\<close>)
  show ?thesis
  proof (cases complete)
    case True
    have "keeps still (\<lambda>_ _. True) (loaded_cells b d (insert (r, c) X))
        (case a of None \<Rightarrow> Ret (False, w) | Some v \<Rightarrow> Ret (True, w(r := (w r)(c := v)))) x"
      if "mission_data x = d \<and> (\<forall>v. a = Some v \<longrightarrow> v = slot_value (fst d r c))" for a x
      using that assms True Pair
      by (cases a) (auto intro!: ret simp: loaded_cells_def fun_eq_iff simp del: keeps.simps)
    with True show ?thesis
      unfolding load_cell_def Pair prod.case by (simp only: if_True) (rule keeps_bind [OF ld])
  next
    case False
    with assms Pair show ?thesis
      unfolding load_cell_def by (auto intro!: ret simp: loaded_cells_def simp del: keeps.simps)
  qed
qed

lemma keeps_load_waypoints:
  assumes "mission_data m = d"
  shows "keeps still (\<lambda>_ _. True) (loaded_cells b d ({0..<MAX_POINTS} \<times> {0..<3}))
    (load_waypoints (b, \<lambda>_ _. 0)) m"
proof -
  let ?I = "\<lambda>D. loaded_cells b d (D \<times> {0..<3})"
  have "keeps still (\<lambda>_ _. True) (?I ({} \<union> set [0..<MAX_POINTS])) (load_waypoints (b, \<lambda>_ _. 0)) m"
    unfolding load_waypoints_def
  proof (rule keeps_for_each_done [where I = ?I])
    fix r D s x
    let ?J = "\<lambda>E. loaded_cells b d (D \<times> {0..<3} \<union> {r} \<times> E)"
    have grow: "D \<times> {0..<3} \<union> {r} \<times> insert c E = insert (r, c) (D \<times> {0..<3} \<union> {r} \<times> E)"
      for E and c :: nat by auto
    assume "?I D s x"
    then have "?J {} s x" by simp
    then have "keeps still (\<lambda>_ _. True) (?J ({} \<union> set [0..<3])) (for_each [0..<3] (load_cell r) s) x"
      by (intro keeps_for_each_done [where I = ?J]) (simp_all only: grow keeps_load_cell kept_still)
    moreover have "D \<times> {0..<3} \<union> {r} \<times> ({} \<union> set [0..<3]) = insert r D \<times> {0..<3}" by auto
    ultimately show "keeps still (\<lambda>_ _. True) (?I (insert r D)) (for_each [0..<3] (load_cell r) s) x"
      by (simp only:)
  qed (use assms in \<open>simp_all add: loaded_cells_def\<close>)
  then show ?thesis by simp
qed

text \<open>The loads of the waypoints and of the segments, as the window between the two loads
  of the mission's counter.\<close>

definition load_staged :: "bool \<Rightarrow> (shared, bool \<times> mission) prog" where
  "load_staged b =
     pbind (load_waypoints (b, \<lambda>_ _. 0)) (\<lambda>(complete, waypoints).
     pbind (atomic (\<lambda>m. (pending_segments m, m))) (\<lambda>segments.
     Ret (complete, waypoints, segments)))"

lemma load_mission_window: "load_mission =
  pbind (atomic (\<lambda>m. (mission_sequence m, m))) (\<lambda>before.
  pbind (load_staged (before AND 1 = 0)) (\<lambda>(complete, mis).
  if complete then
    pbind (atomic (\<lambda>m. (mission_sequence m, m))) (\<lambda>after.
    Ret (if before = after then Some mis else None))
  else Ret None))"
  by (simp add: load_mission_def load_staged_def bind_assoc split_def cong: if_cong)

lemma silent_load_staged [simp]: "silent view (load_staged b)"
  unfolding load_staged_def by (rule steps_in_bind) (auto split: prod.split)

lemma load_staged_complete:
  assumes "exec_env R n (load_staged b) m (True, mis) m'"
  shows b
proof -
  have "always (\<lambda>s. fst s \<longrightarrow> b) (load_waypoints (b, \<lambda>_ _. 0))"
    unfolding load_waypoints_def load_cell_def
    by (intro always_for_each) (auto intro!: always_bind' split: prod.split option.split)
  then have "always (\<lambda>r. fst r \<longrightarrow> b) (load_staged b)"
    unfolding load_staged_def by (rule always_bind) (auto intro!: always_bind')
  from exec_env_always [OF assms this] show ?thesis by simp
qed

lemma load_staged_still:
  assumes "exec_env still n (load_staged b) m (True, mis) m'"
  shows "mis = mission_view m"
proof -
  have seg: "keeps still (\<lambda>_ _. True) (\<lambda>a x. mission_data x = mission_data m \<and> a = pending_segments m)
      (atomic (\<lambda>m. (pending_segments m, m))) x" if "mission_data x = mission_data m" for x
    by (rule keeps_atomicI [OF kept_still(2) that])
       (auto simp: mission_data_def kept_by_def still_def)
  have "keeps still (\<lambda>_ _. True) (\<lambda>r x. fst r \<longrightarrow> snd r = mission_view m) (load_staged b) m"
    unfolding load_staged_def
    by (rule keeps_bind [OF keeps_load_waypoints [OF refl]])
       (auto simp: kept_by_def loaded_cells_def mission_view_def mission_data_def cells_def fun_eq_iff
          simp del: keeps.simps split: prod.split intro!: keeps_bind [OF seg] keeps_RetI)
  from exec_env_keeps [OF assms this] show ?thesis by simp
qed

text \<open>The reader's check for the whole mission, over the same locale as for one slot.\<close>

lemma load_mission_among:
  assumes "exec_env (service_step S) n load_mission m (Some mis) m'"
    and "n < 2 ^ 32" and "mission_among S m"
  shows "mis \<in> S"
proof -
  from assms(1) obtain i j l ma m1 where n: "n = i + j + l"
    and ma: "env_steps (service_step S) i m ma" "env_steps (service_step S) j ma m1"
    and rest: "exec_env (service_step S) l
      (pbind (load_staged (mission_sequence ma AND 1 = 0)) (\<lambda>(complete, mis).
       if complete then
         pbind (atomic (\<lambda>m. (mission_sequence m, m))) (\<lambda>after.
         Ret (if mission_sequence ma = after then Some mis else None))
       else Ret None)) m1 (Some mis) m'"
    unfolding load_mission_window by (rule exec_env_loadE)
  have among: "mission_among S ma" by (rule env_steps_kept [OF ma(1) kept_service(3) assms(3)])
  from rest obtain l1 l2 complete mis' m2 where l: "l = l1 + l2"
    and ld: "exec_env (service_step S) l1 (load_staged (mission_sequence ma AND 1 = 0)) m1 (complete, mis') m2"
    and rest2: "exec_env (service_step S) l2
      (if complete then
         pbind (atomic (\<lambda>m. (mission_sequence m, m))) (\<lambda>after.
         Ret (if mission_sequence ma = after then Some mis' else None))
       else Ret None) m2 (Some mis) m'"
    by (auto elim!: exec_env_bindE [where p = "load_staged _"])
  have complete using rest2 by (auto dest: exec_env_RetD split: if_splits)
  with rest2 have "exec_env (service_step S) l2
      (pbind (atomic (\<lambda>m. (mission_sequence m, m))) (\<lambda>after.
       Ret (if mission_sequence ma = after then Some mis' else None))) m2 (Some mis) m'" by simp
  then obtain i3 i4 l4 mb m3 where l2: "l2 = i3 + i4 + l4"
    and mb: "env_steps (service_step S) i3 m2 mb"
    and last: "exec_env (service_step S) l4
      (Ret (if mission_sequence ma = mission_sequence mb then Some mis' else None)) m3 (Some mis) m'"
    by (rule exec_env_loadE)
  have same: "mission_sequence mb = mission_sequence ma" "mis = mis'"
    using last by (auto dest!: exec_env_RetD split: if_splits)
  have window: "exec_env (service_step S) (j + l1 + i3) (load_staged (mission_sequence ma AND 1 = 0)) ma (True, mis) mb"
    using exec_env_suffix [OF exec_env_prefix [OF ma(2) ld] mb] \<open>complete\<close> same(2) by simp
  have even: "even (mission_sequence ma)" using load_staged_complete [OF window] by simp
  have small: "j + l1 + i3 < 2 ^ 32" using n l l2 assms(2) by simp
  have "exec_env still (j + l1 + i3) (load_staged (mission_sequence ma AND 1 = 0)) ma (True, mis) mb"
    by (rule exec_env_mono [OF mission_lock.quiet_window [OF window _ even same(1) small]])
       (simp_all add: still_def)
  from load_staged_still [OF this] even among show ?thesis by (simp add: mission_among_def)
qed

text \<open>Taking the mission's flag: if it was set, the storage is one of the missions from then on.\<close>

lemma take_mission_flag:
  assumes "exec_env (service_step S) n (atomic exchange_mission) m pending m'" and "cycle_ok S c m"
  shows "cycle_ok S c m' \<and> (pending \<noteq> 0 \<longrightarrow> mission_among S m')"
proof -
  from exec_env_atomicD [OF assms(1)] obtain i x where x: "env_steps (service_step S) i m x"
    and p: "pending = fst (exchange_mission x)"
    and m': "env_steps (service_step S) (n - i) (snd (exchange_mission x)) m'" by blast
  let ?y = "snd (exchange_mission x)"
  have "cycle_ok S c x" by (rule env_steps_kept [OF x kept_cycle assms(2)])
  then have "cycle_ok S c ?y" and "pending \<noteq> 0 \<Longrightarrow> mission_among S ?y"
    using p
    by (auto simp: exchange_mission_def cycle_ok_def staged_ok_def live_ok_def slot_holds_def
        slot_among_def mission_among_def mission_view_def)
  with env_steps_kept [OF m' kept_cycle] env_steps_kept [OF m' kept_service(3)] show ?thesis by blast
qed

lemma exec_env_silent_kept:
  assumes "exec_env R n p m a m'" and "silent (\<lambda>m. m) p" and "kept_by R P" and "P m"
  shows "P m'"
  by (rule exec_env_invariant [OF assms(1)])
     (use assms in \<open>auto simp: kept_by_def intro: steps_in_mono\<close>)

lemma put_mission_back:
  assumes "exec_env (service_step S) n (pbind (atomic_do set_mission_pending) (\<lambda>_. Ret c)) m c' m'"
    and "cycle_ok S c m" and "mission_among S m"
  shows "c' = c \<and> cycle_ok S c m'"
proof -
  have "kept_by (service_step S) (\<lambda>x. cycle_ok S c x \<and> mission_among S x)"
    using kept_cycle [of S c] kept_service(3) [of S] by (auto simp: kept_by_def)
  then have set: "keeps (service_step S) (\<lambda>_ _. True) (\<lambda>_. cycle_ok S c) (atomic_do set_mission_pending) m"
    by (rule keeps_atomic_doI)
       (use assms(2,3) in \<open>auto simp: set_mission_pending_def cycle_ok_def staged_ok_def live_ok_def
          slot_holds_def slot_among_def mission_among_def mission_view_def\<close>)
  have ret: "keeps (service_step S) (\<lambda>_ _. True) (\<lambda>r x. r = c \<and> cycle_ok S c x) (Ret c) x"
    if "cycle_ok S c x" for x
    by (rule keeps_RetI) (use that kept_cycle [of S c] in simp_all)
  show ?thesis by (rule exec_env_keeps [OF assms(1) keeps_bind [OF set ret]])
qed

definition mission_applied :: "mission \<Rightarrow> 'z controller \<Rightarrow> 'z controller" where
  "mission_applied = (\<lambda>(w, k) (model, app). (apply_route model w k,
     app\<lparr>applied_waypoints := w, applied_segments := k, applied_mission := True\<rparr>))"

lemma apply_mission_cycle:
  assumes "exec_env (service_step S) n (apply_pending_mission c) m c' m'"
    and "n < 2 ^ 32" and "cycle_ok S c m"
  shows "cycle_ok S c' m' \<and>
    (c' = c \<or> (\<exists>mis \<in> S. c' = mission_applied mis c))"
proof -
  obtain model app where c: "c = (model, app)" by (cases c)
  let ?entry = "\<lambda>mission. case mission of
      None \<Rightarrow> pbind (atomic_do set_mission_pending) (\<lambda>_. Ret (model, app))
    | Some (waypoints, segments) \<Rightarrow>
        Ret (apply_route model waypoints segments,
             app\<lparr>applied_waypoints := waypoints, applied_segments := segments, applied_mission := True\<rparr>)"
  from assms(1) obtain n1 n2 pending m1 where n: "n = n1 + n2"
    and ex: "exec_env (service_step S) n1 (atomic exchange_mission) m pending m1"
    and rest: "exec_env (service_step S) n2
      (if pending \<noteq> 0 then pbind load_mission ?entry else Ret (model, app)) m1 c' m'"
    unfolding apply_pending_mission_def c prod.case by (rule exec_env_bindE)
  note ok1 = take_mission_flag [OF ex assms(3)]
  show ?thesis
  proof (cases "pending = 0")
    case True
    with rest have "c' = c" "env_steps (service_step S) n2 m1 m'" by (auto dest: exec_env_RetD simp: c)
    with env_steps_kept [OF this(2) kept_cycle] ok1 show ?thesis by blast
  next
    case False
    with rest obtain n3 n4 mission m2 where n2: "n2 = n3 + n4"
      and ld: "exec_env (service_step S) n3 load_mission m1 mission m2"
      and rest: "exec_env (service_step S) n4 (?entry mission) m2 c' m'"
      by (auto elim: exec_env_bindE)
    have among: "mission_among S m1" using ok1 False by blast
    note kept = exec_env_silent_kept [OF ld silent_load_mission]
    have ok2: "cycle_ok S c m2" "mission_among S m2"
      using kept [OF kept_cycle] kept [OF kept_service(3) among] ok1 by blast+
    show ?thesis
    proof (cases mission)
      case None
      with rest have "exec_env (service_step S) n4
          (pbind (atomic_do set_mission_pending) (\<lambda>_. Ret c)) m2 c' m'" by (simp add: c)
      from put_mission_back [OF this ok2] show ?thesis by simp
    next
      case (Some mis)
      obtain w k where mis: "mis = (w, k)" by (cases mis)
      have mis_in: "mis \<in> S"
        by (rule load_mission_among [OF ld [unfolded Some] _ among]) (use n n2 assms(2) in simp)
      have "cycle_ok S (apply_route model w k, app') m2" for app'
        using ok2(1) by (simp add: cycle_ok_def c live_ok_def leafs_finite_def)
      then have "cycle_ok S (mission_applied mis c) m2" by (simp add: c mis mission_applied_def)
      moreover have "c' = mission_applied mis c" "env_steps (service_step S) n4 m2 m'"
        using rest Some by (auto dest: exec_env_RetD simp: c mis mission_applied_def)
      ultimately show ?thesis using env_steps_kept [OF _ kept_cycle] mis_in by blast
    qed
  qed
qed

section \<open>One cycle\<close>

lemma apply_values_cycle:
  assumes "exec_env (service_step S) n (for_each [0..<length value_table] apply_pending_value c) m c' m'"
    and "n < 2 ^ 32" and "cycle_ok S c m"
  shows "cycle_ok S c' m' \<and> route_of (fst c') = route_of (fst c) \<and>
    mission_part (snd c') = mission_part (snd c)"
proof (rule exec_env_for_each [OF assms(1), where I = "\<lambda>c' m. cycle_ok S c' m \<and>
    route_of (fst c') = route_of (fst c) \<and> mission_part (snd c') = mission_part (snd c)"])
  fix i s x l s' y
  assume "i \<in> set [0..<length value_table]" "l \<le> n" "exec_env (service_step S) l (apply_pending_value i s) x s' y"
    and "cycle_ok S s x \<and> route_of (fst s) = route_of (fst c) \<and> mission_part (snd s) = mission_part (snd c)"
  with apply_value_cycle [of S l i s x s' y] assms(2)
  show "cycle_ok S s' y \<and> route_of (fst s') = route_of (fst c) \<and> mission_part (snd s') = mission_part (snd c)"
    by simp
qed (use assms(3) kept_cycle [of S] in \<open>auto simp: kept_by_def\<close>)

lemma apply_cycle:
  assumes "exec_env (service_step S) n (cubs2_runtime_control_apply (Some model) app) m (mo, app') m'"
    and "n < 2 ^ 32" and "cycle_ok S (model, app) m"
  obtains model' c where "mo = Some model'" "cycle_ok S (model', app') m'"
    "route_of (fst c) = route_of model" "mission_part (snd c) = mission_part app"
    "(model', app') = c \<or> (\<exists>mis \<in> S. (model', app') = mission_applied mis c)"
proof -
  from assms(1) obtain n1 n2 c m1 where n: "n = n1 + n2"
    and vals: "exec_env (service_step S) n1 (for_each [0..<length value_table] apply_pending_value (model, app)) m c m1"
    and rest: "exec_env (service_step S) n2
      (pbind (apply_pending_mission c) (\<lambda>(model, app). Ret (Some model, app))) m1 (mo, app') m'"
    unfolding cubs2_runtime_control_apply_def option.case by (rule exec_env_bindE)
  have c: "cycle_ok S c m1 \<and> route_of (fst c) = route_of model \<and> mission_part (snd c) = mission_part app"
    using apply_values_cycle [OF vals _ assms(3)] n assms(2) by simp
  from rest obtain n3 n4 model' app1 m2 where n2: "n2 = n3 + n4"
    and mis: "exec_env (service_step S) n3 (apply_pending_mission c) m1 (model', app1) m2"
    and ret: "exec_env (service_step S) n4 (Ret (Some model', app1)) m2 (mo, app') m'"
    by (rule exec_env_bindE) (auto split: prod.splits)
  have r: "mo = Some model'" "app' = app1" "env_steps (service_step S) n4 m2 m'"
    using ret by (auto dest: exec_env_RetD)
  have "cycle_ok S (model', app') m2 \<and> ((model', app') = c \<or> (\<exists>mis \<in> S. (model', app') = mission_applied mis c))"
    using apply_mission_cycle [OF mis] c n n2 assms(2) r(2) by simp
  with that [of model' c] c r env_steps_kept [OF r(3) kept_cycle] show thesis by blast
qed

section \<open>Flights\<close>

text \<open>
  A flight: from the state after initialisation, cycles of apply and of the controller's
  own step, with the transport thread at any point of its queries. In a cycle it takes
  fewer than \<open>2 ^ 32\<close> steps during apply, and any number between two of them. What the rest
  of a cycle does to the controller is one of the functions \<open>steps\<close>: the generated step on
  the inputs of that cycle, or nothing when no step is due.
\<close>

type_synonym 'z flight_state = "'z outer_loop_scheme \<times> applied \<times> (shared, unit) prog \<times> shared"

inductive flight ::
  "('z outer_loop_scheme \<Rightarrow> 'z outer_loop_scheme) set \<Rightarrow> 'z flight_state \<Rightarrow> 'z flight_state \<Rightarrow> bool"
  for steps s0 where
  flight_start: "flight steps s0 s0"
| flight_cycle: "flight steps s0 (model, app, w, m) \<Longrightarrow>
    interleaved n (cubs2_runtime_control_apply (Some model) app) w m (Some model1, app1) w1 m1 \<Longrightarrow>
    n < 2 ^ 32 \<Longrightarrow> interleaved k (Ret ()) w1 m1 () w2 m2 \<Longrightarrow> step \<in> steps \<Longrightarrow>
    flight steps s0 (step model1, app1, w2, m2)"

definition takeoff ::
  "('r, 'v, 'g, 't, 's, 'b) synapse \<Rightarrow> query list \<Rightarrow> 'z outer_loop_scheme \<Rightarrow> 'z flight_state" where
  "takeoff syn queries model = (model, zero_applied, serve syn queries, init_shared model)"

text \<open>
  The rely on the generated step, which is not in the repository: it writes no parameter and
  no waypoint, and if every copy of the active leg is the same valid segment before a step,
  so it is after it. The source documents of the step only that the active segment is a valid
  1-based one; that its copies agree again after a step is assumed here.
\<close>

definition keeps_parameters :: "('z outer_loop_scheme \<Rightarrow> 'z outer_loop_scheme) \<Rightarrow> bool" where
  "keeps_parameters step \<longleftrightarrow> (\<forall>model.
     leaf (step model) = leaf model \<and>
     route_nSegments (step model) = route_nSegments model \<and>
     guidance_route_nSegments (step model) = guidance_route_nSegments model \<and>
     route_waypoints (step model) = route_waypoints model \<and>
     guidance_route_waypoints (step model) = guidance_route_waypoints model \<and>
     (on_route model \<longrightarrow> on_route (step model)))"

definition route_finite :: "'z outer_loop_scheme \<Rightarrow> bool" where
  "route_finite model \<longleftrightarrow>
     list_all (\<lambda>r. list_all (\<lambda>c. isfinite64 (route_waypoints model r c)) [0..<3]) [0..<MAX_POINTS]"

text \<open>The controller's state is fit to fly: no NaN, no infinity, and every leg on the route.\<close>

definition sane :: "'z outer_loop_scheme \<Rightarrow> bool" where
  "sane model \<longleftrightarrow> leafs_finite model \<and> route_finite model \<and> on_route model"

lemma on_route_of: "route_of a = route_of b \<Longrightarrow> on_route a = on_route b"
  by (simp add: route_of_def on_route_def)

lemma route_finite_of: "route_of a = route_of b \<Longrightarrow> route_finite a = route_finite b"
  by (simp add: route_of_def route_finite_def)

lemma route_finite_applied: "mission_ok (w, k) \<Longrightarrow> route_finite (apply_route model w k)"
  by (simp add: mission_ok_def route_finite_def apply_route_eq routed_def list_all_iff)

lemma sent_ok: "mis \<in> sent syn queries \<Longrightarrow> mission_ok mis"
  by (auto simp: sent_def dest: missions_ok)

lemma carries_step: "keeps_parameters step \<Longrightarrow> carries app (step model) = carries app model"
  by (simp add: keeps_parameters_def carries_def)

lemma sane_step: "keeps_parameters step \<Longrightarrow> sane model \<Longrightarrow> sane (step model)"
  by (simp add: keeps_parameters_def sane_def leafs_finite_def route_finite_def)

lemma cycle_ok_step: "keeps_parameters step \<Longrightarrow> cycle_ok S (step model, app) m = cycle_ok S (model, app) m"
  by (simp add: keeps_parameters_def cycle_ok_def live_ok_def leafs_finite_def)

text \<open>The invariant of a flight, with the transport thread's guarantee for what it has left.\<close>

definition flight_inv :: "mission set \<Rightarrow> 'z flight_state \<Rightarrow> bool" where
  "flight_inv S = (\<lambda>(model, app, w, m).
     cycle_ok S (model, app) m \<and> sane model \<and> carries app model \<and>
     (applied_mission app \<longrightarrow> (applied_waypoints app, applied_segments app) \<in> S) \<and>
     keeps controller_step (service_step S) (\<lambda>_. quiet) w m)"

lemma flight_inv_cycle:
  assumes inv: "flight_inv S (model, app, w, m)" and ok: "\<And>mis. mis \<in> S \<Longrightarrow> mission_ok mis"
    and cycle: "interleaved n (cubs2_runtime_control_apply (Some model) app) w m (Some model1, app1) w1 m1"
    and n: "n < 2 ^ 32"
  shows "flight_inv S (model1, app1, w1, m1)"
proof -
  have i: "cycle_ok S (model, app) m" "sane model" "carries app model"
    "applied_mission app \<Longrightarrow> (applied_waypoints app, applied_segments app) \<in> S"
    "keeps controller_step (service_step S) (\<lambda>_. quiet) w m"
    using inv by (simp_all add: flight_inv_def del: keeps.simps)
  from interleaved_exec_env [OF cycle controller_steps_apply i(5)]
  have ex: "exec_env (service_step S) n (cubs2_runtime_control_apply (Some model) app) m (Some model1, app1) m1"
    and w1: "keeps controller_step (service_step S) (\<lambda>_. quiet) w1 m1" by auto
  from apply_cycle [OF ex n i(1)] obtain c where c: "cycle_ok S (model1, app1) m1"
    "route_of (fst c) = route_of model" "mission_part (snd c) = mission_part app"
    "(model1, app1) = c \<or> (\<exists>mis \<in> S. (model1, app1) = mission_applied mis c)"
    by (metis option.inject)
  have r: "on_route (fst c)" "route_finite (fst c)"
    using i(2) on_route_of [OF c(2)] route_finite_of [OF c(2)] by (simp_all add: sane_def)
  have "on_route model1 \<and> route_finite model1 \<and>
      (applied_mission app1 \<longrightarrow> (applied_waypoints app1, applied_segments app1) \<in> S)"
    using c(4)
  proof
    assume "(model1, app1) = c"
    then show ?thesis using r c(3) i(4) by (auto simp: mission_part_def)
  next
    assume "\<exists>mis \<in> S. (model1, app1) = mission_applied mis c"
    then obtain a k where "(a, k) \<in> S" "model1 = apply_route (fst c) a k"
      "applied_waypoints app1 = a" "applied_segments app1 = k"
      by (cases c) (auto simp: mission_applied_def)
    then show ?thesis using ok [of "(a, k)"]
      by (auto simp: route_finite_applied mission_ok_def intro: on_route_applied)
  qed
  moreover have "carries app1 model1" by (rule apply_carries [OF cycle i(3)])
  ultimately show ?thesis using c(1) w1 by (simp add: flight_inv_def sane_def cycle_ok_def del: keeps.simps)
qed

lemma flight_inv_between:
  assumes inv: "flight_inv S (model, app, w, m)" and step: "keeps_parameters step"
    and between: "interleaved k (Ret ()) w m () w' m'"
  shows "flight_inv S (step model, app, w', m')"
proof -
  have w: "keeps controller_step (service_step S) (\<lambda>_. quiet) w m"
    using inv by (simp add: flight_inv_def del: keeps.simps)
  have "steps_in controller_step (Ret () :: (shared, unit) prog)" by simp
  from interleaved_exec_env [OF between this w]
  have "env_steps (service_step S) k m m'" "keeps controller_step (service_step S) (\<lambda>_. quiet) w' m'"
    by (auto dest: exec_env_RetD)
  moreover have "cycle_ok S (step model, app) m" "sane (step model)" "carries app (step model)"
    using inv step by (simp_all add: flight_inv_def cycle_ok_step sane_step carries_step del: keeps.simps)
  ultimately show ?thesis
    using inv env_steps_kept [OF _ kept_cycle] by (auto simp: flight_inv_def simp del: keeps.simps)
qed

lemma flight_inv_takeoff:
  assumes "sane model"
  shows "flight_inv (sent syn queries) (takeoff syn queries model)"
proof -
  let ?m = "init_shared model" and ?S = "sent syn queries"
  have init: "at_rest ?m" and abs: "runtime_abs ?m =
     \<lparr>spec_version = 1,
      spec_live = (\<lambda>i. if i < length value_table then leaf model (live_member (value_table ! i)) else 0),
      spec_staged = Map.empty, spec_mission = None\<rparr>"
    using init_establishes [of model] by blast+
  have quiet: "quiet ?m" using init by (simp add: at_rest_def quiet_def slots_even_def)
  have pending: "isfinite64 (slot_value (pending_values ?m i))" for i
    using assms by (simp add: init_pending sane_def leafs_finite_def del: length_values)
  have "live_ok model ?m" using init arg_cong [OF abs, of spec_live]
    by (simp add: live_ok_def slot_holds_def at_rest_def slots_even_def runtime_abs_def fun_eq_iff)
  moreover have "staged_ok ?S ?m"
    using init pending arg_cong [OF abs, of spec_mission]
    by (simp add: staged_ok_def slot_among_def at_rest_def runtime_abs_def split: if_splits)
  ultimately show ?thesis
    using assms keeps_serve [OF quiet, of syn queries ?S] carries_init [of model]
    by (simp add: flight_inv_def takeoff_def cycle_ok_def sane_def zero_applied_def del: keeps.simps)
qed

lemma flight_invariant:
  assumes "flight steps (takeoff syn queries model0) s" and "\<forall>step \<in> steps. keeps_parameters step" and "sane model0"
  shows "flight_inv (sent syn queries) s"
  using assms(1)
proof (induction rule: flight.induct)
  case flight_start
  show ?case by (rule flight_inv_takeoff [OF assms(3)])
next
  case (flight_cycle model app w m n model1 app1 w1 m1 k w2 m2 step)
  from assms(2) flight_cycle.hyps(5) have step: "keeps_parameters step" by blast
  from flight_inv_cycle [OF flight_cycle.IH sent_ok flight_cycle.hyps(2,3)]
  show ?case by (rule flight_inv_between [OF _ step flight_cycle.hyps(4)])
qed

text \<open>
  C1 NaN and infinities never reach the controller, and its active leg never leaves its
  route: at every cycle of every flight, for all queries that are sent and all ways the two
  threads interleave, every tunable parameter and every waypoint is finite and every copy of
  the active leg is a leg of the route.
\<close>

theorem flight_safe:
  assumes "flight steps (takeoff syn queries model0) (model, app, w, m)"
    and "\<forall>step \<in> steps. keeps_parameters step" and "sane model0"
  shows "sane model"
  using flight_invariant [OF assms] by (simp add: flight_inv_def)

text \<open>
  C2 The route that is flown is one mission that was sent, as a whole: no interleaving ever
  mixes the waypoints or the length of two missions.
\<close>

theorem flown_mission_was_sent:
  assumes "flight steps (takeoff syn queries model0) (model, app, w, m)"
    and "\<forall>step \<in> steps. keeps_parameters step" and "sane model0" and "applied_mission app"
  shows "\<exists>(points, n) \<in> sent syn queries. route_nSegments model = n \<and>
    list_all (\<lambda>r. list_all (\<lambda>c. route_waypoints model r c = points (min r (unat n)) c) [0..<3])
      [0..<MAX_POINTS]"
proof -
  have "carries app model" "(applied_waypoints app, applied_segments app) \<in> sent syn queries"
    using flight_invariant [OF assms(1-3)] assms(4) by (simp_all add: flight_inv_def)
  then show ?thesis using assms(4)
    by (intro bexI) (auto simp: carries_def list_all_iff)
qed

text \<open>
  C21 At every cycle of every flight the live value of each parameter, which \<open>param_get\<close>
  reads, is the one the controller uses.
\<close>

theorem live_values_are_flown:
  assumes "flight steps (takeoff syn queries model0) (model, app, w, m)"
    and "\<forall>step \<in> steps. keeps_parameters step" and "sane model0" and "i < length value_table"
  shows "run (atomic_double_try_load (Live_value i)) m = (Some (leaf model (live_member (value_table ! i))), m)"
  using flight_invariant [OF assms(1-3)] assms(4)
  by (auto simp: flight_inv_def cycle_ok_def live_ok_def simp del: length_values intro!: try_load_holds)

section \<open>Witnesses\<close>

lemma example_model_sane: "sane example_model"
  by (simp add: sane_def leafs_finite_def route_finite_def example_model_on_route list_all_iff)

lemma id_keeps_parameters: "\<forall>step \<in> {id}. keeps_parameters step"
  by (simp add: keeps_parameters_def)

text \<open>
  A flight of two cycles: the first finds nothing staged, the transport thread then serves
  a mission, and the second applies it.
\<close>

lemma example_flight:
  obtains model app w m where
    "flight {id} (takeoff example_synapse [(''trajectory_set'', Some [0], 16)] example_model) (model, app, w, m)"
    "applied_mission app"
proof -
  let ?m0 = "init_shared example_model" and ?qs = "[(''trajectory_set'', Some [0 :: 8 word], 16 :: nat)]"
  from apply_run [OF init_at_rest, of example_model zero_applied] obtain model1 app1 m1
    where run1: "run (cubs2_runtime_control_apply (Some example_model) zero_applied) ?m0 = ((Some model1, app1), m1)"
      and m1: "at_rest m1" by blast
  obtain m2 where serve: "run (serve example_synapse ?qs) m1 = ((), m2)"
    by (cases "run (serve example_synapse ?qs) m1") simp
  have "m2 = snd (run (runtime_query example_synapse ''trajectory_set'' (Some [0]) 16) m1)"
    using serve by (auto simp: serve_def run_bind split: prod.splits)
  with query_run [OF m1, of example_synapse "''trajectory_set''" "Some [0]" 16]
  have m2: "at_rest m2" "runtime_abs m2 = spec_query example_synapse ''trajectory_set'' (Some [0]) (runtime_abs m1)"
    by simp_all
  from apply_run [OF m2(1), of model1 app1] obtain model2 m3 where
    run2: "run (cubs2_runtime_control_apply (Some model1) app1) m2 =
      ((Some model2, spec_applied (runtime_abs m2) app1), m3)" by blast
  have "trajectory_reader example_synapse = example_trajectory_reader" by (simp add: example_synapse_def)
  then have applied: "applied_mission (spec_applied (runtime_abs m2) app1)"
    by (simp add: m2(2) spec_query_def spec_trajectory_set_def example_mission spec_set_mission_def
        spec_applied_def Let_def)
  have f0: "flight {id} (takeoff example_synapse ?qs example_model)
      (example_model, zero_applied, serve example_synapse ?qs, ?m0)"
    using flight_start [of "{id}" "takeoff example_synapse ?qs example_model"] by (simp add: takeoff_def)
  obtain k where between: "interleaved k (Ret ()) (serve example_synapse ?qs) m1 () (Ret ()) m2"
    by (rule exE [OF interleaved_other_first [OF serve il_done [of "()" "Ret ()" m2]]])
  from flight_cycle [OF f0 interleaved_run [OF run1] _ between, of id]
  have f1: "flight {id} (takeoff example_synapse ?qs example_model) (model1, app1, Ret (), m2)" by simp
  from flight_cycle [OF f1 interleaved_run [OF run2] _ il_done, of id]
  have "flight {id} (takeoff example_synapse ?qs example_model)
      (model2, spec_applied (runtime_abs m2) app1, Ret (), m3)" by simp
  with applied that show thesis by blast
qed

theorem flight_safe_witness:
  "\<exists>model app w m.
     flight {id} (takeoff example_synapse [(''trajectory_set'', Some [0], 16)] example_model) (model, app, w, m) \<and>
     applied_mission app \<and> sane model"
proof -
  obtain model app w m where f: "flight {id} (takeoff example_synapse
      [(''trajectory_set'', Some [0], 16)] example_model) (model, app, w, m)" "applied_mission app"
    by (rule example_flight)
  from f flight_safe [OF f(1) id_keeps_parameters example_model_sane] show ?thesis by blast
qed

theorem flown_mission_was_sent_witness:
  "\<exists>model app w m.
     flight {id} (takeoff example_synapse [(''trajectory_set'', Some [0], 16)] example_model) (model, app, w, m) \<and>
     (\<exists>(points, n) \<in> sent example_synapse [(''trajectory_set'', Some [0], 16)]. route_nSegments model = n \<and>
       list_all (\<lambda>r. list_all (\<lambda>c. route_waypoints model r c = points (min r (unat n)) c) [0..<3])
         [0..<MAX_POINTS])"
proof -
  obtain model app w m where f: "flight {id} (takeoff example_synapse
      [(''trajectory_set'', Some [0], 16)] example_model) (model, app, w, m)" "applied_mission app"
    by (rule example_flight)
  from f(1) flown_mission_was_sent [OF f(1) id_keeps_parameters example_model_sane f(2)]
  show ?thesis by blast
qed

theorem live_values_are_flown_witness:
  "\<exists>model app w m.
     flight {id} (takeoff example_synapse [(''trajectory_set'', Some [0], 16)] example_model) (model, app, w, m) \<and>
     run (atomic_double_try_load (Live_value 11)) m = (Some (leaf model (live_member (value_table ! 11))), m)"
proof -
  obtain model app w m where f: "flight {id} (takeoff example_synapse
      [(''trajectory_set'', Some [0], 16)] example_model) (model, app, w, m)" "applied_mission app"
    by (rule example_flight)
  have "11 < length value_table" by simp
  from f(1) live_values_are_flown [OF f(1) id_keeps_parameters example_model_sane this]
  show ?thesis by blast
qed

end
