(* ===== verification/Realtime_Main.thy ===== *)
theory Realtime_Main
  imports Realtime_Telemetry Lockstep Flight
begin

text \<open>
  The program of \<open>src/main_realtime.c\<close>: the start of \<open>main\<close> with its error exits, one pass
  of its loop, and the pacing of the passes. A pass is a program over the shared memory,
  because it contains \<open>cubs2_runtime_control_apply\<close>; what it reads from the clock, the topics
  and the simulator are the members of \<open>cycle_input\<close>. The facts: a start that succeeds has
  registered every topic the loop publishes, what each pass sends to the actuators on every
  branch, and that the passes keep their period without drift.
\<close>

section \<open>Optional runtime control\<close>

text \<open>Without \<open>CONFIG_CUBS2_RUNTIME_CONTROL\<close> the header defines the three calls itself.\<close>

definition runtime_control_init ::
  "config \<Rightarrow> (string \<Rightarrow> string \<Rightarrow> 'e \<Rightarrow> bool \<times> 'e) \<Rightarrow> 'z outer_loop_scheme \<Rightarrow> shared \<times> applied \<Rightarrow> 'e \<Rightarrow>
   bool \<times> (shared \<times> applied) \<times> 'e" where
  "runtime_control_init cfg register model g env =
     (if runtime_control cfg then cubs2_runtime_control_init register (Some model) g env
      else (True, g, env))"

definition runtime_control_apply ::
  "config \<Rightarrow> 'z outer_loop_scheme \<Rightarrow> applied \<Rightarrow> (shared, 'z outer_loop_scheme option \<times> applied) prog" where
  "runtime_control_apply cfg model app =
     (if runtime_control cfg then cubs2_runtime_control_apply (Some model) app
      else Ret (Some model, app))"

definition runtime_control_restore ::
  "config \<Rightarrow> 'z outer_loop_scheme \<Rightarrow> applied \<Rightarrow> (shared, 'z outer_loop_scheme option) prog" where
  "runtime_control_restore cfg model app =
     (if runtime_control cfg then cubs2_runtime_control_restore (Some model) app
      else Ret (Some model))"

section \<open>Publishers\<close>

text \<open>A row of \<open>pubs\<close>: the publisher, its topic, and the member of the context it sends.\<close>

record pub_row =
  pub :: string
  topic :: string
  msg :: string

definition realtime_pubs :: "pub_row list" where
  "realtime_pubs =
     [\<lparr>pub = ''g_pwm_outputs_pub'', topic = ''pwm_signal_outputs'', msg = ''pwm_outputs''\<rparr>,
      \<lparr>pub = ''g_vehicle_health_pub'', topic = ''vehicle_health'', msg = ''vehicle_health''\<rparr>,
      \<lparr>pub = ''g_attitude_estimate_pub'', topic = ''attitude_estimate'', msg = ''attitude_estimate''\<rparr>,
      \<lparr>pub = ''g_attitude_command_pub'', topic = ''attitude_command'', msg = ''attitude_command''\<rparr>,
      \<lparr>pub = ''g_control_loop_metrics_pub'', topic = ''control_loop_metrics'', msg = ''control_loop_metrics''\<rparr>,
      \<lparr>pub = ''g_mission_progress_pub'', topic = ''mission_progress'', msg = ''mission_progress''\<rparr>,
      \<lparr>pub = ''g_local_position_command_pub'', topic = ''local_position_command'', msg = ''local_position_command''\<rparr>,
      \<lparr>pub = ''g_trajectory_segment_pub'', topic = ''trajectory_segment'', msg = ''trajectory_segment''\<rparr>,
      \<lparr>pub = ''g_navigation_target_pub'', topic = ''navigation_target'', msg = ''navigation_target''\<rparr>]"

text \<open>The loop over the rows: the code it returns, and the rows that were initialised.\<close>

fun init_rows :: "(pub_row \<Rightarrow> int) \<Rightarrow> pub_row list \<Rightarrow> int \<times> pub_row list" where
  "init_rows zros_pub_init [] = (0, [])"
| "init_rows zros_pub_init (row # rows) =
     (let rc = zros_pub_init row in
      if rc \<noteq> 0 then (rc, [])
      else let (rc, done) = init_rows zros_pub_init rows in (rc, row # done))"

definition control_pubs_init :: "(pub_row \<Rightarrow> int) \<Rightarrow> int \<times> pub_row list" where
  "control_pubs_init zros_pub_init = init_rows zros_pub_init realtime_pubs"

section \<open>Start\<close>

datatype exit_code =
    Exit_minus_one
  | Exit_errno errno
  | Exit_pubs int

text \<open>
  The zero context; \<open>blank\<close> holds the zeros of the messages of other libraries. The
  generated controller and the sequencing module are parameters, as in their theories.
\<close>

definition zero_control_context :: "'p control_context \<Rightarrow> 'p control_context" where
  "zero_control_context blank = blank
     \<lparr>ctx_mocap := \<lparr>mocap_x = 0, mocap_y = 0, mocap_z = 0, mocap_qw = 0, mocap_qx = 0, mocap_qy = 0,
        mocap_qz = 0, mocap_valid = False\<rparr>,
      next_control_time_us := 0,
      ctx_manual := \<lparr>manual_valid = False, manual_rc = (\<lambda>_. 0)\<rparr>,
      control_rc := (\<lambda>_. 0), mission_broadcast_countdown := 0, mission_broadcast_seq := 0,
      mocap_generation := 0, mocap_last_update_ms := 0, estimator_control_steps := 0,
      manual_generation := 0, main_loop_us := 0, previous_auto_mode := False\<rparr>"

record ('e, 'p, 'z) environment =
  register :: "string \<Rightarrow> string \<Rightarrow> 'e \<Rightarrow> bool \<times> 'e"
  registry :: 'e
  pose_topic_found :: bool
  sim_transport :: bool
  board :: lockstep_board
  host :: "'p lockstep_host"
  shm_bytes :: nat
  shm_path :: "string option"
  shm_zeros :: "odometry_data \<times> 'p \<times> attitude_command"
  sequence_init :: "'p lockstep_shared option \<Rightarrow> code"
  shm_before :: "'p lockstep_shared option"
  zros_pub_init :: "pub_row \<Rightarrow> int"
  blank_context :: "'p control_context"
  controller_memory :: "'z outer_loop_scheme"
  runtime_memory :: "shared \<times> applied"

text \<open>The controller after its initialisation, its recalibration and the choice of rates.\<close>

definition realtime_model :: "'z efmi \<Rightarrow> 'z outer_loop_scheme \<Rightarrow> 'z outer_loop_scheme" where
  "realtime_model efmi model =
     (efmi_recalibrate efmi (efmi_init efmi model))\<lparr>estimator_useMeasuredRates := 0\<rparr>"

definition realtime_start ::
  "config \<Rightarrow> 'z efmi \<Rightarrow> ('e, 'p, 'z) environment \<Rightarrow>
   exit_code + ('z outer_loop_scheme \<times> (shared \<times> applied) \<times> 'p control_context \<times> pub_row list)" where
  "realtime_start cfg efmi env =
     (let ctx = zero_control_context (blank_context env);
          model = realtime_model efmi (controller_memory env);
          (ok, g, _) = runtime_control_init cfg (register env) model (runtime_memory env) (registry env)
      in if \<not> ok then Inl Exit_minus_one
      else
        let (started, _, _) =
              (if fastdyn cfg then
                 cubs2_lockstep_start (sim_transport env) (board env) (host env) (shm_bytes env) (shm_path env)
                   (shm_zeros env) (sequence_init env) (shm_before env)
               else (None, None, []))
        in case started of
             Some e \<Rightarrow> Inl (Exit_errno e)
           | None \<Rightarrow>
               if \<not> fastdyn cfg \<and> \<not> pose_topic_found env then Inl Exit_minus_one
               else
                 let (rc, rows) = control_pubs_init (zros_pub_init env)
                 in if rc \<noteq> 0 then Inl (Exit_pubs rc) else Inr (model, g, ctx, rows))"

section \<open>One pass of the loop\<close>

record 'p cycle_input =
  in_transport :: bool
  in_wait :: code
  in_shm :: "'p lockstep_shared"
  in_respond :: "'p lockstep_shared \<Rightarrow> 'p lockstep_shared"
  in_pose :: pose_input
  in_manual :: manual_input
  in_start_cycles :: u32
  in_end_cycles :: u32
  in_cycles_to_us :: "u32 \<Rightarrow> u32"
  in_uptimes :: "u64 \<times> u64"

text \<open>The inputs; a failed receive ends the program.\<close>

definition read_inputs ::
  "config \<Rightarrow> flag_values \<Rightarrow> 'p cycle_input \<Rightarrow> 'p control_context \<Rightarrow> (bool \<times> 'p control_context) option" where
  "read_inputs cfg fl input ctx = do {
     (step_control, ctx) \<leftarrow>
       (if fastdyn cfg then
          case cubs2_lockstep_receive (in_transport input) Fastdyn_board (in_wait input) (in_shm input)
                 (ctx_odometry ctx) of
            Some (None, odometry) \<Rightarrow>
              Some (fastdyn_control_step_due (read_fastdyn_odometry fl (ctx\<lparr>ctx_odometry := odometry\<rparr>)))
          | _ \<Rightarrow> None
        else Some (True, snd (read_mocap_if_updated cfg (in_pose input) ctx)));
     Some (step_control, snd (read_manual_if_updated cfg (in_manual input) ctx))
   }"

definition select_mode :: "config \<Rightarrow> 'p control_context \<Rightarrow> bool \<times> 'p control_context" where
  "select_mode cfg ctx =
     (let auto_mode = auto_mode_selected cfg (ctx_manual ctx)
      in (auto_mode, ctx\<lparr>previous_auto_mode := auto_mode\<rparr>))"

text \<open>The step of the controller, with 1.0 or 0.0 for the engagement.\<close>

definition step_model ::
  "'p csyn \<Rightarrow> 'z efmi \<Rightarrow> bool \<Rightarrow> mocap_rigid_body \<Rightarrow> 'z outer_loop_scheme \<Rightarrow> 'z outer_loop_scheme" where
  "step_model cs efmi auto_mode mocap model =
     efmi_step efmi ((fixed_wing_map_input cs mocap model)
       \<lparr>engaged := (if auto_mode then 0x3FF0000000000000 else 0)\<rparr>)"

definition count_step :: "u32 \<Rightarrow> u32" where
  "count_step n = (if n < 0xFFFFFFFF then n + 1 else n)"

definition step_controller ::
  "'p csyn \<Rightarrow> 'z efmi \<Rightarrow> bool \<Rightarrow> bool \<Rightarrow> 'z outer_loop_scheme \<times> 'p control_context \<Rightarrow>
   'z outer_loop_scheme \<times> 'p control_context" where
  "step_controller cs efmi step_control auto_mode = (\<lambda>(model, ctx).
     if step_control \<and> mocap_valid (ctx_mocap ctx) then
       (step_model cs efmi auto_mode (ctx_mocap ctx) model,
        ctx\<lparr>estimator_control_steps := count_step (estimator_control_steps ctx)\<rparr>)
     else if \<not> mocap_valid (ctx_mocap ctx) then (model, ctx\<lparr>estimator_control_steps := 0\<rparr>)
     else (model, ctx))"

definition select_output ::
  "'p csyn \<Rightarrow> config \<Rightarrow> bool \<Rightarrow> 'z outer_loop_scheme \<Rightarrow> 'p control_context \<Rightarrow> rc_channels option" where
  "select_output cs cfg auto_mode model ctx =
     (if auto_mode then
        if mocap_valid (ctx_mocap ctx) then fixed_wing_map_output cs cfg model else Some idle_output
      else Some (manual_rc (ctx_manual ctx)))"

text \<open>How a pass ends: the next state with what was published and the simulator's memory,
  an exit, or an operation that C leaves undefined.\<close>

datatype ('z, 'p) pass_result =
    Next "'z" "'p control_context" "'p publication list" "'p lockstep_shared option"
  | Stop exit_code
  | Undefined

definition control_and_publish ::
  "'p csyn \<Rightarrow> config \<Rightarrow> flag_values \<Rightarrow> 'z efmi \<Rightarrow> 'p cycle_input \<Rightarrow> bool \<Rightarrow> bool \<Rightarrow>
   'z outer_loop_scheme \<times> 'p control_context \<Rightarrow>
   ('z outer_loop_scheme \<times> 'p control_context \<times> 'p publication list) option" where
  "control_and_publish cs cfg fl efmi input step_control auto_mode s = do {
     let (model, ctx) = step_controller cs efmi step_control auto_mode s;
     rc \<leftarrow> select_output cs cfg auto_mode model ctx;
     let ctx = ctx\<lparr>control_rc := rc,
       main_loop_us := in_cycles_to_us input (in_end_cycles input - in_start_cycles input)\<rparr>;
     (ctx, pubs) \<leftarrow> publish_outputs cs cfg fl (in_uptimes input) model auto_mode ctx;
     Some (model, ctx, pubs)
   }"

definition send_outputs ::
  "config \<Rightarrow> 'p cycle_input \<Rightarrow> 'z outer_loop_scheme \<times> 'p control_context \<times> 'p publication list \<Rightarrow>
   ('z outer_loop_scheme, 'p) pass_result" where
  "send_outputs cfg input = (\<lambda>(model, ctx, pubs).
     if fastdyn cfg then
       let (rc, shm) = cubs2_lockstep_send (in_transport input) (in_respond input) (pwm_outputs ctx)
             (ctx_attitude_command ctx) (in_shm input)
       in if rc \<noteq> None then Stop (Exit_errno EIO) else Next model ctx pubs (Some shm)
     else Next model ctx pubs None)"

definition realtime_pass ::
  "'p csyn \<Rightarrow> config \<Rightarrow> flag_values \<Rightarrow> 'z efmi \<Rightarrow> 'p cycle_input \<Rightarrow>
   'z outer_loop_scheme \<Rightarrow> applied \<Rightarrow> 'p control_context \<Rightarrow>
   (shared, ('z outer_loop_scheme, 'p) pass_result \<times> applied) prog" where
  "realtime_pass cs cfg fl efmi input model app ctx =
     (case read_inputs cfg fl input ctx of
        None \<Rightarrow> Ret (Stop (Exit_errno EIO), app)
      | Some (step_control, ctx) \<Rightarrow>
          let (auto_mode, ctx) = select_mode cfg ctx in
          pbind (runtime_control_apply cfg model app) (\<lambda>(model', app').
          Ret (case model' of
                 None \<Rightarrow> Undefined
               | Some model \<Rightarrow>
                   (case control_and_publish cs cfg fl efmi input step_control auto_mode (model, ctx) of
                      None \<Rightarrow> Undefined
                    | Some r \<Rightarrow> send_outputs cfg input r), app')))"

text \<open>The pass after \<open>apply\<close>, as a function of the controller that \<open>apply\<close> leaves.\<close>

definition pass_body ::
  "'p csyn \<Rightarrow> config \<Rightarrow> flag_values \<Rightarrow> 'z efmi \<Rightarrow> 'p cycle_input \<Rightarrow>
   'z outer_loop_scheme \<Rightarrow> 'p control_context \<Rightarrow> ('z outer_loop_scheme, 'p) pass_result" where
  "pass_body cs cfg fl efmi input model ctx =
     (case read_inputs cfg fl input ctx of
        None \<Rightarrow> Stop (Exit_errno EIO)
      | Some (step_control, ctx) \<Rightarrow>
          let (auto_mode, ctx) = select_mode cfg ctx in
          (case control_and_publish cs cfg fl efmi input step_control auto_mode (model, ctx) of
             None \<Rightarrow> Undefined
           | Some r \<Rightarrow> send_outputs cfg input r))"

section \<open>Pacing\<close>

text \<open>The deadline the thread sleeps to, from the last one and two readings of the clock.\<close>

definition next_deadline :: "int \<Rightarrow> int \<Rightarrow> int \<Rightarrow> int \<Rightarrow> int" where
  "next_deadline period_ticks now1 now2 next_cycle_ticks =
     (let next_cycle_ticks = next_cycle_ticks + period_ticks
      in if now1 > next_cycle_ticks + 2 * period_ticks then now2 else next_cycle_ticks)"

section \<open>What a start leaves\<close>

text \<open>The loop returns the first code that is not 0, in the order of the rows.\<close>

definition first_failure :: "int list \<Rightarrow> int option" where
  "first_failure codes = find (\<lambda>rc. rc \<noteq> 0) codes"

lemma first_failure_simps [simp]:
  "first_failure [] = None"
  "first_failure (rc # codes) = (if rc \<noteq> 0 then Some rc else first_failure codes)"
  by (simp_all add: first_failure_def)

lemma first_failure_append:
  "first_failure (xs @ ys) = (case first_failure xs of None \<Rightarrow> first_failure ys | Some rc \<Rightarrow> Some rc)"
  by (induction xs) auto

lemma first_failure_nonzero: "first_failure codes \<noteq> Some 0"
  by (induction codes) auto

lemma init_rows_result:
  "init_rows f rows = (case first_failure (map f rows) of
     None \<Rightarrow> (0, rows) | Some rc \<Rightarrow> (rc, takeWhile (\<lambda>row. f row = 0) rows))"
  by (induction rows) (auto simp: Let_def split: option.split)

text \<open>Every service was accepted, in the registry that the ones before it left.\<close>

definition registry_after :: "(string \<Rightarrow> string \<Rightarrow> 'e \<Rightarrow> bool \<times> 'e) \<Rightarrow> (string \<times> string) list \<Rightarrow> 'e \<Rightarrow> 'e" where
  "registry_after reg rows env = fold (\<lambda>(key, service) env. snd (reg key service env)) rows env"

definition all_accepted ::
  "(string \<Rightarrow> string \<Rightarrow> 'e \<Rightarrow> bool \<times> 'e) \<Rightarrow> (string \<times> string) list \<Rightarrow> 'e \<Rightarrow> bool" where
  "all_accepted reg rows env \<longleftrightarrow> list_all
     (\<lambda>i. fst (reg (fst (rows ! i)) (snd (rows ! i)) (registry_after reg (take i rows) env)))
     [0..<length rows]"

lemma all_accepted_Cons:
  "all_accepted reg ((key, service) # rows) env \<longleftrightarrow>
     fst (reg key service env) \<and> all_accepted reg rows (snd (reg key service env))"
proof -
  have "[0..<length ((key, service) # rows)] = 0 # map Suc [0..<length rows]"
    by (simp add: map_Suc_upt upt_conv_Cons del: upt_Suc)
  then show ?thesis by (simp add: all_accepted_def registry_after_def list.pred_map comp_def del: upt_Suc)
qed

lemma register_all_accepted: "fst (register_all reg rows env) \<longleftrightarrow> all_accepted reg rows env"
  by (induction reg rows env rule: register_all.induct)
     (auto simp: all_accepted_Cons Let_def split: prod.split, simp add: all_accepted_def)

lemma publication_topics: "publication_topic p \<in> topic ` set realtime_pubs"
  by (cases p) (simp_all add: realtime_pubs_def)

definition services_accepted :: "config \<Rightarrow> ('e, 'p, 'z) environment \<Rightarrow> bool" where
  "services_accepted cfg env \<longleftrightarrow>
     (if runtime_control cfg then all_accepted (register env) queryables (registry env) else True)"

lemma runtime_control_init_result:
  "runtime_control_init cfg (register env) model g (registry env) = (ok, g', env') \<Longrightarrow>
     ok = services_accepted cfg env \<and>
     g' = (if runtime_control cfg then (init_shared model, zero_applied) else g)"
  using init_result [of "register env" model g "registry env"]
  by (auto simp: runtime_control_init_def services_accepted_def cubs2_runtime_control_init_def Let_def
      split: prod.splits simp flip: register_all_accepted)

definition lockstep_code :: "('e, 'p, 'z) environment \<Rightarrow> code" where
  "lockstep_code env = fst (cubs2_lockstep_start (sim_transport env) (board env) (host env) (shm_bytes env)
     (shm_path env) (shm_zeros env) (sequence_init env) (shm_before env))"

text \<open>
  C31 The outcome of a start says exactly what happened. It succeeds when every service was
  accepted, the lockstep started (emulated board) or the pose topic exists (aircraft), and
  every publisher was initialised; then it leaves the recalibrated controller on derived
  rates, the services' memory of that controller, the zero context, and a publisher for the
  topic of every message the loop can publish. It returns -1 when a service was refused or the
  pose topic is missing, the code of the lockstep when only that failed so far, and else the
  code of the first publisher that failed.
\<close>

theorem realtime_start_outcome:
  "case realtime_start cfg efmi env of
     Inr (model, g, ctx, rows) \<Rightarrow>
       services_accepted cfg env \<and> (if fastdyn cfg then lockstep_code env = None else pose_topic_found env) \<and>
       first_failure (map (zros_pub_init env) realtime_pubs) = None \<and>
       model = realtime_model efmi (controller_memory env) \<and> estimator_useMeasuredRates model = 0 \<and>
       g = (if runtime_control cfg then (init_shared model, zero_applied) else runtime_memory env) \<and>
       ctx = zero_control_context (blank_context env) \<and>
       publication_topic p \<in> topic ` set rows
   | Inl Exit_minus_one \<Rightarrow> \<not> (services_accepted cfg env \<and> (fastdyn cfg \<or> pose_topic_found env))
   | Inl (Exit_errno e) \<Rightarrow> services_accepted cfg env \<and> fastdyn cfg \<and> lockstep_code env = Some e
   | Inl (Exit_pubs rc) \<Rightarrow>
       services_accepted cfg env \<and> (if fastdyn cfg then lockstep_code env = None else pose_topic_found env) \<and>
       first_failure (map (zros_pub_init env) realtime_pubs) = Some rc"
  using publication_topics [of p] first_failure_nonzero [of "map (zros_pub_init env) realtime_pubs"]
  by (auto simp: realtime_start_def control_pubs_init_def init_rows_result Let_def realtime_model_def lockstep_code_def
      dest!: runtime_control_init_result split: sum.splits prod.splits option.splits if_splits exit_code.splits)

section \<open>What a pass does\<close>

text \<open>The channels a state of the loop has to send: the pilot's, the controller's or idle.\<close>

definition due_channels ::
  "'p csyn \<Rightarrow> config \<Rightarrow> 'z outer_loop_scheme \<Rightarrow> 'p control_context \<Rightarrow> rc_channels option" where
  "due_channels cs cfg model ctx =
     (if \<not> auto_mode_selected cfg (ctx_manual ctx) then Some (manual_rc (ctx_manual ctx))
      else if mocap_valid (ctx_mocap ctx) then fixed_wing_map_output cs cfg model
      else Some idle_output)"

definition failsafe_due :: "config \<Rightarrow> 'z outer_loop_scheme \<Rightarrow> 'p control_context \<Rightarrow> bool" where
  "failsafe_due cfg model ctx \<longleftrightarrow> auto_mode_selected cfg (ctx_manual ctx) \<and>
     (\<not> mocap_valid (ctx_mocap ctx) \<or> model_stale_failsafe_active model)"

text \<open>What holds after a pass that goes on.\<close>

definition pass_post ::
  "'p csyn \<Rightarrow> config \<Rightarrow> flag_values \<Rightarrow> 'p cycle_input \<Rightarrow> 'z outer_loop_scheme \<Rightarrow> 'p control_context \<Rightarrow>
   'p publication list \<Rightarrow> 'p lockstep_shared option \<Rightarrow> bool" where
  "pass_post cs cfg fl input model ctx pubs shm \<longleftrightarrow>
     due_channels cs cfg model ctx = Some (control_rc ctx) \<and>
     previous_auto_mode ctx = auto_mode_selected cfg (ctx_manual ctx) \<and>
     (mocap_valid (ctx_mocap ctx) \<or> estimator_control_steps ctx = 0) \<and>
     (\<exists>now_us pwm rest.
        pwm_outputs ctx = csyn_pwm_outputs_from_rc cs (control_rc ctx) now_us pwm \<and>
        pubs = Pub_pwm_signal_outputs (pwm_outputs ctx) #
          Pub_vehicle_health (vehicle_health_of fl (ctx_manual ctx) now_us
            (auto_mode_selected cfg (ctx_manual ctx)) (failsafe_due cfg model ctx)) # rest) \<and>
     shm = (if fastdyn cfg then
              Some (in_respond input ((in_shm input)\<lparr>shm_pwm := pwm_outputs ctx, shm_attitude := ctx_attitude_command ctx\<rparr>))
            else None)"

lemma control_and_publish_result:
  assumes "control_and_publish cs cfg fl efmi input step_control auto_mode (model0, ctx0) = Some (model, ctx, pubs)"
    and "auto_mode = auto_mode_selected cfg (ctx_manual ctx0)" and "previous_auto_mode ctx0 = auto_mode"
    and "send_outputs cfg input (model, ctx, pubs) = Next model' ctx' pubs' shm"
  shows "pass_post cs cfg fl input model' ctx' pubs' shm \<and>
    model' = fst (step_controller cs efmi step_control auto_mode (model0, ctx0)) \<and>
    ctx_manual ctx' = ctx_manual ctx0 \<and> ctx_mocap ctx' = ctx_mocap ctx0"
proof -
  obtain model1 ctx1 where s: "step_controller cs efmi step_control auto_mode (model0, ctx0) = (model1, ctx1)"
    by (cases "step_controller cs efmi step_control auto_mode (model0, ctx0)")
  have k: "ctx_manual ctx1 = ctx_manual ctx0" "ctx_mocap ctx1 = ctx_mocap ctx0"
    "previous_auto_mode ctx1 = auto_mode"
    "mocap_valid (ctx_mocap ctx1) \<or> estimator_control_steps ctx1 = 0"
    using s assms(3) by (auto simp: step_controller_def split: if_splits)
  from assms(1) obtain rc ctx2 where rc: "select_output cs cfg auto_mode model1 ctx1 = Some rc"
    and ctx2: "ctx2 = ctx1\<lparr>control_rc := rc,
       main_loop_us := in_cycles_to_us input (in_end_cycles input - in_start_cycles input)\<rparr>"
    and p: "publish_outputs cs cfg fl (in_uptimes input) model1 auto_mode ctx2 = Some (ctx, pubs)"
    and m: "model = model1"
    by (auto simp: control_and_publish_def s Let_def Option.bind_eq_Some_conv)
  from publish_outputs_result [OF p] obtain now_us rest where
    core: "core_of ctx = core_of ctx2" and
    pubs: "pubs = Pub_pwm_signal_outputs (pwm_outputs ctx) # Pub_vehicle_health (ctx_vehicle_health ctx) # rest"
      "pwm_outputs ctx = csyn_pwm_outputs_from_rc cs (control_rc ctx2) now_us (pwm_outputs ctx2)"
      "ctx_vehicle_health ctx = vehicle_health_of fl (ctx_manual ctx2) now_us auto_mode
        (auto_mode \<and> (\<not> mocap_valid (ctx_mocap ctx2) \<or> model_stale_failsafe_active model1))" by blast
  have c: "ctx_manual ctx = ctx_manual ctx0" "ctx_mocap ctx = ctx_mocap ctx0" "control_rc ctx = rc"
    "previous_auto_mode ctx = auto_mode" "mocap_valid (ctx_mocap ctx) \<or> estimator_control_steps ctx = 0"
    using core k by (simp_all add: core_of_def ctx2)
  have "due_channels cs cfg model1 ctx = Some rc"
    using rc c assms(2) k by (simp add: due_channels_def select_output_def split: if_splits)
  moreover have "model' = model1 \<and> ctx' = ctx \<and> pubs' = pubs \<and> shm = (if fastdyn cfg then
      Some (in_respond input ((in_shm input)\<lparr>shm_pwm := pwm_outputs ctx, shm_attitude := ctx_attitude_command ctx\<rparr>))
      else None)"
    using assms(4) by (auto simp: send_outputs_def cubs2_lockstep_send_def m Let_def split: if_splits)
  moreover have "\<exists>now_us pwm rest.
      pwm_outputs ctx = csyn_pwm_outputs_from_rc cs (control_rc ctx) now_us pwm \<and>
      pubs = Pub_pwm_signal_outputs (pwm_outputs ctx) #
        Pub_vehicle_health (vehicle_health_of fl (ctx_manual ctx) now_us
          (auto_mode_selected cfg (ctx_manual ctx)) (failsafe_due cfg model1 ctx)) # rest"
    using pubs c k assms(2) by (intro exI) (auto simp: ctx2 failsafe_due_def)
  ultimately show ?thesis
    using c assms(2) unfolding pass_post_def s by simp
qed

lemma pass_always:
  "always (\<lambda>(r, app'). \<forall>model' ctx' pubs shm. r = Next model' ctx' pubs shm \<longrightarrow>
     pass_post cs cfg fl input model' ctx' pubs shm)
   (realtime_pass cs cfg fl efmi input model app ctx)"
proof (cases "read_inputs cfg fl input ctx")
  case (Some r)
  then obtain step_control ctx1 where r: "read_inputs cfg fl input ctx = Some (step_control, ctx1)" by (cases r) auto
  show ?thesis
    unfolding realtime_pass_def r select_mode_def
    by (auto simp: Let_def intro!: always_bind' split: option.splits dest!: control_and_publish_result)
qed (simp add: realtime_pass_def)

text \<open>
  C12 Every pass that goes on, whatever it reads and however the transport thread interleaves,
  sends to the actuators the pilot's channels in manual mode, the controller's in automatic
  mode with a valid pose, and the idle output in automatic mode without one. It publishes
  that output first and then the health, with the failsafe flag exactly in automatic mode
  without a valid pose or with the controller's stale-pose failsafe, and it forgets the steps
  of the estimator when the pose is invalid.
\<close>

theorem pass_outputs:
  assumes "interleaved n (realtime_pass cs cfg fl efmi input model app ctx) w m
    (Next model' ctx' pubs shm, app') w' m'"
  shows "pass_post cs cfg fl input model' ctx' pubs shm"
  using interleaved_always [OF assms pass_always] by simp

section \<open>The period\<close>

text \<open>The deadlines of the passes, from the readings of the clock at their ends.\<close>

fun deadlines :: "int \<Rightarrow> (int \<times> int) list \<Rightarrow> int \<Rightarrow> int list" where
  "deadlines period_ticks [] d = []"
| "deadlines period_ticks ((now1, now2) # nows) d =
     (let d = next_deadline period_ticks now1 now2 d in d # deadlines period_ticks nows d)"

lemma deadlines_from:
  assumes "\<And>i. i < length nows \<Longrightarrow> fst (nows ! i) \<le> d + (int i + 3) * p"
  shows "deadlines p nows d = map (\<lambda>i. d + (int i + 1) * p) [0..<length nows]"
  using assms
proof (induction nows arbitrary: d)
  case (Cons now nows)
  obtain now1 now2 where now: "now = (now1, now2)" by (cases now)
  have "now1 \<le> d + 3 * p" using Cons.prems [of 0] by (simp add: now)
  then have d: "next_deadline p now1 now2 d = d + p" by (simp add: next_deadline_def)
  have "deadlines p nows (d + p) = map (\<lambda>i. d + p + (int i + 1) * p) [0..<length nows]"
  proof (rule Cons.IH)
    fix i assume "i < length nows"
    then show "fst (nows ! i) \<le> d + p + (int i + 3) * p"
      using Cons.prems [of "Suc i"] by (simp add: algebra_simps)
  qed
  moreover have "map f [0..<length (now # nows)] = f 0 # map (\<lambda>i. f (Suc i)) [0..<length nows]" for f :: "nat \<Rightarrow> int"
    using map_upt_Suc [of f "length nows"] by simp
  ultimately show ?case
    by (simp add: now d Let_def algebra_simps del: upt_Suc)
qed simp

text \<open>
  C39 The passes keep their period without drift: while no pass ends more than two periods
  after its deadline, pass \<open>i\<close> is followed by a sleep to exactly \<open>i + 1\<close> periods after the start,
  however long the work of each pass took.
\<close>

theorem passes_do_not_drift:
  assumes "list_all (\<lambda>i. fst (nows ! i) \<le> start + (int i + 3) * period_ticks) [0..<length nows]"
  shows "deadlines period_ticks nows start =
    map (\<lambda>i. start + (int i + 1) * period_ticks) [0..<length nows]"
  using assms by (intro deadlines_from) (simp add: list_all_iff)

text \<open>After any pass, the deadline has moved on and is at most two periods behind the clock.\<close>

lemma lag_bounded:
  "0 < p \<Longrightarrow> now1 \<le> now2 \<Longrightarrow>
     d < next_deadline p now1 now2 d \<and> now1 - 2 * p \<le> next_deadline p now1 now2 d"
  by (auto simp: next_deadline_def Let_def)

end
