(* ===== verification/Sil_Main.thy ===== *)
theory Sil_Main
  imports Sil_State Realtime_Main
begin

text \<open>
  The program of \<open>src/main_sil.c\<close>: its start, and one pass of its loop, in the lockstep build
  and in the build that polls its topics. When the autopilot engages, the controller is
  initialised again and what was applied to it is restored; both are in the pass. The facts:
  what a start leaves, what a pass sends on every branch, and that a pass never waits for
  the transport thread.
\<close>

section \<open>Start\<close>

definition sil_pubs :: "pub_row list" where
  "sil_pubs =
     [\<lparr>pub = ''g_pwm_outputs_pub'', topic = ''pwm_signal_outputs'', msg = ''pwm_outputs''\<rparr>,
      \<lparr>pub = ''g_vehicle_health_pub'', topic = ''vehicle_health'', msg = ''vehicle_health''\<rparr>,
      \<lparr>pub = ''g_attitude_estimate_pub'', topic = ''attitude_estimate'', msg = ''attitude_estimate''\<rparr>,
      \<lparr>pub = ''g_attitude_command_pub'', topic = ''attitude_command'', msg = ''attitude_command''\<rparr>,
      \<lparr>pub = ''g_control_loop_metrics_pub'', topic = ''control_loop_metrics'', msg = ''control_loop_metrics''\<rparr>]"

text \<open>The code, and the rows and subscriptions that were initialised.\<close>

definition sil_topics_init ::
  "(pub_row \<Rightarrow> int) \<Rightarrow> (string \<Rightarrow> int) \<Rightarrow> int \<times> pub_row list \<times> string list" where
  "sil_topics_init pub_init zros_sub_init =
     (let (rc, rows) = init_rows pub_init sil_pubs in
      if rc \<noteq> 0 then (rc, rows, [])
      else let rc = zros_sub_init ''odometry'' in
        if rc \<noteq> 0 then (rc, rows, [])
        else let rc = zros_sub_init ''manual_control'' in
          if rc \<noteq> 0 then (rc, rows, [''odometry'']) else (0, rows, [''odometry'', ''manual_control'']))"

definition zero_sil_context :: "'p sil_context \<Rightarrow> 'p sil_context" where
  "zero_sil_context blank = blank
     \<lparr>sil_odometry := (sil_odometry blank)
        \<lparr>odom_timestamp_us := 0, odom_position := \<lparr>vec_x = 0, vec_y = 0, vec_z = 0\<rparr>,
         odom_attitude := \<lparr>quat_w = 0, quat_x = 0, quat_y = 0, quat_z = 0\<rparr>,
         odom_linear_velocity := \<lparr>vec_x = 0, vec_y = 0, vec_z = 0\<rparr>,
         odom_angular_velocity := \<lparr>vec_x = 0, vec_y = 0, vec_z = 0\<rparr>, odom_flags := 0\<rparr>,
      sil_manual := \<lparr>manual_valid = False, manual_rc = (\<lambda>_. 0)\<rparr>, sil_control_rc := (\<lambda>_. 0),
      sil_main_loop_us := 0, lockstep_time_us := 0, sil_next_control_time_us := 0,
      sil_estimator_control_steps := 0, lockstep_time_valid := False, sil_previous_auto_mode := False\<rparr>"

definition sil_reinit :: "'z efmi \<Rightarrow> 'z outer_loop_scheme \<Rightarrow> 'z outer_loop_scheme" where
  "sil_reinit efmi model = efmi_recalibrate efmi (efmi_init efmi model)"

text \<open>The environment is that of the other program, with its own context and subscriptions.\<close>

definition sil_start ::
  "config \<Rightarrow> 'z efmi \<Rightarrow> ('e, 'p, 'z) environment \<Rightarrow> (string \<Rightarrow> int) \<Rightarrow> 'p sil_context \<Rightarrow>
   exit_code + ('z outer_loop_scheme \<times> (shared \<times> applied) \<times> 'p sil_context \<times> pub_row list \<times> string list \<times>
     'p lockstep_shared option)" where
  "sil_start cfg efmi env zros_sub_init blank =
     (let ctx = zero_sil_context blank;
          model = sil_reinit efmi (controller_memory env);
          (ok, g, _) = runtime_control_init cfg (register env) model (runtime_memory env) (registry env)
      in if \<not> ok then Inl Exit_minus_one
      else
        let (rc, rows, subs) = sil_topics_init (zros_pub_init env) zros_sub_init in
        if rc \<noteq> 0 then Inl (Exit_pubs rc)
        else
          case cubs2_lockstep_start (sim_transport env) (board env) (host env) (shm_bytes env) (shm_path env)
                 (shm_zeros env) (sequence_init env) (shm_before env) of
            (Some e, _, _) \<Rightarrow> Inl (Exit_errno e)
          | (None, shm, _) \<Rightarrow> Inr (model, g, ctx, rows, subs, shm))"

section \<open>One pass of the loop\<close>

record 'p sil_input =
  sin_transport :: bool
  sin_board :: lockstep_board
  sin_wait :: code
  sin_shm :: "'p lockstep_shared option"
  sin_respond :: "'p lockstep_shared \<Rightarrow> 'p lockstep_shared"
  sin_sub_wait :: int
  sin_odometry :: "odometry_data sub_update"
  sin_manual :: "manual_control sub_update"
  sin_start_cycles :: u32
  sin_end_cycles :: u32
  sin_cycles_to_us :: "u32 \<Rightarrow> u32"
  sin_uptime_ms :: u64

text \<open>What reading the odometry leads to: the pass goes on, the loop starts again, the
  program returns an error, or the process ends.\<close>

datatype 'p odometry_result =
    Read "'p sil_context"
  | Again "'p sil_context"
  | Read_error
  | Process_exit

definition sil_read_odometry :: "config \<Rightarrow> 'p sil_input \<Rightarrow> 'p sil_context \<Rightarrow> 'p odometry_result" where
  "sil_read_odometry cfg input ctx =
     (if lockstep_mode cfg then
        if cubs2_lockstep_enabled (sin_shm input) then
          (case cubs2_lockstep_receive (sin_transport input) (sin_board input) (sin_wait input)
                  (the (sin_shm input)) (sil_odometry ctx) of
             None \<Rightarrow> Process_exit
           | Some (rc, odometry) \<Rightarrow>
               if rc \<noteq> None then Read_error
               else Read (ctx\<lparr>sil_odometry := odometry, lockstep_time_us := odom_timestamp_us odometry,
                            lockstep_time_valid := True\<rparr>))
        else if sin_sub_wait input \<noteq> 0 then Again ctx
        else
          let (odometry_updated, ctx) = read_odometry_if_updated (sin_odometry input) ctx
          in if \<not> odometry_updated then Again ctx else Read ctx
      else Read (snd (read_odometry_if_updated (sin_odometry input) ctx)))"

text \<open>The engagement of the autopilot: the controller is initialised again, and restored.\<close>

definition sil_engage ::
  "config \<Rightarrow> 'z efmi \<Rightarrow> bool \<Rightarrow> 'z outer_loop_scheme \<Rightarrow> applied \<Rightarrow> 'p sil_context \<Rightarrow>
   (shared, 'z outer_loop_scheme option \<times> 'p sil_context) prog" where
  "sil_engage cfg efmi auto_mode model app ctx =
     (if auto_mode \<and> \<not> sil_previous_auto_mode ctx then
        pbind (runtime_control_restore cfg (sil_reinit efmi model) app) (\<lambda>model.
        Ret (model, ctx\<lparr>sil_estimator_control_steps := 0, sil_previous_auto_mode := auto_mode\<rparr>))
      else Ret (Some model, ctx\<lparr>sil_previous_auto_mode := auto_mode\<rparr>))"

definition sil_step_model ::
  "'p csyn \<Rightarrow> 'z efmi \<Rightarrow> odometry_data \<Rightarrow> 'z outer_loop_scheme \<Rightarrow> 'z outer_loop_scheme" where
  "sil_step_model cs efmi odom model =
     efmi_step efmi ((sil_map_input cs odom model)\<lparr>engaged := 0x3FF0000000000000\<rparr>)"

definition sil_control ::
  "'p csyn \<Rightarrow> flag_values \<Rightarrow> 'z efmi \<Rightarrow> bool \<Rightarrow> bool \<Rightarrow> 'z outer_loop_scheme \<Rightarrow> 'p sil_context \<Rightarrow>
   ('z outer_loop_scheme \<times> 'p sil_context) option" where
  "sil_control cs fl efmi step_control auto_mode model ctx =
     (let odometry_ok = sil_odometry_valid fl (sil_odometry ctx) in
      if auto_mode then
        if step_control \<and> odometry_ok then
          let model = sil_step_model cs efmi (sil_odometry ctx) model;
              ctx = ctx\<lparr>sil_estimator_control_steps := count_step (sil_estimator_control_steps ctx)\<rparr>
          in do {
            auto_rc \<leftarrow> sil_map_output cs model;
            Some (model, ctx\<lparr>sil_control_rc := auto_rc\<rparr>)
          }
        else if \<not> odometry_ok then
          Some (model, ctx\<lparr>sil_estimator_control_steps := 0, sil_control_rc := sil_idle_output\<rparr>)
        else Some (model, ctx)
      else Some (model, ctx\<lparr>sil_control_rc := manual_rc (sil_manual ctx)\<rparr>))"

datatype ('z, 'p) sil_result =
    Sil_next "'z" "'p sil_context" "'p publication list" "'p lockstep_shared option"
  | Sil_again "'p sil_context"
  | Sil_exit exit_code
  | Sil_process_exit
  | Sil_undefined

definition sil_finish ::
  "'p csyn \<Rightarrow> config \<Rightarrow> flag_values \<Rightarrow> 'z efmi \<Rightarrow> 'p sil_input \<Rightarrow> bool \<Rightarrow> 'z outer_loop_scheme \<Rightarrow>
   'p sil_context \<Rightarrow> ('z outer_loop_scheme, 'p) sil_result" where
  "sil_finish cs cfg fl efmi input auto_mode model ctx =
     (let (step_control, ctx) = control_step_due cfg ctx in
      case sil_control cs fl efmi step_control auto_mode model ctx of
        None \<Rightarrow> Sil_undefined
      | Some (model, ctx) \<Rightarrow>
          let ctx = ctx\<lparr>sil_main_loop_us :=
                sin_cycles_to_us input (sin_end_cycles input - sin_start_cycles input)\<rparr>;
              (ctx, pubs) = sil_publish_outputs cs cfg fl (sin_uptime_ms input) model auto_mode ctx
          in if lockstep_mode cfg \<and> cubs2_lockstep_enabled (sin_shm input) then
               let (rc, shm) = cubs2_lockstep_send (sin_transport input) (sin_respond input)
                     (sil_pwm_outputs ctx) (sil_attitude_command ctx) (the (sin_shm input))
               in if rc \<noteq> None then Sil_exit (Exit_errno EIO) else Sil_next model ctx pubs (Some shm)
             else Sil_next model ctx pubs (sin_shm input))"

definition sil_pass ::
  "'p csyn \<Rightarrow> config \<Rightarrow> flag_values \<Rightarrow> 'z efmi \<Rightarrow> 'p sil_input \<Rightarrow>
   'z outer_loop_scheme \<Rightarrow> applied \<Rightarrow> 'p sil_context \<Rightarrow>
   (shared, ('z outer_loop_scheme, 'p) sil_result \<times> applied) prog" where
  "sil_pass cs cfg fl efmi input model app ctx =
     (case sil_read_odometry cfg input ctx of
        Again ctx \<Rightarrow> Ret (Sil_again ctx, app)
      | Read_error \<Rightarrow> Ret (Sil_exit (Exit_errno EIO), app)
      | Process_exit \<Rightarrow> Ret (Sil_process_exit, app)
      | Read ctx \<Rightarrow>
          let ctx = snd (sil_read_manual_if_updated (sin_manual input) ctx);
              auto_mode = sil_auto_mode_selected cfg (sil_manual ctx)
          in pbind (sil_engage cfg efmi auto_mode model app ctx) (\<lambda>(model, ctx).
             case model of
               None \<Rightarrow> Ret (Sil_undefined, app)
             | Some model \<Rightarrow>
                 pbind (runtime_control_apply cfg model app) (\<lambda>(model, app).
                 Ret (case model of
                        None \<Rightarrow> Sil_undefined
                      | Some model \<Rightarrow> sil_finish cs cfg fl efmi input auto_mode model ctx, app))))"

section \<open>What a start leaves\<close>

text \<open>The codes of the topics, in the order the program initialises them.\<close>

definition sil_topic_codes :: "('e, 'p, 'z) environment \<Rightarrow> (string \<Rightarrow> int) \<Rightarrow> int list" where
  "sil_topic_codes env sub_init =
     map (zros_pub_init env) sil_pubs @ map sub_init [''odometry'', ''manual_control'']"

lemma sil_topics_init_result:
  "sil_topics_init (zros_pub_init env) sub_init = (rc, rows, subs) \<Longrightarrow>
     (case first_failure (sil_topic_codes env sub_init) of
        None \<Rightarrow> rc = 0 \<and> rows = sil_pubs \<and> subs = [''odometry'', ''manual_control'']
      | Some code \<Rightarrow> rc = code)"
  by (auto simp: sil_topics_init_def sil_topic_codes_def init_rows_result first_failure_append
      first_failure_nonzero Let_def split: option.splits if_splits)

text \<open>
  C32 The outcome of a start says exactly what happened. It succeeds when every service was
  accepted, the five publishers and then both subscriptions were initialised, and the lockstep
  started; then it leaves the recalibrated controller, the services' memory of that
  controller, and the zero context. It returns -1 exactly when a service was refused, else the
  code of the first topic that failed, and else the code of the lockstep.
\<close>

theorem sil_start_outcome:
  "case sil_start cfg efmi env sub_init blank of
     Inr (model, g, ctx, rows, subs, shm) \<Rightarrow>
       services_accepted cfg env \<and> first_failure (sil_topic_codes env sub_init) = None \<and> lockstep_code env = None \<and>
       model = sil_reinit efmi (controller_memory env) \<and>
       g = (if runtime_control cfg then (init_shared model, zero_applied) else runtime_memory env) \<and>
       ctx = zero_sil_context blank \<and> rows = sil_pubs \<and> subs = [''odometry'', ''manual_control'']
   | Inl Exit_minus_one \<Rightarrow> \<not> services_accepted cfg env
   | Inl (Exit_pubs rc) \<Rightarrow> services_accepted cfg env \<and> first_failure (sil_topic_codes env sub_init) = Some rc
   | Inl (Exit_errno e) \<Rightarrow>
       services_accepted cfg env \<and> first_failure (sil_topic_codes env sub_init) = None \<and> lockstep_code env = Some e"
  using first_failure_nonzero [of "sil_topic_codes env sub_init"]
  by (auto simp: sil_start_def Let_def lockstep_code_def
      dest!: runtime_control_init_result sil_topics_init_result
      split: sum.splits prod.splits option.splits if_splits exit_code.splits)

section \<open>What a pass sends\<close>

text \<open>Whether a step is due: always in real time, once in a slot in simulated time.\<close>

definition sil_due :: "config \<Rightarrow> 'p sil_context \<Rightarrow> 'p sil_context \<Rightarrow> bool" where
  "sil_due cfg old ctx \<longleftrightarrow> \<not> simulated_time cfg \<or> sil_next_control_time_us old \<le> lockstep_time_us ctx"

definition sil_channels_ok ::
  "'p csyn \<Rightarrow> config \<Rightarrow> flag_values \<Rightarrow> 'p sil_context \<Rightarrow> 'z outer_loop_scheme \<Rightarrow> 'p sil_context \<Rightarrow> bool" where
  "sil_channels_ok cs cfg fl old model ctx \<longleftrightarrow>
     (if \<not> auto_mode_selected cfg (sil_manual ctx) then sil_control_rc ctx = manual_rc (sil_manual ctx)
      else if \<not> sil_odometry_valid fl (sil_odometry ctx) then
        sil_control_rc ctx = idle_output \<and> sil_estimator_control_steps ctx = 0
      else if sil_due cfg old ctx then map_output cs True model = Some (sil_control_rc ctx)
      else sil_control_rc ctx = sil_control_rc old)"

definition sil_published ::
  "'p csyn \<Rightarrow> config \<Rightarrow> flag_values \<Rightarrow> 'p sil_context \<Rightarrow> 'p publication list \<Rightarrow> bool" where
  "sil_published cs cfg fl ctx pubs \<longleftrightarrow>
     (\<exists>now_us pwm rest.
        sil_pwm_outputs ctx = csyn_pwm_outputs_from_rc cs (sil_control_rc ctx) now_us pwm \<and>
        pubs = Pub_pwm_signal_outputs (sil_pwm_outputs ctx) #
          Pub_vehicle_health (vehicle_health_of fl (sil_manual ctx) now_us
            (auto_mode_selected cfg (sil_manual ctx))
            (auto_mode_selected cfg (sil_manual ctx) \<and> \<not> sil_odometry_valid fl (sil_odometry ctx))) # rest)"

definition sil_sent :: "config \<Rightarrow> 'p sil_input \<Rightarrow> 'p sil_context \<Rightarrow> 'p lockstep_shared option \<Rightarrow> bool" where
  "sil_sent cfg input ctx shm \<longleftrightarrow>
     shm = (if lockstep_mode cfg then
              map_option (\<lambda>s. sin_respond input (s\<lparr>shm_pwm := sil_pwm_outputs ctx,
                shm_attitude := sil_attitude_command ctx\<rparr>)) (sin_shm input)
            else sin_shm input)"

definition sil_post ::
  "'p csyn \<Rightarrow> config \<Rightarrow> flag_values \<Rightarrow> 'p sil_input \<Rightarrow> 'p sil_context \<Rightarrow> 'z outer_loop_scheme \<Rightarrow>
   'p sil_context \<Rightarrow> 'p publication list \<Rightarrow> 'p lockstep_shared option \<Rightarrow> bool" where
  "sil_post cs cfg fl input old model ctx pubs shm \<longleftrightarrow>
     sil_channels_ok cs cfg fl old model ctx \<and> sil_published cs cfg fl ctx pubs \<and>
     sil_sent cfg input ctx shm \<and>
     sil_previous_auto_mode ctx = auto_mode_selected cfg (sil_manual ctx)"

text \<open>Publishing only reads what the pass decided.\<close>

definition sil_core_of :: "'p sil_context \<Rightarrow>
   odometry_data \<times> manual_control \<times> rc_channels \<times> u32 \<times> u64 \<times> u64 \<times> u32 \<times> bool \<times> bool" where
  "sil_core_of ctx = (sil_odometry ctx, sil_manual ctx, sil_control_rc ctx, sil_main_loop_us ctx,
     lockstep_time_us ctx, sil_next_control_time_us ctx, sil_estimator_control_steps ctx,
     lockstep_time_valid ctx, sil_previous_auto_mode ctx)"

lemma sil_publish_result:
  assumes "sil_publish_outputs cs cfg fl uptime_ms model auto_mode ctx = (ctx', pubs)"
    and "auto_mode = auto_mode_selected cfg (sil_manual ctx)"
  shows "sil_core_of ctx' = sil_core_of ctx \<and> sil_published cs cfg fl ctx' pubs"
  using assms
  by (auto simp: sil_publish_outputs_def sil_update_telemetry_def Let_def sil_core_of_def sil_published_def
      intro!: exI [of _ "control_timestamp_us cfg uptime_ms ctx"] exI [of _ "sil_pwm_outputs ctx"])

lemma step_due_result:
  "control_step_due cfg ctx = (due, ctx') \<Longrightarrow>
     due = sil_due cfg ctx ctx \<and> sil_control_rc ctx' = sil_control_rc ctx \<and>
     sil_manual ctx' = sil_manual ctx \<and> sil_odometry ctx' = sil_odometry ctx \<and>
     lockstep_time_us ctx' = lockstep_time_us ctx \<and> sil_previous_auto_mode ctx' = sil_previous_auto_mode ctx"
  by (auto simp: control_step_due_def simulated_step_due_def sil_due_def split: if_splits)

lemma sil_control_result:
  assumes "sil_control cs fl efmi due auto_mode model0 ctx0 = Some (model, ctx)"
    and "auto_mode = auto_mode_selected cfg (sil_manual ctx0)" and "due = sil_due cfg old ctx0"
    and "sil_control_rc ctx0 = sil_control_rc old"
  shows "sil_channels_ok cs cfg fl old model ctx \<and> sil_manual ctx = sil_manual ctx0 \<and>
    sil_odometry ctx = sil_odometry ctx0 \<and> sil_previous_auto_mode ctx = sil_previous_auto_mode ctx0 \<and>
    model \<in> {model0, sil_step_model cs efmi (sil_odometry ctx0) model0}"
  using assms
  by (auto simp: sil_control_def Let_def sil_channels_ok_def sil_due_def sil_map_output_eq
      sil_idle_output_def idle_output_def Option.bind_eq_Some_conv split: if_splits)

lemma sil_finish_result:
  assumes "sil_finish cs cfg fl efmi input auto_mode model0 ctx0 = Sil_next model ctx pubs shm"
    and "auto_mode = auto_mode_selected cfg (sil_manual ctx0)" and "sil_previous_auto_mode ctx0 = auto_mode"
    and "sil_control_rc ctx0 = sil_control_rc old"
    and "sil_next_control_time_us ctx0 = sil_next_control_time_us old"
  shows "sil_post cs cfg fl input old model ctx pubs shm \<and>
    model \<in> {model0, sil_step_model cs efmi (sil_odometry ctx0) model0} \<and> sil_manual ctx = sil_manual ctx0"
proof -
  obtain due ctx1 where due: "control_step_due cfg ctx0 = (due, ctx1)" by (cases "control_step_due cfg ctx0")
  note d = step_due_result [OF due]
  then have dold: "due = sil_due cfg old ctx1" using assms(5) by (simp add: sil_due_def)
  from assms(1) obtain model1 ctx2 where
    c: "sil_control cs fl efmi due auto_mode model0 ctx1 = Some (model1, ctx2)"
    by (auto simp: sil_finish_def due split: option.splits)
  have cr: "sil_channels_ok cs cfg fl old model1 ctx2 \<and> sil_manual ctx2 = sil_manual ctx1 \<and>
    sil_odometry ctx2 = sil_odometry ctx1 \<and> sil_previous_auto_mode ctx2 = sil_previous_auto_mode ctx1 \<and>
    model1 \<in> {model0, sil_step_model cs efmi (sil_odometry ctx1) model0}"
    by (rule sil_control_result [OF c _ dold]) (use assms(2,4) d in simp_all)
  let ?ctx = "ctx2\<lparr>sil_main_loop_us := sin_cycles_to_us input (sin_end_cycles input - sin_start_cycles input)\<rparr>"
  obtain ctx3 pubs3 where p: "sil_publish_outputs cs cfg fl (sin_uptime_ms input) model1 auto_mode ?ctx = (ctx3, pubs3)"
    by (cases "sil_publish_outputs cs cfg fl (sin_uptime_ms input) model1 auto_mode ?ctx")
  have pr: "sil_core_of ctx3 = sil_core_of ?ctx \<and> sil_published cs cfg fl ctx3 pubs3"
    by (rule sil_publish_result [OF p]) (use cr d assms(2) in simp)
  have e: "model = model1 \<and> ctx = ctx3 \<and> pubs = pubs3 \<and> sil_sent cfg input ctx3 shm"
    using assms(1)
    by (cases "sin_shm input")
       (auto simp: sil_finish_def due c p Let_def cubs2_lockstep_send_def cubs2_lockstep_enabled_def
         sil_sent_def split: if_splits)
  have "sil_channels_ok cs cfg fl old model1 ctx3"
    using cr pr by (simp add: sil_core_of_def sil_channels_ok_def sil_due_def)
  then show ?thesis
    using cr pr e d assms(2,3) by (auto simp: sil_post_def sil_core_of_def)
qed

lemma sil_engage_context:
  "always (\<lambda>(model', ctx'). sil_previous_auto_mode ctx' = auto_mode \<and> sil_control_rc ctx' = sil_control_rc ctx \<and>
     sil_next_control_time_us ctx' = sil_next_control_time_us ctx \<and> sil_manual ctx' = sil_manual ctx \<and>
     sil_odometry ctx' = sil_odometry ctx)
   (sil_engage cfg efmi auto_mode model app ctx)"
  by (auto simp: sil_engage_def intro!: always_bind')

lemma sil_reads_result:
  "sil_read_odometry cfg input ctx = Read ctx' \<Longrightarrow>
     sil_control_rc ctx' = sil_control_rc ctx \<and> sil_next_control_time_us ctx' = sil_next_control_time_us ctx"
  by (auto simp: sil_read_odometry_def read_odometry_if_updated_def Let_def
      split: if_splits option.splits prod.splits)

lemma sil_manual_result [simp]:
  "sil_control_rc (snd (sil_read_manual_if_updated i ctx)) = sil_control_rc ctx"
  "sil_next_control_time_us (snd (sil_read_manual_if_updated i ctx)) = sil_next_control_time_us ctx"
  by (simp_all add: sil_read_manual_if_updated_def split: prod.split)

definition sil_goes_on ::
  "'p csyn \<Rightarrow> config \<Rightarrow> flag_values \<Rightarrow> 'p sil_input \<Rightarrow> 'p sil_context \<Rightarrow>
   ('z outer_loop_scheme, 'p) sil_result \<Rightarrow> bool" where
  "sil_goes_on cs cfg fl input old r \<longleftrightarrow>
     (\<forall>model ctx pubs shm. r = Sil_next model ctx pubs shm \<longrightarrow> sil_post cs cfg fl input old model ctx pubs shm)"

lemma sil_pass_always:
  fixes ctx :: "'p sil_context"
  shows "always (\<lambda>(r, app'). sil_goes_on cs cfg fl input ctx r) (sil_pass cs cfg fl efmi input model app ctx)"
proof (cases "sil_read_odometry cfg input ctx")
  case (Read ctx1)
  let ?ctx = "snd (sil_read_manual_if_updated (sin_manual input) ctx1)"
  let ?auto = "sil_auto_mode_selected cfg (sil_manual ?ctx)"
  let ?rest = "\<lambda>mo c. case mo of
      None \<Rightarrow> Ret (Sil_undefined, app)
    | Some model \<Rightarrow>
        pbind (runtime_control_apply cfg model app) (\<lambda>(model, app).
        Ret (case model of
               None \<Rightarrow> Sil_undefined
             | Some model \<Rightarrow> sil_finish cs cfg fl efmi input ?auto model c, app))"
  have "sil_goes_on cs cfg fl input ctx (sil_finish cs cfg fl efmi input ?auto model c)"
    if "sil_previous_auto_mode c = ?auto" "sil_control_rc c = sil_control_rc ?ctx"
      "sil_next_control_time_us c = sil_next_control_time_us ?ctx" "sil_manual c = sil_manual ?ctx"
    for model and c :: "'p sil_context"
    using sil_finish_result [where old = ctx and auto_mode = ?auto and ?ctx0.0 = c and ?model0.0 = model] that
      sil_reads_result [OF Read]
    unfolding sil_goes_on_def by (simp add: sil_auto_mode_eq)
  then have rest: "always (\<lambda>(r, app'). sil_goes_on cs cfg fl input ctx r) (?rest mo c)"
    if "sil_previous_auto_mode c = ?auto" "sil_control_rc c = sil_control_rc ?ctx"
      "sil_next_control_time_us c = sil_next_control_time_us ?ctx" "sil_manual c = sil_manual ?ctx"
    for mo and c :: "'p sil_context"
    using that
    by (auto simp: sil_goes_on_def split: option.split intro!: always_bind')
  have "always (\<lambda>(r, app'). sil_goes_on cs cfg fl input ctx r)
      (pbind (sil_engage cfg efmi ?auto model app ?ctx) (\<lambda>(mo, c). ?rest mo c))"
    by (rule always_bind [OF sil_engage_context]) (use rest in \<open>auto split: prod.splits\<close>)
  then show ?thesis by (simp add: sil_pass_def Read Let_def)
qed (simp_all add: sil_pass_def sil_goes_on_def)

text \<open>
  C13 Every pass that goes on sends the pilot's channels in manual mode, the idle output in
  automatic mode without a valid odometry, the controller's output in a step of automatic
  mode, and the last channels between two steps. It publishes that output, and then the health
  with the failsafe flag exactly in automatic mode without a valid odometry, and in lockstep
  answers the simulator with that output.
\<close>

theorem sil_pass_outputs:
  assumes "interleaved n (sil_pass cs cfg fl efmi input model app ctx) w m
    (Sil_next model' ctx' pubs shm, app') w' m'"
  shows "sil_post cs cfg fl input ctx model' ctx' pubs shm"
  using interleaved_always [OF assms sil_pass_always] by (simp add: sil_goes_on_def)

lemma within_engage: "returns_within (sil_engage cfg efmi auto_mode model app ctx) 112"
  by (auto simp: sil_engage_def runtime_control_restore_def intro!: within_bindI [OF within_restore])

text \<open>
  C37 A pass never waits for the transport thread, with or without an engagement: it ends
  after at most 845 atomic operations of its own, whatever the other thread does before each.
\<close>

theorem sil_pass_returns:
  "\<exists>r m'. drive other 845 (sil_pass cs cfg fl efmi input model app ctx) m = Some (r, m')"
proof (rule within_returns)
  show "returns_within (sil_pass cs cfg fl efmi input model app ctx) 845"
    by (auto simp: sil_pass_def runtime_control_apply_def Let_def split: odometry_result.split option.split prod.split
        intro!: within_bindI [OF within_engage] within_bindI [OF within_apply])
qed

text \<open>
  In manual mode the controller does not step, so its attitude is that of its last step in
  automatic mode; with a valid odometry it is published as valid all the same.
\<close>

lemma sil_manual_attitude:
  fixes ctx :: "'p sil_context"
  assumes "sil_finish cs cfg fl efmi input False model0 ctx0 = Sil_next model ctx pubs shm"
    and "sil_odometry_valid fl (sil_odometry ctx0)" and "2 \<le> sil_estimator_control_steps ctx0"
    and "list_all (\<lambda>i. isfinite64 (euler_rad model0 i) \<and> isfinite64 (eulerRateEstimate_rad_s model0 i)) [0, 1, 2]"
  shows "\<exists>now_us. Pub_attitude_estimate (attitude_estimate_of cs model0 now_us
    (estimate_attitude_valid fl OR estimate_rates_valid fl)) \<in> set pubs"
proof -
  obtain due ctx1 where due: "control_step_due cfg ctx0 = (due, ctx1)" by (cases "control_step_due cfg ctx0")
  have "sil_estimator_control_steps ctx1 = sil_estimator_control_steps ctx0"
    using due by (auto simp: control_step_due_def simulated_step_due_def split: if_splits)
  moreover have "(1 :: u32) \<le> n" if "2 \<le> n" for n using that by (simp add: word_le_nat_alt)
  ultimately have flags: "sil_attitude_estimate_flags fl model0 True (f ctx1) =
      estimate_attitude_valid fl OR estimate_rates_valid fl"
    if "sil_estimator_control_steps (f ctx1) = sil_estimator_control_steps ctx1" for f :: "'p sil_context \<Rightarrow> 'p sil_context"
    using assms(3,4) that by (simp add: sil_attitude_estimate_flags_def Let_def)
  have "sil_odometry ctx1 = sil_odometry ctx0" using step_due_result [OF due] by simp
  then show ?thesis
    using assms(1,2)
    by (auto simp: sil_finish_def due sil_control_def sil_publish_outputs_def sil_update_telemetry_def Let_def
        flags [where f = "\<lambda>c. c\<lparr>sil_control_rc := _, sil_main_loop_us := _, sil_pwm_outputs := _\<rparr>"]
        split: if_splits prod.splits)
qed

end
