(* ===== verification/Restart.thy ===== *)
theory Restart
  imports Flight
begin

text \<open>
  A restart in flight: the controller is initialised again and
  \<open>cubs2_runtime_control_restore\<close> brings back what was applied, while the transport thread
  serves queries. The invariant of a flight survives it, if the initialisation gives every
  parameter its first value: the live values that \<open>param_get\<close> reads are then still those of
  the controller.
\<close>

lemma controller_steps_restore: "steps_in controller_step (cubs2_runtime_control_restore model app)"
proof -
  have "steps_in controller_step (restore_value app i s)" for i and s :: "'a outer_loop_scheme"
    unfolding restore_value_def atomic_double_store_value_def
    by (auto simp: controller_step_def store_low_def store_high_def fetch_add_sequence_def
        intro!: steps_in_bind)
  then show ?thesis
    unfolding cubs2_runtime_control_restore_def
    by (auto split: option.split simp del: length_values intro!: steps_in_bind steps_in_for_each)
qed

section \<open>Parameters that were not applied\<close>

text \<open>They have the values \<open>d\<close> of the first initialisation.\<close>

definition unapplied_as :: "(string \<Rightarrow> f64) \<Rightarrow> applied \<Rightarrow> 'z outer_loop_scheme \<Rightarrow> bool" where
  "unapplied_as d app model \<longleftrightarrow> (\<forall>i < length value_table. \<not> applied_value_set app i \<longrightarrow>
     leaf model (live_member (value_table ! i)) = d (live_member (value_table ! i)))"

lemma unapplied_value:
  "unapplied_as d app model \<Longrightarrow> i < length value_table \<Longrightarrow>
     unapplied_as d (app\<lparr>applied_values := x, applied_value_set := (applied_value_set app)(i := True)\<rparr>)
       (apply_value model i v)"
  by (auto simp: unapplied_as_def apply_value_leaf simp del: length_values)

lemma unapplied_route:
  "unapplied_as d app model \<Longrightarrow>
     unapplied_as d (app\<lparr>applied_waypoints := x, applied_segments := y, applied_mission := z\<rparr>) (apply_route model w n)"
  by (simp add: unapplied_as_def)

lemma always_apply_unapplied:
  assumes "unapplied_as d app model"
  shows "always (\<lambda>(mo, app). \<forall>model. mo = Some model \<longrightarrow> unapplied_as d app model)
    (cubs2_runtime_control_apply (Some model) app)"
  unfolding cubs2_runtime_control_apply_def option.case
proof (rule always_bind [where Q = "\<lambda>c. unapplied_as d (snd c) (fst c)"])
  let ?I = "\<lambda>c :: 'a controller. unapplied_as d (snd c) (fst c)"
  have "always ?I (apply_pending_value i c)" if "i < length value_table" "?I c" for i c
    using that unfolding apply_pending_value_def
    by (auto intro!: always_bind' unapplied_value split: prod.split option.split simp del: length_values)
  then show "always ?I (for_each [0..<length value_table] apply_pending_value (model, app))"
    by (intro always_for_each) (use assms in auto)
  have r: "always ?I (apply_pending_mission c)" if "?I c" for c
    using that unfolding apply_pending_mission_def
    by (auto intro!: always_bind' unapplied_route split: prod.split option.split)
  show "always (\<lambda>(mo, app). \<forall>model. mo = Some model \<longrightarrow> unapplied_as d app model)
      (pbind (apply_pending_mission c) (\<lambda>(model, app). Ret (Some model, app)))" if "?I c" for c
    by (rule always_bind [OF r [OF that]]) auto
qed

section \<open>The restored controller\<close>

lemma restored_leaf:
  assumes "i < length value_table"
  shows "leaf (restored app model) (live_member (value_table ! i)) =
      (if applied_value_set app i then applied_values app i else leaf model (live_member (value_table ! i)))"
    and "leaf (restored app model) (mirror_member (value_table ! i)) =
      (if applied_value_set app i then applied_values app i else leaf model (mirror_member (value_table ! i)))"
proof -
  have *: "set [0..<length value_table] \<subseteq> {..<length value_table}" by auto
  note leafs = spec_apply_values_leaf [OF distinct_upt * assms]
  show "leaf (restored app model) (live_member (value_table ! i)) =
      (if applied_value_set app i then applied_values app i else leaf model (live_member (value_table ! i)))"
    and "leaf (restored app model) (mirror_member (value_table ! i)) =
      (if applied_value_set app i then applied_values app i else leaf model (mirror_member (value_table ! i)))"
    using assms by (simp_all add: restored_def Let_def leafs del: length_values)
qed

lemma restored_live:
  assumes "carries app model" "unapplied_as d app model" "i < length value_table"
    and "leaf base (live_member (value_table ! i)) = d (live_member (value_table ! i))"
  shows "leaf (restored app base) (live_member (value_table ! i)) = leaf model (live_member (value_table ! i))"
  using assms
  by (auto simp: restored_leaf carries_def unapplied_as_def list_all_iff simp del: length_values)

lemma carries_finite:
  assumes "carries app model" "leafs_finite model" "i < length value_table" "applied_value_set app i"
  shows "isfinite64 (applied_values app i)"
proof -
  have "leaf model (live_member (value_table ! i)) = applied_values app i"
    using assms(1,3,4) by (auto simp: carries_def list_all_iff simp del: length_values)
  then show ?thesis using assms(2,3) by (auto simp: leafs_finite_def simp del: length_values)
qed

lemma restored_sane:
  assumes "carries app model" "sane model" "sane base"
    and "applied_mission app \<longrightarrow> mission_ok (applied_waypoints app, applied_segments app)"
  shows "sane (restored app base)"
proof -
  have fin: "leafs_finite (restored app base)"
    using assms(1-3) carries_finite [OF assms(1)]
    by (auto simp: leafs_finite_def restored_leaf sane_def simp del: length_values)
  let ?f = "fold (spec_apply_value (\<lambda>i. if applied_value_set app i then Some (applied_values app i) else None))
     [0..<length value_table]"
  have route: "route_of (fold (spec_apply_value g) is base) = route_of base" for g "is"
    by (induction "is" arbitrary: base rule: rev_induct)
       (auto simp: spec_apply_value_def split: option.split)
  show ?thesis
  proof (cases "applied_mission app")
    case True
    with assms(4) have ok: "mission_ok (applied_waypoints app, applied_segments app)" by simp
    then show ?thesis using fin True
      by (auto simp: sane_def restored_def Let_def mission_ok_def route_finite_applied intro: on_route_applied)
  next
    case False
    then have "route_of (restored app base) = route_of base" by (simp add: restored_def Let_def route)
    then show ?thesis using fin assms(3) on_route_of route_finite_of unfolding sane_def by blast
  qed
qed

section \<open>The transport thread meanwhile\<close>

lemma restore_value_kept:
  assumes "exec_env (service_step S) n (restore_value app i s) m s' m'"
    and "staged_ok S m \<and> live_ok model m" and "i < length value_table" and "carries app model"
  shows "staged_ok S m' \<and> live_ok model m'"
proof -
  have kept: "kept_by (service_step S) (\<lambda>x. staged_ok S x \<and> live_ok model x)"
    using kept_service(1) [of S] kept_service(2) [of S model] by (auto simp: kept_by_def)
  show ?thesis
  proof (cases "applied_value_set app i")
    case True
    let ?v = "applied_values app i"
    have v: "leaf model (live_member (value_table ! i)) = ?v"
      using assms(3,4) True by (auto simp: carries_def list_all_iff simp del: length_values)
    have leafs: "leaf (apply_value model i ?v) (live_member (value_table ! j)) = leaf model (live_member (value_table ! j))"
      if "j < length value_table" for j
      using v that assms(3) by (cases "j = i") (simp_all add: apply_value_leaf del: length_values)
    then have same: "live_ok (apply_value model i ?v) x = live_ok model x" for x
      unfolding live_ok_def by (simp del: length_values)
    have "keeps (service_step S) (\<lambda>_ _. True) (\<lambda>_ x. staged_ok S x \<and> live_ok model x)
        (atomic_double_store_value (Live_value i) ?v) m"
      using keeps_store_live [of S m model i ?v] assms(2,3) by (simp add: same del: keeps.simps length_values)
    then have stored: "keeps (service_step S) (\<lambda>_ _. True) (\<lambda>_ x. staged_ok S x \<and> live_ok model x)
        (pbind (atomic_double_store_value (Live_value i) ?v) (\<lambda>_. Ret (apply_value s i ?v))) m"
      by (rule keeps_bind) (rule keeps_RetI, use kept in simp_all)
    from assms(1) True have "exec_env (service_step S) n
        (pbind (atomic_double_store_value (Live_value i) ?v) (\<lambda>_. Ret (apply_value s i ?v))) m s' m'"
      by (simp add: restore_value_def)
    from exec_env_keeps [OF this stored] show ?thesis .
  next
    case False
    with assms(1) have "env_steps (service_step S) n m m'"
      by (auto simp: restore_value_def dest: exec_env_RetD)
    from env_steps_kept [OF this kept assms(2)] show ?thesis .
  qed
qed

lemma restore_kept:
  assumes "exec_env (service_step S) n (cubs2_runtime_control_restore (Some base) app) m r m'"
    and "staged_ok S m \<and> live_ok model m" and "carries app model"
  shows "staged_ok S m' \<and> live_ok model m'"
proof -
  have kept: "kept_by (service_step S) (\<lambda>x. staged_ok S x \<and> live_ok model x)"
    using kept_service(1) [of S] kept_service(2) [of S model] by (auto simp: kept_by_def)
  from assms(1) obtain n1 n2 s m1 where
    vals: "exec_env (service_step S) n1 (for_each [0..<length value_table] (restore_value app) base) m s m1"
    and rest: "exec_env (service_step S) n2 (Ret (Some (if applied_mission app
        then apply_route s (applied_waypoints app) (applied_segments app) else s))) m1 r m'"
    unfolding cubs2_runtime_control_restore_def option.case by (rule exec_env_bindE)
  have step: "staged_ok S m' \<and> live_ok model m'"
    if "i \<in> set [0..<length value_table]" "exec_env (service_step S) k (restore_value app i s) m s' m'"
      "staged_ok S m \<and> live_ok model m" for i k s m s' m'
    by (rule restore_value_kept [OF that(2,3) _ assms(3)]) (use that(1) in simp)
  have "staged_ok S m1 \<and> live_ok model m1"
    by (rule exec_env_for_each [OF vals, where I = "\<lambda>_ x. staged_ok S x \<and> live_ok model x"])
       (use assms(2) kept step in \<open>simp_all add: kept_by_def del: length_values\<close>)
  from env_steps_kept [OF _ kept this] rest show ?thesis by (auto dest: exec_env_RetD)
qed

text \<open>The invariant of a flight over a restart.\<close>

lemma flight_inv_restart:
  assumes inv: "flight_inv S (model, app, w, m)" and ok: "\<And>mis. mis \<in> S \<Longrightarrow> mission_ok mis"
    and restart: "interleaved n (cubs2_runtime_control_restore (Some base) app) w m mo w1 m1"
    and un: "unapplied_as d app model" and base: "sane base" "unapplied_as d zero_applied base"
  shows "mo = Some (restored app base) \<and> flight_inv S (restored app base, app, w1, m1) \<and>
    unapplied_as d app (restored app base)"
proof -
  have i: "cycle_ok S (model, app) m" "sane model" "carries app model"
    "applied_mission app \<Longrightarrow> (applied_waypoints app, applied_segments app) \<in> S"
    "keeps controller_step (service_step S) (\<lambda>_. quiet) w m"
    using inv by (simp_all add: flight_inv_def del: keeps.simps)
  from interleaved_exec_env [OF restart controller_steps_restore i(5)]
  have ex: "exec_env (service_step S) n (cubs2_runtime_control_restore (Some base) app) m mo m1"
    and w1: "keeps controller_step (service_step S) (\<lambda>_. quiet) w1 m1" by auto
  have mo: "mo = Some (restored app base)" by (rule interleaved_always [OF restart always_restore])
  have "staged_ok S m1 \<and> live_ok model m1"
    by (rule restore_kept [OF ex _ i(3)]) (use i(1) in \<open>simp add: cycle_ok_def\<close>)
  moreover have same: "leaf (restored app base) (live_member (value_table ! j)) = leaf model (live_member (value_table ! j))"
    if "j < length value_table" for j
    by (rule restored_live [OF i(3) un that])
       (use base(2) that in \<open>auto simp: unapplied_as_def zero_applied_def simp del: length_values\<close>)
  then have "live_ok (restored app base) x = live_ok model x" for x
    by (auto simp: live_ok_def simp del: length_values)
  moreover have "sane (restored app base)"
    by (rule restored_sane [OF i(3,2) base(1)]) (use i(4) ok in blast)
  moreover have "unapplied_as d app (restored app base)"
    using un same by (auto simp: unapplied_as_def simp del: length_values)
  ultimately show ?thesis
    using mo w1 i(4) carries_restored [of app base]
    by (auto simp: flight_inv_def cycle_ok_def sane_def simp del: keeps.simps)
qed

end
