(* ===== verification/Sil_Flight.thy ===== *)
theory Sil_Flight
  imports Sil_Main Restart Examples
begin

text \<open>
  Runs of the program in the simulation loop: any number of passes, with the restarts of the
  controller at each engagement of the autopilot, among the steps of the transport thread.
  The facts: no restart loses a value or the mission that was applied, and the controller
  never has a parameter or waypoint that is not finite, or a leg off its route.
\<close>

section \<open>Runs\<close>

type_synonym ('z, 'p) sil_state =
  "'z outer_loop_scheme \<times> applied \<times> 'p sil_context \<times> (shared, unit) prog \<times> shared"

inductive sil_run ::
  "'p csyn \<Rightarrow> config \<Rightarrow> flag_values \<Rightarrow> 'z efmi \<Rightarrow> 'p sil_input set \<Rightarrow> ('z, 'p) sil_state \<Rightarrow>
   ('z, 'p) sil_state \<Rightarrow> bool"
  for cs cfg fl efmi inputs s0 where
  sil_run_start: "sil_run cs cfg fl efmi inputs s0 s0"
| sil_run_next: "sil_run cs cfg fl efmi inputs s0 (model, app, ctx, w, m) \<Longrightarrow> input \<in> inputs \<Longrightarrow>
    interleaved n (sil_pass cs cfg fl efmi input model app ctx) w m
      (Sil_next model1 ctx1 pubs shm, app1) w1 m1 \<Longrightarrow>
    n < 2 ^ 32 \<Longrightarrow> interleaved k (Ret ()) w1 m1 () w2 m2 \<Longrightarrow>
    sil_run cs cfg fl efmi inputs s0 (model1, app1, ctx1, w2, m2)"
| sil_run_again: "sil_run cs cfg fl efmi inputs s0 (model, app, ctx, w, m) \<Longrightarrow> input \<in> inputs \<Longrightarrow>
    interleaved n (sil_pass cs cfg fl efmi input model app ctx) w m (Sil_again ctx1, app1) w1 m1 \<Longrightarrow>
    n < 2 ^ 32 \<Longrightarrow> interleaved k (Ret ()) w1 m1 () w2 m2 \<Longrightarrow>
    sil_run cs cfg fl efmi inputs s0 (model, app1, ctx1, w2, m2)"

definition sil_takeoff ::
  "('r, 'v, 'g, 't, 's, 'b) synapse \<Rightarrow> query list \<Rightarrow> 'z efmi \<Rightarrow> 'z outer_loop_scheme \<Rightarrow> 'p sil_context \<Rightarrow>
   ('z, 'p) sil_state" where
  "sil_takeoff syn queries efmi memory blank =
     (sil_reinit efmi memory, zero_applied, zero_sil_context blank, serve syn queries,
      init_shared (sil_reinit efmi memory))"

text \<open>
  \<open>inputs\<close> are the inputs that passes can have; the safety theorems hold for any.
  What is relied on of the generated controller: its step keeps the parameters and the
  route, and its initialisation gives a sane controller with the same first values of the
  parameters from whatever is in its memory.
\<close>

definition resets :: "'z efmi \<Rightarrow> bool" where
  "resets efmi \<longleftrightarrow> keeps_parameters (efmi_step efmi) \<and> (\<forall>memory. sane (sil_reinit efmi memory)) \<and>
     (\<forall>memory1 memory2. list_all (\<lambda>v. leaf (sil_reinit efmi memory1) (live_member v) =
        leaf (sil_reinit efmi memory2) (live_member v)) value_table)"

section \<open>The invariant of a run\<close>

definition sil_inv :: "mission set \<Rightarrow> (string \<Rightarrow> f64) \<Rightarrow> 'z flight_state \<Rightarrow> bool" where
  "sil_inv S d = (\<lambda>(model, app, w, m). flight_inv S (model, app, w, m) \<and> unapplied_as d app model)"

lemma unapplied_step:
  "keeps_parameters step \<Longrightarrow> unapplied_as d app (step model) = unapplied_as d app model"
  by (simp add: keeps_parameters_def unapplied_as_def)

lemma keeps_id: "keeps_parameters id"
  by (simp add: keeps_parameters_def)

lemma sil_inv_between:
  assumes "sil_inv S d (model, app, w, m)" and "keeps_parameters step"
    and "interleaved n (Ret ()) w m () w' m'"
  shows "sil_inv S d (step model, app, w', m')"
  using flight_inv_between [OF _ assms(2,3)] assms(1,2) unapplied_step [OF assms(2)] by (simp add: sil_inv_def)

lemma sil_inv_stay:
  assumes "sil_inv S d (model, app, w, m)" and "interleaved n (Ret x) w m y w' m'"
  shows "sil_inv S d (model, app, w', m')"
  using sil_inv_between [OF assms(1) keeps_id interleaved_Ret [OF assms(2), THEN conjunct2]] by simp

lemma resets_values:
  "resets efmi \<Longrightarrow> unapplied_as (leaf (sil_reinit efmi memory1)) app (sil_reinit efmi memory2)"
  unfolding resets_def unapplied_as_def list_all_iff by (metis nth_mem)

lemma sil_inv_engage:
  assumes inv: "sil_inv (sent syn queries) (leaf (sil_reinit efmi memory)) (model, app, w, m)"
    and efmi: "resets efmi" and cfg: "runtime_control cfg"
    and engage: "interleaved n (sil_engage cfg efmi auto_mode model app ctx) w m (mo, ctx') w' m'"
  obtains model' where "mo = Some model'"
    "sil_inv (sent syn queries) (leaf (sil_reinit efmi memory)) (model', app, w', m')"
proof (cases "auto_mode \<and> \<not> sil_previous_auto_mode ctx")
  case True
  let ?base = "sil_reinit efmi model"
  have "interleaved n (pbind (cubs2_runtime_control_restore (Some ?base) app) (\<lambda>mo.
      Ret (mo, ctx\<lparr>sil_estimator_control_steps := 0, sil_previous_auto_mode := auto_mode\<rparr>))) w m (mo, ctx') w' m'"
    using engage True cfg by (simp add: sil_engage_def runtime_control_restore_def)
  from interleaved_bind_Ret [OF this]
  have r: "interleaved n (cubs2_runtime_control_restore (Some ?base) app) w m mo w' m'" by auto
  have "mo = Some (restored app ?base) \<and> flight_inv (sent syn queries) (restored app ?base, app, w', m') \<and>
      unapplied_as (leaf (sil_reinit efmi memory)) app (restored app ?base)"
    by (rule flight_inv_restart [where model = model and d = "leaf (sil_reinit efmi memory)", OF _ sent_ok r])
       (use inv efmi resets_values [OF efmi] in \<open>simp_all add: sil_inv_def resets_def\<close>)
  with that show thesis by (simp add: sil_inv_def)
next
  case False
  with engage have "interleaved n (Ret (Some model, ctx\<lparr>sil_previous_auto_mode := auto_mode\<rparr>)) w m (mo, ctx') w' m'"
    by (simp add: sil_engage_def)
  from interleaved_Ret [OF this, of "()"] sil_inv_stay [OF inv this] show thesis by (intro that) simp_all
qed

lemma sil_inv_apply:
  assumes inv: "sil_inv (sent syn queries) d (model, app, w, m)"
    and cycle: "interleaved n (cubs2_runtime_control_apply (Some model) app) w m (mo, app') w' m'" and n: "n < 2 ^ 32"
  obtains model' where "mo = Some model'" "sil_inv (sent syn queries) d (model', app', w', m')"
proof -
  from interleaved_always [OF cycle apply_keeps [where J = "\<lambda>_. True"]]
  obtain model' where mo: "mo = Some model'" by auto
  have "flight_inv (sent syn queries) (model', app', w', m')"
    by (rule flight_inv_cycle [OF _ sent_ok _ n]) (use inv cycle mo in \<open>simp_all add: sil_inv_def\<close>)
  moreover have "unapplied_as d app' model'"
    using interleaved_always [OF cycle always_apply_unapplied [where d = d]] inv mo by (simp add: sil_inv_def)
  ultimately show thesis using that mo by (simp add: sil_inv_def)
qed

lemma on_route_sil_input [simp]:
  "on_route ((sil_map_input cs odom model)\<lparr>engaged := e\<rparr>) = on_route model"
  by (simp add: sil_map_input_def on_route_def Let_def split: prod.split)

lemma sil_step_keeps: "keeps_parameters (efmi_step efmi) \<Longrightarrow> keeps_parameters (sil_step_model cs efmi odom)"
  by (auto simp: keeps_parameters_def sil_step_model_def)
     (simp_all add: sil_map_input_def Let_def split: prod.split)

lemma sil_finish_model:
  assumes "sil_finish cs cfg fl efmi input auto_mode model0 ctx0 = Sil_next model ctx pubs shm"
  obtains "model = model0" | odom where "model = sil_step_model cs efmi odom model0"
  using assms
  by (auto simp: sil_finish_def sil_control_def Let_def Option.bind_eq_Some_conv
      split: if_splits option.splits prod.splits)

text \<open>A pass with a sample: the engagement, the cycle of the runtime control, the rest.\<close>

lemma sil_pass_split:
  assumes pass: "interleaved n (sil_pass cs cfg fl efmi input model app ctx) w m (r, app') w' m'"
    and read: "sil_read_odometry cfg input ctx = Read ctx1" and cfg: "runtime_control cfg"
    and ctx2: "ctx2 = snd (sil_read_manual_if_updated (sin_manual input) ctx1)"
    and auto: "auto_mode = sil_auto_mode_selected cfg (sil_manual ctx2)"
  obtains n1 n2 mo ctx3 w1 m1 where "n = n1 + n2"
    "interleaved n1 (sil_engage cfg efmi auto_mode model app ctx2) w m (mo, ctx3) w1 m1"
    "\<And>model1. mo = Some model1 \<Longrightarrow> \<exists>mo2.
       interleaved n2 (cubs2_runtime_control_apply (Some model1) app) w1 m1 (mo2, app') w' m' \<and>
       r = (case mo2 of None \<Rightarrow> Sil_undefined
            | Some model2 \<Rightarrow> sil_finish cs cfg fl efmi input auto_mode model2 ctx3)"
proof -
  let ?finish = "\<lambda>c (mo, app). (case mo of None \<Rightarrow> Sil_undefined
      | Some model \<Rightarrow> sil_finish cs cfg fl efmi input auto_mode model c, app)"
  let ?rest = "\<lambda>(mo, c). case mo of None \<Rightarrow> Ret (Sil_undefined, app)
    | Some model \<Rightarrow> pbind (runtime_control_apply cfg model app) (\<lambda>x. Ret (?finish c x))"
  have "sil_pass cs cfg fl efmi input model app ctx = pbind (sil_engage cfg efmi auto_mode model app ctx2) ?rest"
    by (auto simp: sil_pass_def read ctx2 auto Let_def split: option.split prod.split
        intro!: arg_cong [where f = "pbind _"] ext)
  with pass have "interleaved n (pbind (sil_engage cfg efmi auto_mode model app ctx2) ?rest) w m (r, app') w' m'"
    by simp
  then obtain n1 n2 x w1 m1 where n: "n = n1 + n2"
    and e: "interleaved n1 (sil_engage cfg efmi auto_mode model app ctx2) w m x w1 m1"
    and rest: "interleaved n2 (?rest x) w1 m1 (r, app') w' m'" by (rule interleaved_bind)
  obtain mo ctx3 where x: "x = (mo, ctx3)" by (cases x)
  show thesis
  proof (rule that [OF n e [unfolded x]])
    fix model1 assume "mo = Some model1"
    with rest have "interleaved n2 (pbind (cubs2_runtime_control_apply (Some model1) app) (\<lambda>x. Ret (?finish ctx3 x)))
        w1 m1 (r, app') w' m'"
      by (simp add: x runtime_control_apply_def cfg)
    from interleaved_bind_Ret [OF this] show "\<exists>mo2.
       interleaved n2 (cubs2_runtime_control_apply (Some model1) app) w1 m1 (mo2, app') w' m' \<and>
       r = (case mo2 of None \<Rightarrow> Sil_undefined
            | Some model2 \<Rightarrow> sil_finish cs cfg fl efmi input auto_mode model2 ctx3)" by auto
  qed
qed

text \<open>A pass without one.\<close>

lemma sil_pass_unread:
  assumes "interleaved n (sil_pass cs cfg fl efmi input model app ctx) w m (r, app') w' m'"
    and "\<And>ctx1. sil_read_odometry cfg input ctx \<noteq> Read ctx1"
  shows "(\<exists>ctx1. sil_read_odometry cfg input ctx = Again ctx1 \<and> r = Sil_again ctx1 \<or>
      r = Sil_exit (Exit_errno EIO) \<or> r = Sil_process_exit) \<and> app' = app \<and>
    interleaved n (Ret ()) w m () w' m'"
proof (cases "sil_read_odometry cfg input ctx")
  case (Again ctx1)
  with assms(1) have "interleaved n (Ret (Sil_again ctx1, app)) w m (r, app') w' m'" by (simp add: sil_pass_def)
  from interleaved_Ret [OF this, of "()"] Again show ?thesis by simp
next
  case Read_error
  with assms(1) have "interleaved n (Ret (Sil_exit (Exit_errno EIO), app)) w m (r, app') w' m'"
    by (simp add: sil_pass_def)
  from interleaved_Ret [OF this, of "()"] show ?thesis by simp
next
  case Process_exit
  with assms(1) have "interleaved n (Ret (Sil_process_exit, app)) w m (r, app') w' m'" by (simp add: sil_pass_def)
  from interleaved_Ret [OF this, of "()"] show ?thesis by simp
qed (use assms(2) in simp)

lemma sil_inv_pass:
  assumes inv: "sil_inv (sent syn queries) (leaf (sil_reinit efmi memory)) (model, app, w, m)"
    and efmi: "resets efmi" and cfg: "runtime_control cfg"
    and pass: "interleaved n (sil_pass cs cfg fl efmi input model app ctx) w m (r, app') w' m'" and n: "n < 2 ^ 32"
  shows "(\<forall>ctx'. r = Sil_again ctx' \<longrightarrow>
      sil_inv (sent syn queries) (leaf (sil_reinit efmi memory)) (model, app', w', m')) \<and>
    (\<forall>model' ctx' pubs shm. r = Sil_next model' ctx' pubs shm \<longrightarrow>
      sil_inv (sent syn queries) (leaf (sil_reinit efmi memory)) (model', app', w', m'))"
proof (cases "\<exists>ctx1. sil_read_odometry cfg input ctx = Read ctx1")
  case True
  let ?inv = "sil_inv (sent syn queries) (leaf (sil_reinit efmi memory))"
  from True obtain ctx1 where read: "sil_read_odometry cfg input ctx = Read ctx1" by blast
  let ?auto = "sil_auto_mode_selected cfg (sil_manual (snd (sil_read_manual_if_updated (sin_manual input) ctx1)))"
  from sil_pass_split [OF pass read cfg refl refl] obtain n1 n2 mo ctx3 w1 m1 where n12: "n = n1 + n2"
    and e: "interleaved n1 (sil_engage cfg efmi ?auto model app
      (snd (sil_read_manual_if_updated (sin_manual input) ctx1))) w m (mo, ctx3) w1 m1"
    and rest: "\<And>model1. mo = Some model1 \<Longrightarrow> \<exists>mo2.
       interleaved n2 (cubs2_runtime_control_apply (Some model1) app) w1 m1 (mo2, app') w' m' \<and>
       r = (case mo2 of None \<Rightarrow> Sil_undefined
            | Some model2 \<Rightarrow> sil_finish cs cfg fl efmi input ?auto model2 ctx3)" by blast
  obtain model1 where mo: "mo = Some model1" and inv1: "?inv (model1, app, w1, m1)"
    by (rule sil_inv_engage [OF inv efmi cfg e])
  from rest [OF mo] obtain mo2 where
    a: "interleaved n2 (cubs2_runtime_control_apply (Some model1) app) w1 m1 (mo2, app') w' m'"
    and r: "r = (case mo2 of None \<Rightarrow> Sil_undefined
      | Some model2 \<Rightarrow> sil_finish cs cfg fl efmi input ?auto model2 ctx3)" by blast
  have "n2 < 2 ^ 32" using n n12 by simp
  then obtain model2 where mo2: "mo2 = Some model2" and inv2: "?inv (model2, app', w', m')"
    using sil_inv_apply [OF inv1 a] by auto
  from r mo2 have fin: "r = sil_finish cs cfg fl efmi input ?auto model2 ctx3" by simp
  have "?inv (step model2, app', w', m')" if "keeps_parameters step" for step
    by (rule sil_inv_between [OF inv2 that il_done])
  then have "?inv (model', app', w', m')" if "r = Sil_next model' ctx' pubs shm" for model' ctx' pubs shm
    using sil_finish_model [OF that [unfolded fin]] inv2 sil_step_keeps efmi by (metis resets_def)
  moreover have "r \<noteq> Sil_again ctx'" for ctx'
    by (auto simp: fin sil_finish_def Let_def split: if_splits option.splits prod.splits)
  ultimately show ?thesis by blast
next
  case False
  from sil_pass_unread [OF pass] False sil_inv_stay [OF inv] show ?thesis by auto
qed

lemma sil_inv_run:
  assumes "sil_run cs cfg fl efmi inputs (sil_takeoff syn queries efmi memory blank) s"
    and "resets efmi" and "runtime_control cfg"
  shows "case s of (model, app, ctx, w, m) \<Rightarrow>
    sil_inv (sent syn queries) (leaf (sil_reinit efmi memory)) (model, app, w, m)"
  using assms(1)
proof (induction rule: sil_run.induct)
  case sil_run_start
  show ?case
    using flight_inv_takeoff [of "sil_reinit efmi memory" syn queries] assms(2) resets_values [OF assms(2)]
    by (simp add: sil_takeoff_def takeoff_def sil_inv_def resets_def)
next
  case (sil_run_next model app ctx w m n input model1 ctx1 pubs shm app1 w1 m1 k w2 m2)
  from sil_run_next.IH have "sil_inv (sent syn queries) (leaf (sil_reinit efmi memory)) (model, app, w, m)" by simp
  from sil_inv_pass [OF this assms(2,3) sil_run_next.hyps(3,4)]
  have "sil_inv (sent syn queries) (leaf (sil_reinit efmi memory)) (model1, app1, w1, m1)" by blast
  from sil_inv_stay [OF this sil_run_next.hyps(5)] show ?case by simp
next
  case (sil_run_again model app ctx w m n input ctx1 app1 w1 m1 k w2 m2)
  from sil_run_again.IH have "sil_inv (sent syn queries) (leaf (sil_reinit efmi memory)) (model, app, w, m)" by simp
  from sil_inv_pass [OF this assms(2,3) sil_run_again.hyps(3,4)]
  have "sil_inv (sent syn queries) (leaf (sil_reinit efmi memory)) (model, app1, w1, m1)" by blast
  from sil_inv_stay [OF this sil_run_again.hyps(5)] show ?case by simp
qed

text \<open>
  C6 In any run of the program in the loop, with any inputs, any engagements of the
  autopilot and any queries interleaved with its passes, every parameter and waypoint of
  the controller is finite and every copy of the active leg is on the route.
\<close>

theorem sil_flight_safe:
  assumes "sil_run cs cfg fl efmi inputs (sil_takeoff syn queries efmi memory blank) (model, app, ctx, w, m)"
    and "resets efmi" and "runtime_control cfg"
  shows "sane model"
  using sil_inv_run [OF assms] by (simp add: sil_inv_def flight_inv_def)

text \<open>
  C5 An engagement of the autopilot, which initialises the controller again, loses nothing:
  in any run the controller has in both copies every value and the mission that were ever
  applied to it last, and \<open>param_get\<close> reads the values the controller uses.
\<close>

theorem sil_engagement_keeps_tuning:
  assumes "sil_run cs cfg fl efmi inputs (sil_takeoff syn queries efmi memory blank) (model, app, ctx, w, m)"
    and "resets efmi" and "runtime_control cfg" and "i < length value_table"
  shows "carries app model \<and>
    run (atomic_double_try_load (Live_value i)) m = (Some (leaf model (live_member (value_table ! i))), m)"
  using sil_inv_run [OF assms(1-3)] assms(4)
  by (auto simp: sil_inv_def flight_inv_def cycle_ok_def live_ok_def simp del: length_values intro!: try_load_holds)

end
