(* ===== verification/Message_Types.thy ===== *)
theory Message_Types
  imports Realtime_Telemetry
begin

text \<open>
  What the messages of a pass are, as types: the ranges and flags of the fields of each
  message, and the topics of the messages of one pass in their order. The facts: what the
  telemetry of \<open>src/main_realtime.c\<close> publishes has these types.
\<close>

section \<open>Types\<close>

definition flags_within :: "'a::len word \<Rightarrow> 'a word \<Rightarrow> bool" where
  "flags_within flags allowed \<longleftrightarrow> flags AND NOT allowed = 0"

text \<open>
  The types, of what a controller's state is published as. The thrust and the angles of the
  commands are bounded by a clamp: they are within the bounds whenever the command that is
  clamped is a number, which depends on the generated controller. All else holds for any state.
\<close>

fun publication_ok :: "flag_values \<Rightarrow> bool \<Rightarrow> 'z outer_loop_scheme \<Rightarrow> 'p publication \<Rightarrow> bool" where
  "publication_ok fl auto_mode model (Pub_pwm_signal_outputs _) = True"
| "publication_ok fl auto_mode model (Pub_vehicle_health h) =
     (flight_mode h \<le> 1 \<and> link_quality_pct h \<le> 100 \<and>
      flags_within (health_flags h) (health_armed fl OR health_failsafe fl))"
| "publication_ok fl auto_mode model (Pub_attitude_estimate e) =
     flags_within (estimate_flags e) (estimate_attitude_valid fl OR estimate_rates_valid fl)"
| "publication_ok fl auto_mode model (Pub_attitude_command c) = 
     (nan64 (throttle model) \<or> f32_le 0 (thrust c) \<and> f32_le (thrust c) 0x3F800000)"
| "publication_ok fl auto_mode model (Pub_control_loop_metrics t) = (period_us t = 20000)"
| "publication_ok fl auto_mode model (Pub_mission_progress p) = (current_seq p < total p \<and> total p \<le> 6)"
| "publication_ok fl auto_mode model (Pub_local_position_command c) = (coordinate_frame c = LocalEnu)"
| "publication_ok fl auto_mode model (Pub_trajectory_segment s) =
     (traj_segment_seq s < 6 \<and> list_all (\<lambda>p. p = traj_p0 s) [traj_p1 s, traj_p2 s, traj_p3 s] \<and>
      traj_type s = Bezier \<and> traj_degree s = Cubic \<and> traj_frame s = LocalEnu \<and>
      flags_within (traj_flags s) (segment_flag_start fl OR segment_flag_final fl))"
| "publication_ok fl auto_mode model (Pub_navigation_target t) =
     (\<bar>sint (target_yaw_cdeg t)\<bar> \<le> 18000 \<and>
      list_all2 (\<lambda>command f. nan64 command \<or> \<bar>sint (f t)\<bar> \<le> 18000)
        (angle_commands auto_mode model) [desired_roll_cdeg, desired_pitch_cdeg, desired_yaw_cdeg])"

definition pass_topics :: "string list" where
  "pass_topics =
     [''pwm_signal_outputs'', ''vehicle_health'', ''attitude_estimate'', ''attitude_command'',
      ''control_loop_metrics'', ''navigation_target'', ''mission_progress'', ''local_position_command'']"

text \<open>Every message has its type, and each topic is published once, in this order.\<close>

definition messages_ok :: "flag_values \<Rightarrow> bool \<Rightarrow> 'z outer_loop_scheme \<Rightarrow> 'p publication list \<Rightarrow> bool" where
  "messages_ok fl auto_mode model pubs \<longleftrightarrow> list_all (publication_ok fl auto_mode model) pubs \<and>
     (map publication_topic pubs = pass_topics \<or>
      map publication_topic pubs = pass_topics @ [''trajectory_segment''])"

section \<open>Flags and ranges\<close>

lemma flags_within_intros [simp]:
  "flags_within 0 m" "flags_within a (a OR b)" "flags_within b (a OR b)" "flags_within (a OR b) (a OR b)"
  by (auto simp: flags_within_def bit_eq_iff bit_simps)

lemma health_ok: "publication_ok fl auto_mode' model (Pub_vehicle_health (vehicle_health_of fl manual now_us auto_mode failsafe))"
  by (simp add: vehicle_health_of_def Let_def)

lemma estimate_flags_within:
  "flags_within (attitude_estimate_flags cfg fl uptime_ms model ctx)
     (estimate_attitude_valid fl OR estimate_rates_valid fl)"
  by (simp add: attitude_estimate_flags_def Let_def)

lemma command_ok:
  assumes "clamps cs"
  shows "publication_ok fl auto_mode model (Pub_attitude_command (attitude_command_of cs model now_us))"
proof (cases "nan64 (throttle model)")
  case False
  have "f32_unpack 0x3F800000 = Fin False 8388608 (- 23)"
    by (simp add: f32_unpack_def fp_unpack_def fp_emin_def)
  then have "f32_le 0 0x3F800000" by (simp add: f32_le_def unpack_limits signed_at_def)
  moreover have "\<not> nan32 (f32_of_f64 (throttle model))" using False by (rule f32_of_f64_number)
  ultimately show ?thesis using assms by (auto simp: attitude_command_of_def dest: clampedD)
qed simp

section \<open>The mission\<close>

lemma segment_flags_within: "flags_within (if final then (if start then a else 0) OR b else if start then a else 0) (a OR b)"
  by simp

lemma broadcast_item_typed:
  assumes "broadcast_item fl model now_us ctx = Some (ctx', pubs)" and "unat (mission_total model) \<le> 6"
  shows "list_all (publication_ok fl auto' model') pubs \<and>
    (map publication_topic pubs = [] \<or> map publication_topic pubs = [''trajectory_segment''])"
proof (cases "0 < mission_broadcast_countdown ctx \<or> mission_total model = 0")
  case True
  then show ?thesis using assms(1) by (auto simp: broadcast_item_def Let_def split: if_splits)
next
  case False
  let ?seq = "if mission_total model \<le> mission_broadcast_seq ctx then 0 else mission_broadcast_seq ctx"
  let ?ctx = "ctx\<lparr>mission_broadcast_countdown := CUBS2_MISSION_BROADCAST_PERIOD - 1\<rparr>"
  have seq: "mission_broadcast_seq (if mission_total model \<le> mission_broadcast_seq ?ctx
      then ?ctx\<lparr>mission_broadcast_seq := 0\<rparr> else ?ctx) = ?seq" by simp
  from assms(1) False obtain s where s: "pubs = [Pub_trajectory_segment s]" "traj_segment_seq s = ?seq"
    "list_all (\<lambda>p. p = traj_p0 s) [traj_p1 s, traj_p2 s, traj_p3 s]"
    "traj_type s = Bezier" "traj_degree s = Cubic" "traj_frame s = LocalEnu"
    "traj_flags s = (if unat ?seq + 1 = unat (mission_total model)
      then (if ?seq = 0 then segment_flag_start fl else 0) OR segment_flag_final fl
      else if ?seq = 0 then segment_flag_start fl else 0)"
    unfolding broadcast_item_def Let_def seq by (auto simp: Option.bind_eq_Some_conv simp del: if_split)
  have "?seq < 6"
    using assms(2) by (auto simp: word_le_nat_alt word_less_nat_alt)
  then show ?thesis using s segment_flags_within by simp
qed

lemma update_mission_typed:
  assumes "on_route model" and "update_mission_telemetry fl model now_us auto_mode ctx = Some (ctx', pubs)"
  shows "list_all (publication_ok fl auto' model') pubs \<and>
    (map publication_topic pubs = [''mission_progress'', ''local_position_command''] \<or>
     map publication_topic pubs = [''mission_progress'', ''local_position_command'', ''trajectory_segment''])"
proof -
  obtain c n where cn: "currentWaypoint model = of_nat c" "route_nSegments model = of_nat n"
    "1 \<le> c" "c \<le> n" "n \<le> 6" by (rule on_route_numbers [OF assms(1)])
  note seq = mission_seq_on_route [OF cn]
  have total: "mission_current_seq model < mission_total model" "mission_total model \<le> 6"
    "unat (mission_total model) \<le> 6"
    using seq cn by (simp_all add: word_less_nat_alt word_le_nat_alt)
  from assms(2) obtain target ctx1 items where
    b: "broadcast_item fl model now_us ctx1 = Some (ctx', items)"
    and p: "pubs = [Pub_mission_progress (ctx_mission_progress ctx1),
      Pub_local_position_command (ctx_local_position_command ctx1)] @ items"
    and f: "current_seq (ctx_mission_progress ctx1) = mission_current_seq model"
      "total (ctx_mission_progress ctx1) = mission_total model"
      "coordinate_frame (ctx_local_position_command ctx1) = LocalEnu"
    by (auto simp: update_mission_telemetry_def Let_def Option.bind_eq_Some_conv)
  show ?thesis using broadcast_item_typed [OF b total(3)] total f by (auto simp: p)
qed

section \<open>The whole of a pass\<close>

lemma publish_outputs_typed:
  assumes "publish_outputs cs cfg fl uptimes model auto_mode ctx = Some (ctx', pubs)"
    and "on_route model" "route_numbers model" "pose_finite ctx" "clamps cs" "angles_defined cs"
  shows "messages_ok fl auto_mode model pubs"
proof -
  obtain t failsafe ctx1 ctx2 ctx3 metrics mission where
    nav: "update_navigation_target cs model t auto_mode ctx1 = Some ctx2"
    and mocap: "ctx_mocap ctx1 = ctx_mocap ctx"
    and mis: "update_mission_telemetry fl model t auto_mode ctx2 = Some (ctx3, mission)"
    and pubs: "pubs = [Pub_pwm_signal_outputs (csyn_pwm_outputs_from_rc cs (control_rc ctx) t (pwm_outputs ctx)),
        Pub_vehicle_health (vehicle_health_of fl (ctx_manual ctx) t auto_mode failsafe),
        Pub_attitude_estimate (attitude_estimate_of cs model t
          (attitude_estimate_flags cfg fl (snd uptimes) model
             (ctx\<lparr>pwm_outputs := csyn_pwm_outputs_from_rc cs (control_rc ctx) t (pwm_outputs ctx)\<rparr>))),
        Pub_attitude_command (attitude_command_of cs model t), Pub_control_loop_metrics metrics,
        Pub_navigation_target (ctx_navigation_target ctx2)] @ mission"
    and period: "period_us metrics = 20000"
    using assms(1)
    by (auto simp: publish_outputs_def update_telemetry_def Let_def Option.bind_eq_Some_conv)
  have "pose_finite ctx1" using assms(4) mocap by (simp add: pose_finite_def)
  from navigation_target_angles [OF nav assms(2,3) this assms(5,6)] update_mission_typed [OF assms(2) mis]
    command_ok [OF assms(5), of fl auto_mode model t] health_ok estimate_flags_within period
  show ?thesis by (auto simp: messages_ok_def pubs pass_topics_def attitude_estimate_of_def)
qed

end
