(* ===== verification/Float_Bounds.thy ===== *)
theory Float_Bounds
  imports Float_Facts
begin

text \<open>
  How far a rounded result can go: a value within a power of two is within it after it is
  rounded to a \<open>float\<close>. The fact this is for: when the casts to millesimal units of
  \<open>fixed_wing_map_output\<close> are defined.
\<close>

section \<open>Rounding stays below a power of two\<close>

lemma bitlen_at_most:
  assumes "0 < m" and "of_int m * 2 powi e \<le> (2 powi k :: real)"
  shows "e + bitlen m - 1 \<le> k" and "e + bitlen m - 1 = k \<Longrightarrow> m = 2 ^ nat (bitlen m - 1)"
proof -
  have l: "1 \<le> bitlen m" using assms(1) by (simp add: bitlen_alt_def)
  have lo: "2 ^ nat (bitlen m - 1) \<le> m" using bitlen_bounds [OF assms(1)] by simp
  then have "real_of_int (2 ^ nat (bitlen m - 1)) \<le> of_int m" by (rule of_int_le_iff [THEN iffD2])
  then have "(2 :: real) powi (bitlen m - 1) \<le> of_int m" using l by (simp add: power_int_def)
  then have "(2 :: real) powi (bitlen m - 1) * 2 powi e \<le> of_int m * 2 powi e" by (rule mult_right_mono) simp
  also have "\<dots> \<le> 2 powi k" by (rule assms(2))
  finally have "(2 :: real) powi (e + bitlen m - 1) \<le> 2 powi k"
    by (simp flip: power_int_add add: algebra_simps)
  then show "e + bitlen m - 1 \<le> k"
    using power_int_strict_increasing [of k "e + bitlen m - 1" "2 :: real"] by fastforce
  assume k: "e + bitlen m - 1 = k"
  have "of_int m * (2 :: real) powi e \<le> 2 powi (bitlen m - 1) * 2 powi e"
    using assms(2) by (simp add: algebra_simps flip: k power_int_add)
  then have "of_int m \<le> (2 :: real) powi (bitlen m - 1)" by simp
  also have "\<dots> = of_int (2 ^ nat (bitlen m - 1))" using l by (simp add: power_int_def)
  finally have "m \<le> 2 ^ nat (bitlen m - 1)" by (simp only: of_int_le_iff)
  with lo show "m = 2 ^ nat (bitlen m - 1)" by simp
qed

lemma round_shift_le: "0 \<le> m \<Longrightarrow> m < 2 ^ (n + k) \<Longrightarrow> round_shift m k \<le> 2 ^ n"
proof -
  assume "0 \<le> m" "m < 2 ^ (n + k)"
  have "m div 2 ^ k < 2 ^ n"
  proof (rule ccontr)
    assume "\<not> m div 2 ^ k < 2 ^ n"
    then have "2 ^ n * 2 ^ k \<le> m div 2 ^ k * 2 ^ k" by simp
    also have "\<dots> = m - m mod 2 ^ k" by (rule minus_mod_eq_div_mult [symmetric])
    also have "\<dots> \<le> m" by simp
    finally show False using \<open>m < 2 ^ (n + k)\<close> by (simp add: power_add)
  qed
  then show ?thesis by (simp add: round_shift_def Let_def)
qed

lemma round_shift_power: "round_shift (2 ^ (n + k)) k = 2 ^ n"
  by (simp add: round_shift_def power_add Let_def)

lemma significand_bound:
  assumes "0 < m" and "E = max (- 149) (e + bitlen m - 24)"
  shows "(if E \<le> e then m * 2 ^ nat (e - E) else round_shift m (nat (E - e))) \<le> 2 ^ 24"
proof -
  have l: "1 \<le> bitlen m" and hi: "m < 2 ^ nat (bitlen m)"
    using bitlen_bounds [OF assms(1)] assms(1) by (simp_all add: bitlen_alt_def)
  have E: "e + bitlen m - 24 \<le> E" using assms(2) by simp
  show ?thesis
  proof (cases "E \<le> e")
    case True
    have "m * 2 ^ nat (e - E) \<le> 2 ^ nat (bitlen m) * 2 ^ nat (e - E)" using hi by simp
    also have "\<dots> = 2 ^ (nat (bitlen m) + nat (e - E))" by (simp add: power_add)
    also have "\<dots> \<le> 2 ^ 24" using E True l by (intro power_increasing) auto
    finally show ?thesis using True by simp
  next
    case False
    have "(2 :: int) ^ nat (bitlen m) \<le> 2 ^ (24 + nat (E - e))"
      using E False l by (intro power_increasing) auto
    with hi have "m < 2 ^ (24 + nat (E - e))" by (rule less_le_trans)
    with False assms(1) show ?thesis using round_shift_le [of m 24 "nat (E - e)"] by simp
  qed
qed

lemma fp_round_bound:
  assumes "0 \<le> m" and "of_int m * 2 powi e \<le> (2 powi k :: real)" and "- 100 \<le> k"
  shows "fp_round 23 8 m e \<le> (k + 127) * 2 ^ 23"
proof (cases "m = 0")
  case False
  then have m: "0 < m" using assms(1) by simp
  define E where "E = max (- 149) (e + bitlen m - 24)"
  define q where "q = (if E \<le> e then m * 2 ^ nat (e - E) else round_shift m (nat (E - e)))"
  note top = bitlen_at_most [OF m assms(2)]
  have l: "1 \<le> bitlen m" using m by (simp add: bitlen_alt_def)
  have E: "E \<le> k - 23" using top(1) assms(3) by (simp add: E_def)
  have "(E + 149) * 2 ^ 23 + q \<le> (k + 127) * 2 ^ 23"
  proof (cases "E = k - 23")
    case True
    then have eq: "e + bitlen m - 1 = k" using assms(3) top(1) by (auto simp: E_def max_def split: if_splits)
    note m' = top(2) [OF eq]
    have "q = 2 ^ 23"
    proof (cases "E \<le> e")
      case True
      then have n: "nat (bitlen m - 1) + nat (e - E) = 23" using eq \<open>E = k - 23\<close> l by auto
      have "m * 2 ^ nat (e - E) = 2 ^ (nat (bitlen m - 1) + nat (e - E))"
        by (subst m') (simp add: power_add)
      then show ?thesis using True n by (simp add: q_def)
    next
      case False
      then have n: "nat (bitlen m - 1) = 23 + nat (E - e)" using eq \<open>E = k - 23\<close> l by auto
      have "round_shift m (nat (E - e)) = 2 ^ 23"
        by (subst m') (simp only: n round_shift_power)
      then show ?thesis using False by (simp add: q_def)
    qed
    with True show ?thesis by simp
  next
    case False
    moreover have "q \<le> 2 ^ 24" unfolding q_def by (rule significand_bound [OF m E_def])
    ultimately show ?thesis using E by simp
  qed
  moreover have "fp_round 23 8 m e = min ((E + 149) * 2 ^ 23 + q) (fp_inf_bits 23 8)"
    using False by (simp add: fp_round_def fp_emin_def Let_def q_def flip: E_def)
  ultimately show ?thesis by simp
qed (use assms(3) in \<open>simp add: fp_round_def\<close>)

text \<open>A pattern up to that of a power of two stands for a value up to it.\<close>

lemma fp_unpack_bound:
  assumes "0 \<le> b" "b \<le> (k + 127) * 2 ^ 23" and "- 100 \<le> k" "k \<le> 100"
  shows "\<exists>q E. fp_unpack 23 8 (of_bool s * 2 ^ 31 + b) = Fin s q E \<and> 0 \<le> q \<and> of_int q * 2 powi E \<le> (2 powi k :: real)"
proof -
  let ?b = "of_bool s * 2 ^ 31 + b"
  define c f where "c = b div 2 ^ 23" and "f = b mod 2 ^ 23"
  have b: "b = c * 2 ^ 23 + f" by (simp add: c_def f_def)
  have f: "0 \<le> f" "f < 2 ^ 23" by (simp_all add: f_def)
  have c: "0 \<le> c" "c \<le> k + 127" using assms(1,2) by (simp_all add: c_def)
  have tight: "f = 0" if "c = k + 127" using assms(2) f(1) unfolding b that by simp
  have c8: "c < 2 ^ 8 - 1" using c(2) assms(4) by simp
  define d where "d = of_bool s * 2 ^ 8 + c"
  have b': "?b = d * 2 ^ 23 + f" by (simp add: b d_def)
  have "?b mod 2 ^ 23 = f" unfolding b' using f by simp
  moreover have "?b div 2 ^ 23 = d" unfolding b' using f by simp
  moreover have "d mod 2 ^ 8 = c" unfolding d_def using c c8 by (cases s) simp_all
  moreover have "odd (?b div 2 ^ (23 + 8)) = s"
    using assms(1) c8 b f by (cases s) simp_all
  ultimately have u: "fp_unpack 23 8 ?b =
      (if c = 0 then Fin s f (- 149) else Fin s (2 ^ 23 + f) (c - 150))"
    using c8 by (simp add: fp_unpack_def fp_emin_def Let_def)
  show ?thesis
  proof (cases "c = 0")
    case True
    have "of_int f * (2 :: real) powi (- 149) \<le> 2 powi 23 * 2 powi (- 149)" using f by simp
    also have "\<dots> = 2 powi (23 + - 149)" by (rule power_int_add [symmetric]) simp
    also have "\<dots> = 2 powi (- 126)" by simp
    also have "\<dots> \<le> 2 powi k" using assms(3) by (intro power_int_increasing) simp_all
    finally show ?thesis unfolding u using True f
      by (intro exI [of _ f] exI [of _ "- 149"]) simp
  next
    case False
    have "of_int (2 ^ 23 + f) * (2 :: real) powi (c - 150) \<le> 2 powi k"
    proof (cases "c = k + 127")
      case True
      then have "of_int (2 ^ 23 + f) * (2 :: real) powi (c - 150) = 2 powi 23 * 2 powi (k - 23)"
        using tight by (simp add: power_int_def)
      also have "\<dots> = 2 powi k" by (simp add: power_int_diff)
      finally show ?thesis by simp
    next
      case False
      have "of_int (2 ^ 23 + f) \<le> (2 :: real) powi 24" using f by (simp add: power_int_def)
      then have "of_int (2 ^ 23 + f) * (2 :: real) powi (c - 150) \<le> 2 powi 24 * 2 powi (c - 150)"
        by (rule mult_right_mono) simp
      also have "\<dots> = 2 powi (c - 126)" by (simp add: power_int_diff)
      also have "\<dots> \<le> 2 powi k" using False c by (intro power_int_increasing) simp_all
      finally show ?thesis .
    qed
    then show ?thesis unfolding u using False f
      by (intro exI [of _ "2 ^ 23 + f"] exI [of _ "c - 150"]) simp
  qed
qed

text \<open>So packing keeps a bound that is a power of two.\<close>

definition fp_within :: "int \<Rightarrow> fp \<Rightarrow> bool" where
  "fp_within k x \<longleftrightarrow> fp_finite x \<and> \<bar>fp_real x\<bar> \<le> 2 powi k"

lemma fp_within_Fin: "0 \<le> m \<Longrightarrow> fp_within k (Fin s m e) \<longleftrightarrow> of_int m * 2 powi e \<le> (2 powi k :: real)"
  by (simp add: fp_within_def abs_mult)

lemma f32_pack_within:
  assumes "fp_number x" "fp_within k x" and "- 100 \<le> k" "k \<le> 100"
  shows "fp_within k (f32_unpack (f32_pack x))"
proof -
  from assms(2) obtain s m e where x: "x = Fin s m e"
    by (cases x) (auto simp: fp_within_def)
  have m: "0 \<le> m" "of_int m * 2 powi e \<le> (2 powi k :: real)"
    using assms(1,2) by (simp_all add: x fp_within_Fin)
  let ?b = "fp_round 23 8 m e"
  have b: "0 \<le> ?b" "?b \<le> fp_inf_bits 23 8" using fp_round_range [OF m(1)] by blast+
  have "uint (word_of_int (of_bool s * 2 ^ (23 + 8) + ?b) :: f32) = of_bool s * 2 ^ (23 + 8) + ?b"
    by (rule pack_word [OF b]) simp
  then have "f32_unpack (f32_pack x) = fp_unpack 23 8 (of_bool s * 2 ^ 31 + ?b)"
    by (simp add: f32_unpack_def f32_pack_def fp_pack_def x)
  moreover obtain q E where "fp_unpack 23 8 (of_bool s * 2 ^ 31 + ?b) = Fin s q E" "0 \<le> q"
    "of_int q * 2 powi E \<le> (2 powi k :: real)"
    using fp_unpack_bound [OF b(1) fp_round_bound [OF m assms(3)] assms(3,4), of s] by blast
  ultimately show ?thesis by (simp add: fp_within_Fin del: of_bool_eq fp_real.simps)
qed

section \<open>Millesimal units\<close>

text \<open>The commands that \<open>(int32_t)(1000.0f * (float)x)\<close> is defined for, at least.\<close>

definition fits_milli :: "f64 \<Rightarrow> bool" where
  "fits_milli x \<longleftrightarrow> fp_within 20 (f64_unpack x)"

lemma fits_milli_defined:
  assumes "fits_milli x"
  shows "\<exists>v. i32_of_f32 (f32_mul 0x447A0000 (f32_of_f64 x)) = Some v"
proof -
  have k: "f32_unpack 0x447A0000 = Fin False 16384000 (- 14)"
    by (simp add: f32_unpack_def fp_unpack_def fp_emin_def)
  have num: "\<not> nan64 x" using assms by (auto simp: fits_milli_def fp_within_def nan64_def)
  then have "fp_within 20 (f32_unpack (f32_of_f64 x))"
    using assms unfolding f32_of_f64_def by (intro f32_pack_within) (simp_all add: fits_milli_def number64)
  moreover have "fp_number (f32_unpack (f32_of_f64 x))"
    using num by (simp add: f32_of_f64_number flip: number32)
  ultimately obtain s m e where x: "f32_unpack (f32_of_f64 x) = Fin s m e" "0 \<le> m"
    "of_int m * 2 powi e \<le> (2 powi 20 :: real)"
    by (cases "f32_unpack (f32_of_f64 x)") (auto simp: fp_within_Fin simp: fp_within_def [where x = "Inf _"] fp_within_def [where x = NaN])
  have "of_int (16384000 * m) * (2 :: real) powi (e - 14) = 1000 * (of_int m * 2 powi e)"
    by (simp add: power_int_diff)
  also have "\<dots> \<le> 2 powi 30" using x(3) by (simp add: power_int_def)
  finally have "fp_within 30 (Fin s (16384000 * m) (e - 14))" using x(2) by (simp add: fp_within_Fin)
  then have "fp_within 30 (f32_unpack (f32_mul 0x447A0000 (f32_of_f64 x)))"
    unfolding f32_mul_def using x(1,2) by (intro f32_pack_within) (simp_all add: k)
  then obtain t n f where y: "f32_unpack (f32_mul 0x447A0000 (f32_of_f64 x)) = Fin t n f"
    "\<bar>fp_real (Fin t n f)\<bar> \<le> 2 powi 30"
    by (cases "f32_unpack (f32_mul 0x447A0000 (f32_of_f64 x))") (auto simp: fp_within_def)
  have "of_int (- (2 ^ 30)) \<le> fp_real (Fin t n f)" "fp_real (Fin t n f) \<le> of_int (2 ^ 30)"
    using y(2) by (simp_all add: power_int_def abs_le_iff del: fp_real.simps)
  from fp_trunc_between [OF this] obtain v where
    "fp_trunc (Fin t n f) = Some v" "- (2 ^ 30) \<le> v" "v \<le> 2 ^ 30" .
  then show ?thesis by (simp add: i32_of_f32_def cast_to_def y(1) del: fp_trunc.simps)
qed

end
