(* ===== verification/Realtime_Flight.thy ===== *)
theory Realtime_Flight
  imports Realtime_Main Message_Types Float_Bounds
begin

text \<open>
  Runs of the program of \<open>src/main_realtime.c\<close>: any number of passes, in the aircraft's build and
  in the build for the emulated board, among the steps of the transport thread. The facts:
  in every run the controller is fit to fly, a pass does nothing that is undefined in C unless
  it casts a command of the controller that is out of range, and a pass ends within a bound of
  its own steps.
\<close>

section \<open>A flight of the program\<close>

text \<open>
  The state between two passes: the controller, what was applied to it, the context, and the
  rest of the transport thread's program with the shared memory.
\<close>

type_synonym ('z, 'p) realtime_state =
  "'z outer_loop_scheme \<times> applied \<times> 'p control_context \<times> (shared, unit) prog \<times> shared"

inductive realtime_run ::
  "'p csyn \<Rightarrow> config \<Rightarrow> flag_values \<Rightarrow> 'z efmi \<Rightarrow> 'p cycle_input set \<Rightarrow> ('z, 'p) realtime_state \<Rightarrow>
   ('z, 'p) realtime_state \<Rightarrow> bool"
  for cs cfg fl efmi inputs s0 where
  run_start: "realtime_run cs cfg fl efmi inputs s0 s0"
| run_pass: "realtime_run cs cfg fl efmi inputs s0 (model, app, ctx, w, m) \<Longrightarrow> input \<in> inputs \<Longrightarrow>
    interleaved n (realtime_pass cs cfg fl efmi input model app ctx) w m
      (Next model1 ctx1 pubs shm, app1) w1 m1 \<Longrightarrow>
    n < 2 ^ 32 \<Longrightarrow> interleaved k (Ret ()) w1 m1 () w2 m2 \<Longrightarrow>
    realtime_run cs cfg fl efmi inputs s0 (model1, app1, ctx1, w2, m2)"

definition realtime_takeoff ::
  "('r, 'v, 'g, 't, 's, 'b) synapse \<Rightarrow> query list \<Rightarrow> 'z outer_loop_scheme \<Rightarrow> 'p control_context \<Rightarrow>
   ('z, 'p) realtime_state" where
  "realtime_takeoff syn queries model blank =
     (model, zero_applied, zero_control_context blank, serve syn queries, init_shared model)"

text \<open>
  The aircraft's build tests every pose; the build for the emulated board takes the
  simulator's sample as it is, so there its numbers have to be finite.
\<close>

definition finite_sample :: "config \<Rightarrow> 'p cycle_input \<Rightarrow> bool" where
  "finite_sample cfg input \<longleftrightarrow> (fastdyn cfg \<longrightarrow> odometry_finite (shm_odometry (in_shm input)))"

section \<open>The casts of a pass\<close>

text \<open>
  The commands that \<open>fixed_wing_map_output\<close> casts to the channels: the stabilizer, clamped to
  1000 to 2000, has to be a number, and the speed, the roll command and the course error, which
  the source multiplies by 1000 and casts unclamped, have to be at most \<open>2 ^ 20\<close>. Nothing in the
  source bounds them: they are computed by the generated controller from the parameters, and
  \<open>param_set\<close> accepts every finite number.
\<close>

definition channels_fit :: "'z outer_loop_scheme \<Rightarrow> bool" where
  "channels_fit model \<longleftrightarrow> \<not> nan64 (stabilizer model) \<and>
     list_all (\<lambda>f. fits_milli (f model)) [desiredSpeed, rollCommand, courseError]"

text \<open>All that a pass in a mode casts: the channels only in automatic mode with a valid pose.\<close>

definition commands_fit :: "bool \<Rightarrow> bool \<Rightarrow> 'z outer_loop_scheme \<Rightarrow> bool" where
  "commands_fit auto_mode pose_valid model \<longleftrightarrow>
     (auto_mode \<and> pose_valid \<longrightarrow> channels_fit model) \<and>
     list_all (\<lambda>x. \<not> nan64 x) (angle_commands auto_mode model)"

lemma channel_limits:
  "f32_unpack 0x447A0000 = Fin False 16384000 (- 14)" "f32_unpack 0x44FA0000 = Fin False 16384000 (- 13)"
  by (simp_all add: f32_unpack_def fp_unpack_def fp_emin_def)

lemma map_output_defined:
  assumes "channels_fit model" "clamps cs"
  shows "\<exists>rc. map_output cs negate model = Some rc \<and> 1000 \<le> sint (rc 4) \<and> sint (rc 4) \<le> 2000"
proof -
  let ?x = "csyn_clampf cs (f32_of_f64 (stabilizer model)) 0x447A0000 0x44FA0000"
  have "\<not> nan32 (f32_of_f64 (stabilizer model))"
    using assms(1) by (simp add: channels_fit_def f32_of_f64_number)
  moreover have "f32_le 0x447A0000 0x44FA0000" by (simp add: f32_le_def channel_limits signed_at_def)
  ultimately have le: "f32_le 0x447A0000 ?x" "f32_le ?x 0x44FA0000" using assms(2) by (auto dest: clampedD)
  obtain v where v: "cast_to (- (2 ^ 31)) (2 ^ 31 - 1) (f32_unpack ?x) = Some v" "1000 \<le> v" "v \<le> 2000"
    by (rule cast_between [OF le channel_limits, where tlo = "- (2 ^ 31)" and thi = "2 ^ 31 - 1"
          and lo = 1000 and hi = 2000])
      (simp_all add: power_int_def power_divide)
  then have "sint (word_of_int v :: i32) = v" by (simp add: signed_of_int signed_take_bit_int_eq_self)
  moreover obtain c6 c7 c8 where
    "milli (desiredSpeed model) = Some c6" "milli (rollCommand model) = Some c7" "milli (courseError model) = Some c8"
    using assms(1) fits_milli_defined [of "desiredSpeed model"] fits_milli_defined [of "rollCommand model"]
      fits_milli_defined [of "courseError model"]
    by (auto simp: milli_def channels_fit_def)
  ultimately show ?thesis using v by (simp add: map_output_def i32_of_f32_def Let_def)
qed

section \<open>The flight is safe and its telemetry always defined\<close>

definition realtime_steps ::
  "'p csyn \<Rightarrow> 'z efmi \<Rightarrow> ('z outer_loop_scheme \<Rightarrow> 'z outer_loop_scheme) set" where
  "realtime_steps cs efmi = insert id {step_model cs efmi auto_mode mocap | auto_mode mocap. True}"

lemma on_route_input [simp]:
  "on_route ((fixed_wing_map_input cs mocap model)\<lparr>engaged := e\<rparr>) = on_route model"
  by (simp add: fixed_wing_map_input_def on_route_def Let_def split: prod.split)

lemma realtime_steps_keep:
  "keeps_parameters (efmi_step efmi) \<Longrightarrow> \<forall>step \<in> realtime_steps cs efmi. keeps_parameters step"
  by (auto simp: realtime_steps_def keeps_parameters_def step_model_def)
     (simp_all add: fixed_wing_map_input_def Let_def split: prod.split)

lemma step_controller_in:
  "fst (step_controller cs efmi step_control auto_mode (model, ctx)) \<in>
     (\<lambda>step. step model) ` realtime_steps cs efmi"
  by (auto simp: step_controller_def realtime_steps_def)

lemma read_inputs_pose:
  assumes "read_inputs cfg fl input ctx = Some (step_control, ctx')" and "finite_sample cfg input"
    and "pose_finite ctx"
  shows "pose_finite ctx'"
proof -
  have manual: "ctx_mocap (snd (read_manual_if_updated cfg i c)) = ctx_mocap c" for i and c :: "'a control_context"
    by (simp add: read_manual_if_updated_def Let_def split: prod.split)
  show ?thesis
  proof (cases "fastdyn cfg")
    case False
    have "pose_finite (snd (read_mocap_if_updated cfg (in_pose input) ctx))"
      using assms(3)
      by (auto simp: read_mocap_if_updated_def Let_def pose_finite_def pose_values_def fold_finite)
    with manual assms(1) False show ?thesis by (auto simp: read_inputs_def pose_finite_def)
  next
    case True
    with assms(2) have "odometry_finite (shm_odometry (in_shm input))" by (simp add: finite_sample_def)
    then have "pose_finite (snd (fastdyn_control_step_due (read_fastdyn_odometry fl
        (ctx\<lparr>ctx_odometry := shm_odometry (in_shm input)\<rparr>))))"
      by (simp add: fastdyn_control_step_due_def read_fastdyn_odometry_def pose_finite_def pose_values_def
          odometry_finite_def odometry_numbers_def Let_def)
    with manual assms(1) True show ?thesis
      by (auto simp: read_inputs_def pose_finite_def cubs2_lockstep_receive_def split: if_splits prod.splits)
  qed
qed

text \<open>
  The part of a pass that decides the controller's next state: the inputs, the mode, and the
  step of the controller that \<open>apply\<close> has left.
\<close>

definition pass_step ::
  "'p csyn \<Rightarrow> config \<Rightarrow> flag_values \<Rightarrow> 'z efmi \<Rightarrow> 'p cycle_input \<Rightarrow>
   'z outer_loop_scheme \<Rightarrow> 'p control_context \<Rightarrow> ('z outer_loop_scheme \<times> 'p control_context) option" where
  "pass_step cs cfg fl efmi input model ctx = do {
     (step_control, ctx) \<leftarrow> read_inputs cfg fl input ctx;
     let (auto_mode, ctx) = select_mode cfg ctx;
     Some (step_controller cs efmi step_control auto_mode (model, ctx))
   }"

lemma pass_split:
  assumes "interleaved n (realtime_pass cs cfg fl efmi input model app ctx) w m (r, app1) w1 m1"
  shows "fastdyn cfg \<and> r = Stop (Exit_errno EIO) \<or>
    (\<exists>before. interleaved n (runtime_control_apply cfg model app) w m (before, app1) w1 m1 \<and>
       r = (case before of None \<Rightarrow> Undefined | Some model \<Rightarrow> pass_body cs cfg fl efmi input model ctx))"
proof (cases "read_inputs cfg fl input ctx")
  case None
  then have "fastdyn cfg" by (cases "fastdyn cfg") (simp_all add: read_inputs_def)
  moreover have "interleaved n (Ret (Stop (Exit_errno EIO), app)) w m (r, app1) w1 m1"
    using assms None by (simp add: realtime_pass_def)
  from interleaved_Ret [OF this, of "()"] have "r = Stop (Exit_errno EIO)" by simp
  ultimately show ?thesis by simp
next
  case (Some x)
  let ?f = "\<lambda>(before, app'). (case before of None \<Rightarrow> Undefined
      | Some model \<Rightarrow> pass_body cs cfg fl efmi input model ctx, app')"
  obtain step_control ctx1 where x: "x = (step_control, ctx1)" by (cases x)
  have "realtime_pass cs cfg fl efmi input model app ctx =
      pbind (runtime_control_apply cfg model app) (\<lambda>x. Ret (?f x))"
    by (auto simp: realtime_pass_def pass_body_def Some x Let_def split: prod.split option.split
        intro!: arg_cong [where f = "pbind _"])
  with interleaved_bind_Ret [of n "runtime_control_apply cfg model app" ?f w m "(r, app1)" w1 m1] assms
  obtain y where y: "(r, app1) = ?f y" "interleaved n (runtime_control_apply cfg model app) w m y w1 m1"
    by auto
  then show ?thesis by (cases y) auto
qed

text \<open>How the body of a pass ends, from the controller and the context after the step.\<close>

lemma body_after_step:
  assumes "pass_step cs cfg fl efmi input before ctx = Some (stepped, ctx2)"
  obtains step_control ctx1 where
    "pass_body cs cfg fl efmi input before ctx =
      (case control_and_publish cs cfg fl efmi input step_control (previous_auto_mode ctx2) (before, ctx1) of
         None \<Rightarrow> Undefined | Some r \<Rightarrow> send_outputs cfg input r)"
    "step_controller cs efmi step_control (previous_auto_mode ctx2) (before, ctx1) = (stepped, ctx2)"
    "previous_auto_mode ctx2 = auto_mode_selected cfg (ctx_manual ctx1)"
    "previous_auto_mode ctx1 = previous_auto_mode ctx2" "ctx_mocap ctx1 = ctx_mocap ctx2"
    "\<exists>ctx0. read_inputs cfg fl input ctx = Some (step_control, ctx0) \<and> ctx_mocap ctx1 = ctx_mocap ctx0"
proof -
  from assms obtain step_control ctx0 where r: "read_inputs cfg fl input ctx = Some (step_control, ctx0)"
    by (auto simp: pass_step_def Option.bind_eq_Some_conv)
  obtain auto_mode ctx1 where s: "select_mode cfg ctx0 = (auto_mode, ctx1)" by (cases "select_mode cfg ctx0")
  have c: "step_controller cs efmi step_control auto_mode (before, ctx1) = (stepped, ctx2)"
    using assms by (simp add: pass_step_def r s)
  have "previous_auto_mode ctx1 = auto_mode" "auto_mode = auto_mode_selected cfg (ctx_manual ctx1)"
    "ctx_mocap ctx1 = ctx_mocap ctx0"
    using s by (auto simp: select_mode_def Let_def)
  moreover have "previous_auto_mode ctx2 = previous_auto_mode ctx1" "ctx_mocap ctx2 = ctx_mocap ctx1"
    using c by (auto simp: step_controller_def split: if_splits)
  ultimately show thesis
    using r s c by (intro that [of step_control ctx1]) (simp_all add: pass_body_def)
qed

lemma pass_body_read:
  "pass_body cs cfg fl efmi input before ctx = Stop (Exit_errno EIO) \<and> fastdyn cfg \<or>
   (\<exists>stepped ctx2. pass_step cs cfg fl efmi input before ctx = Some (stepped, ctx2))"
proof (cases "read_inputs cfg fl input ctx")
  case None
  then have "fastdyn cfg" by (cases "fastdyn cfg") (simp_all add: read_inputs_def)
  with None show ?thesis by (simp add: pass_body_def)
next
  case (Some x)
  then show ?thesis
    by (cases x; cases "select_mode cfg (snd x)") (simp add: pass_step_def)
qed

text \<open>A step keeps a controller sane and leaves a finite pose.\<close>

lemma pass_step_keeps:
  assumes "pass_step cs cfg fl efmi input before ctx = Some (stepped, ctx2)"
    and "keeps_parameters (efmi_step efmi)" and "sane before" and "pose_finite ctx" and "finite_sample cfg input"
  shows "sane stepped" and "pose_finite ctx2"
    and "\<exists>step. keeps_parameters step \<and> stepped = step before"
proof -
  from body_after_step [OF assms(1)] obtain step_control ctx1 where
    c: "step_controller cs efmi step_control (previous_auto_mode ctx2) (before, ctx1) = (stepped, ctx2)"
    and p: "ctx_mocap ctx1 = ctx_mocap ctx2"
    and r: "\<exists>ctx0. read_inputs cfg fl input ctx = Some (step_control, ctx0) \<and> ctx_mocap ctx1 = ctx_mocap ctx0"
    by metis
  from step_controller_in [of cs efmi step_control "previous_auto_mode ctx2" before ctx1]
    realtime_steps_keep [OF assms(2), of cs]
  show step: "\<exists>step. keeps_parameters step \<and> stepped = step before" by (auto simp: c)
  then show "sane stepped" using sane_step assms(3) by blast
  from r obtain ctx0 where r0: "read_inputs cfg fl input ctx = Some (step_control, ctx0)"
    "ctx_mocap ctx1 = ctx_mocap ctx0" by blast
  from read_inputs_pose [OF r0(1) assms(5,4)] show "pose_finite ctx2"
    by (simp add: pose_finite_def flip: p r0(2))
qed

lemma route_numbers_of: "route_finite model \<Longrightarrow> r < 7 \<Longrightarrow> c < 3 \<Longrightarrow> \<not> nan64 (route_waypoints model r c)"
  by (rule finite_not_nan) (simp add: route_finite_def list_all_iff)

lemma sane_route: "sane model \<Longrightarrow> on_route model \<and> route_numbers model"
  using route_numbers_of [of model] by (simp add: sane_def route_numbers_def list_all_iff)

text \<open>If the commands fit, the rest of the pass is defined.\<close>

lemma body_defined:
  assumes "pass_step cs cfg fl efmi input before ctx = Some (stepped, ctx2)"
    and "sane stepped" and "pose_finite ctx2" and ready: "clamps cs" "angles_defined cs"
    and fit: "commands_fit (previous_auto_mode ctx2) (mocap_valid (ctx_mocap ctx2)) stepped"
  shows "(\<exists>model1 ctx1 pubs shm. pass_body cs cfg fl efmi input before ctx = Next model1 ctx1 pubs shm) \<or>
    fastdyn cfg \<and> pass_body cs cfg fl efmi input before ctx = Stop (Exit_errno EIO)"
proof -
  let ?auto = "previous_auto_mode ctx2"
  from body_after_step [OF assms(1)] obtain step_control ctx1 where
    b: "pass_body cs cfg fl efmi input before ctx =
      (case control_and_publish cs cfg fl efmi input step_control ?auto (before, ctx1) of
         None \<Rightarrow> Undefined | Some r \<Rightarrow> send_outputs cfg input r)"
    and c: "step_controller cs efmi step_control ?auto (before, ctx1) = (stepped, ctx2)" by metis
  have "\<exists>rc. select_output cs cfg ?auto stepped ctx2 = Some rc"
    using fit map_output_defined [OF _ ready(1), of stepped "fastdyn cfg"]
    by (auto simp: select_output_def fixed_wing_map_output_def commands_fit_def)
  then obtain rc where rc: "select_output cs cfg ?auto stepped ctx2 = Some rc" by blast
  let ?ctx = "ctx2\<lparr>control_rc := rc,
    main_loop_us := in_cycles_to_us input (in_end_cycles input - in_start_cycles input)\<rparr>"
  have "pose_finite ?ctx" using assms(3) by (simp add: pose_finite_def)
  from publish_outputs_defined [OF conjunct1 [OF sane_route [OF assms(2)]] conjunct2 [OF sane_route [OF assms(2)]]
      this ready, of ?auto cfg fl "in_uptimes input"] fit
  obtain ctx3 pubs where "publish_outputs cs cfg fl (in_uptimes input) stepped ?auto ?ctx = Some (ctx3, pubs)"
    by (auto simp: commands_fit_def)
  then show ?thesis
    by (simp add: b control_and_publish_def c rc send_outputs_def cubs2_lockstep_send_def)
qed

text \<open>What a body that goes on leaves and has published.\<close>

lemma body_next:
  assumes "pass_step cs cfg fl efmi input before ctx = Some (stepped, ctx2)"
    and "pass_body cs cfg fl efmi input before ctx = Next model1 ctx1 pubs shm"
  shows "model1 = stepped \<and> core_of (ctx1\<lparr>control_rc := control_rc ctx2, main_loop_us := main_loop_us ctx2\<rparr>) = core_of ctx2"
    and "sane stepped \<Longrightarrow> pose_finite ctx2 \<Longrightarrow> clamps cs \<Longrightarrow> angles_defined cs \<Longrightarrow>
      messages_ok fl (previous_auto_mode ctx2) stepped pubs"
proof -
  let ?auto = "previous_auto_mode ctx2"
  from body_after_step [OF assms(1)] obtain step_control ctx0 where
    b: "pass_body cs cfg fl efmi input before ctx =
      (case control_and_publish cs cfg fl efmi input step_control ?auto (before, ctx0) of
         None \<Rightarrow> Undefined | Some r \<Rightarrow> send_outputs cfg input r)"
    and c: "step_controller cs efmi step_control ?auto (before, ctx0) = (stepped, ctx2)" by metis
  from assms(2) obtain model3 ctx3 pubs3 where
    cp: "control_and_publish cs cfg fl efmi input step_control ?auto (before, ctx0) = Some (model3, ctx3, pubs3)"
    and sent: "send_outputs cfg input (model3, ctx3, pubs3) = Next model1 ctx1 pubs shm"
    unfolding b by (cases "control_and_publish cs cfg fl efmi input step_control ?auto (before, ctx0)") auto
  from sent have e: "model3 = model1" "ctx3 = ctx1" "pubs3 = pubs"
    by (auto simp: send_outputs_def cubs2_lockstep_send_def Let_def split: if_splits)
  from cp obtain rc where
    p: "publish_outputs cs cfg fl (in_uptimes input) stepped ?auto (ctx2\<lparr>control_rc := rc,
      main_loop_us := in_cycles_to_us input (in_end_cycles input - in_start_cycles input)\<rparr>) = Some (ctx1, pubs)"
    and m: "model1 = stepped"
    by (auto simp: control_and_publish_def c e Let_def Option.bind_eq_Some_conv)
  from publish_outputs_result [OF p] m
  show "model1 = stepped \<and> core_of (ctx1\<lparr>control_rc := control_rc ctx2, main_loop_us := main_loop_us ctx2\<rparr>) = core_of ctx2"
    by (simp add: core_of_def)
  show "messages_ok fl ?auto stepped pubs"
    if "sane stepped" "pose_finite ctx2" "clamps cs" "angles_defined cs"
    using publish_outputs_typed [OF p] sane_route [OF that(1)] that(2-4) by (simp add: pose_finite_def)
qed

text \<open>What a pass starts from, wherever it is in a run.\<close>

definition realtime_inv :: "mission set \<Rightarrow> ('z, 'p) realtime_state \<Rightarrow> bool" where
  "realtime_inv S = (\<lambda>(model, app, ctx, w, m). flight_inv S (model, app, w, m) \<and> pose_finite ctx)"

text \<open>A pass of a run: its exit, or the controller that \<open>apply\<close> left, which is sane.\<close>

lemma realtime_inv_split:
  assumes inv: "realtime_inv (sent syn queries) (model, app, ctx, w, m)" and cfg: "runtime_control cfg"
    and pass: "interleaved n (realtime_pass cs cfg fl efmi input model app ctx) w m (r, app1) w1 m1"
    and n: "n < 2 ^ 32"
  shows "fastdyn cfg \<and> r = Stop (Exit_errno EIO) \<or>
    (\<exists>before stepped ctx2. interleaved n (cubs2_runtime_control_apply (Some model) app) w m (Some before, app1) w1 m1 \<and>
       flight_inv (sent syn queries) (before, app1, w1, m1) \<and>
       pass_step cs cfg fl efmi input before ctx = Some (stepped, ctx2) \<and>
       r = pass_body cs cfg fl efmi input before ctx)"
proof -
  have i: "flight_inv (sent syn queries) (model, app, w, m)" using inv by (simp add: realtime_inv_def)
  from pass_split [OF pass] consider "fastdyn cfg" "r = Stop (Exit_errno EIO)"
    | mo where "interleaved n (cubs2_runtime_control_apply (Some model) app) w m (mo, app1) w1 m1"
        "r = (case mo of None \<Rightarrow> Undefined | Some model \<Rightarrow> pass_body cs cfg fl efmi input model ctx)"
    using cfg by (auto simp: runtime_control_apply_def)
  then show ?thesis
  proof cases
    case 2
    from interleaved_always [OF 2(1) apply_keeps [where J = "\<lambda>_. True"]] obtain before where mo: "mo = Some before"
      by auto
    from flight_inv_cycle [OF i sent_ok] 2(1) n have f: "flight_inv (sent syn queries) (before, app1, w1, m1)"
      by (simp add: mo)
    with 2 pass_body_read [of cs cfg fl efmi input before ctx] show ?thesis unfolding mo by auto
  qed simp
qed

lemma realtime_inv_pass:
  assumes inv: "realtime_inv (sent syn queries) (model, app, ctx, w, m)"
    and cfg: "runtime_control cfg" and step: "keeps_parameters (efmi_step efmi)"
    and pass: "interleaved n (realtime_pass cs cfg fl efmi input model app ctx) w m (Next model1 ctx1 pubs shm, app1) w1 m1"
    and n: "n < 2 ^ 32" and sample: "finite_sample cfg input"
  shows "interleaved k (Ret ()) w1 m1 () w2 m2 \<Longrightarrow> realtime_inv (sent syn queries) (model1, app1, ctx1, w2, m2)"
    and "clamps cs \<Longrightarrow> angles_defined cs \<Longrightarrow> messages_ok fl (previous_auto_mode ctx1) model1 pubs"
proof -
  from realtime_inv_split [OF inv cfg pass n] obtain before stepped ctx2 where
    f: "flight_inv (sent syn queries) (before, app1, w1, m1)"
    and s: "pass_step cs cfg fl efmi input before ctx = Some (stepped, ctx2)"
    and b: "pass_body cs cfg fl efmi input before ctx = Next model1 ctx1 pubs shm" by auto
  have "sane before" "pose_finite ctx" using f inv by (simp_all add: flight_inv_def realtime_inv_def)
  note keep = pass_step_keeps [OF s step this sample]
  note nxt = body_next [OF s b]
  from nxt(1) have m1: "model1 = stepped" and c1: "ctx_mocap ctx1 = ctx_mocap ctx2"
    "previous_auto_mode ctx1 = previous_auto_mode ctx2" by (simp_all add: core_of_def)
  show "realtime_inv (sent syn queries) (model1, app1, ctx1, w2, m2)" if "interleaved k (Ret ()) w1 m1 () w2 m2"
    using flight_inv_between [OF f _ that] keep(2,3) by (auto simp: realtime_inv_def m1 pose_finite_def c1)
  show "messages_ok fl (previous_auto_mode ctx1) model1 pubs" if "clamps cs" "angles_defined cs"
    using nxt(2) [OF keep(1,2) that] by (simp add: m1 c1)
qed

lemma realtime_run_inv:
  assumes "realtime_run cs cfg fl efmi inputs (realtime_takeoff syn queries model0 blank) s"
    and "runtime_control cfg" and "keeps_parameters (efmi_step efmi)" and "sane model0"
    and "\<forall>input \<in> inputs. finite_sample cfg input"
  shows "realtime_inv (sent syn queries) s"
  using assms(1)
proof (induction rule: realtime_run.induct)
  case run_start
  have "flight_inv (sent syn queries) (takeoff syn queries model0)"
    using assms(4) by (rule flight_inv_takeoff)
  then show ?case
    by (simp add: realtime_takeoff_def realtime_inv_def takeoff_def pose_finite_def zero_control_context_def)
next
  case (run_pass model app ctx w m input n model1 ctx1 pubs shm app1 w1 m1 k w2 m2)
  from assms(5) run_pass.hyps(2) have "finite_sample cfg input" by blast
  from realtime_inv_pass(1) [OF run_pass.IH assms(2,3) run_pass.hyps(3,4) this run_pass.hyps(5)]
  show ?case .
qed

lemma realtime_pass_ends:
  assumes inv: "realtime_inv (sent syn queries) (model, app, ctx, w, m)"
    and cfg: "runtime_control cfg" and step: "keeps_parameters (efmi_step efmi)"
    and ready: "clamps cs" "angles_defined cs"
    and pass: "interleaved n (realtime_pass cs cfg fl efmi input model app ctx) w m (r, app1) w1 m1"
    and n: "n < 2 ^ 32" and sample: "finite_sample cfg input"
  shows "(\<exists>model1 ctx1 pubs shm. r = Next model1 ctx1 pubs shm) \<or>
    fastdyn cfg \<and> r = Stop (Exit_errno EIO) \<or>
    r = Undefined \<and> (\<exists>before stepped ctx2.
      interleaved n (cubs2_runtime_control_apply (Some model) app) w m (Some before, app1) w1 m1 \<and>
      pass_step cs cfg fl efmi input before ctx = Some (stepped, ctx2) \<and>
      \<not> commands_fit (previous_auto_mode ctx2) (mocap_valid (ctx_mocap ctx2)) stepped)"
proof -
  from realtime_inv_split [OF inv cfg pass n] consider "fastdyn cfg \<and> r = Stop (Exit_errno EIO)"
    | before stepped ctx2 where
        "interleaved n (cubs2_runtime_control_apply (Some model) app) w m (Some before, app1) w1 m1"
        "flight_inv (sent syn queries) (before, app1, w1, m1)"
        "pass_step cs cfg fl efmi input before ctx = Some (stepped, ctx2)"
        "r = pass_body cs cfg fl efmi input before ctx" by blast
  then show ?thesis
  proof cases
    case 2
    have "sane before" "pose_finite ctx" using 2(2) inv by (simp_all add: flight_inv_def realtime_inv_def)
    note keep = pass_step_keeps [OF 2(3) step this sample]
    show ?thesis
    proof (cases "commands_fit (previous_auto_mode ctx2) (mocap_valid (ctx_mocap ctx2)) stepped")
      case True
      from body_defined [OF 2(3) keep(1,2) ready True] show ?thesis unfolding 2(4) by blast
    next
      case False
      have "r = Undefined \<or> (\<exists>model1 ctx1 pubs shm. r = Next model1 ctx1 pubs shm) \<or>
          fastdyn cfg \<and> r = Stop (Exit_errno EIO)"
        unfolding 2(4)
        by (rule body_after_step [OF 2(3)])
           (auto simp: send_outputs_def cubs2_lockstep_send_def split: option.split)
      with False 2(1,3) show ?thesis by blast
    qed
  qed simp
qed

text \<open>
  C3 The whole program is safe, in the aircraft's build and on the emulated board: from a
  start on a sane controller, over any passes and any queries of the transport thread
  interleaved with them, at every pass all parameters and waypoints are finite, every copy of
  the active leg is on the route, and a pose that is in use is finite. Nothing is assumed of
  the commands the generated controller computes, only that its step keeps parameters, route
  and an active leg on the route. The inputs are arbitrary in the aircraft's build; the
  simulator's samples have finite numbers.
\<close>

theorem realtime_flight_safe:
  assumes "realtime_run cs cfg fl efmi inputs (realtime_takeoff syn queries model0 blank) (model, app, ctx, w, m)"
    and "runtime_control cfg" and "keeps_parameters (efmi_step efmi)" and "sane model0"
    and "\<forall>input \<in> inputs. finite_sample cfg input"
  shows "sane model \<and> pose_finite ctx"
  using realtime_run_inv [OF assms] by (simp add: realtime_inv_def flight_inv_def)


text \<open>
  C14 Every message that a pass of such a flight publishes has its type: the mode, the link
  quality and the flags within their values, a leg of the mission within its length, an item of
  the route, the angle to the waypoint within 18000 centidegrees, and for every command of the
  stepped controller that is a number, the thrust between 0 and 1 and the angle within 18000
  centidegrees. Each topic is published once in a pass and always in the same order, the item
  of the mission last. Nothing is assumed of what the generated controller computes.
\<close>

theorem realtime_messages_typed:
  assumes "realtime_run cs cfg fl efmi inputs (realtime_takeoff syn queries model0 blank) (model, app, ctx, w, m)"
    and "runtime_control cfg" and "keeps_parameters (efmi_step efmi)" and "sane model0"
    and "clamps cs" and "angles_defined cs" and "\<forall>input \<in> inputs. finite_sample cfg input"
    and "interleaved n (realtime_pass cs cfg fl efmi input model app ctx) w m (Next model1 ctx1 pubs shm, app1) w1 m1"
    and "n < 2 ^ 32" and "input \<in> inputs"
  shows "messages_ok fl (previous_auto_mode ctx1) model1 pubs"
  by (rule realtime_inv_pass(2) [OF realtime_run_inv [OF assms(1-4,7)] assms(2,3,8,9) _ assms(5,6)])
     (use assms(7,10) in blast)

text \<open>
  C36 A pass of the loop never waits for the transport thread: it ends after at most 733
  atomic operations of its own, whatever the other thread does before each of them.
\<close>

theorem realtime_pass_returns:
  "\<exists>r m'. drive other 733 (realtime_pass cs cfg fl efmi input model app ctx) m = Some (r, m')"
proof (rule within_returns)
  show "returns_within (realtime_pass cs cfg fl efmi input model app ctx) 733"
    by (auto simp: realtime_pass_def runtime_control_apply_def split: option.split prod.split
        intro!: within_bindI [OF within_apply])
qed

end
