(* ===== verification/Sil_Defined.thy ===== *)
theory Sil_Defined
  imports Sil_Flight Realtime_Flight
begin

text \<open>
  What a pass of the program in the loop does once \<open>apply\<close> has left its controller, as a
  function; when that does nothing that C leaves undefined, and what types its messages have.
  Nothing is relied on but the clamp: unlike the aircraft's program this one publishes no
  navigation target, so its channels are all that it casts.
\<close>

section \<open>The controller of a pass, and its body\<close>

text \<open>The engagement and the cycle of the runtime control, and the context after both.\<close>

definition sil_controller ::
  "config \<Rightarrow> 'z efmi \<Rightarrow> bool \<Rightarrow> 'z outer_loop_scheme \<Rightarrow> applied \<Rightarrow> 'p sil_context \<Rightarrow>
   (shared, 'z outer_loop_scheme option \<times> applied) prog" where
  "sil_controller cfg efmi auto_mode model app ctx =
     pbind (sil_engage cfg efmi auto_mode model app ctx) (\<lambda>(model, _).
     case model of
       None \<Rightarrow> Ret (None, app)
     | Some model \<Rightarrow> runtime_control_apply cfg model app)"

definition engaged_context :: "bool \<Rightarrow> 'p sil_context \<Rightarrow> 'p sil_context" where
  "engaged_context auto_mode ctx =
     (if auto_mode \<and> \<not> sil_previous_auto_mode ctx then
        ctx\<lparr>sil_estimator_control_steps := 0, sil_previous_auto_mode := auto_mode\<rparr>
      else ctx\<lparr>sil_previous_auto_mode := auto_mode\<rparr>)"

text \<open>The inputs of a pass that has a sample: the mode and the context.\<close>

definition sil_inputs :: "config \<Rightarrow> 'p sil_input \<Rightarrow> 'p sil_context \<Rightarrow> bool \<times> 'p sil_context" where
  "sil_inputs cfg input ctx =
     (let ctx = snd (sil_read_manual_if_updated (sin_manual input) ctx)
      in (sil_auto_mode_selected cfg (sil_manual ctx), ctx))"

definition sil_body ::
  "'p csyn \<Rightarrow> config \<Rightarrow> flag_values \<Rightarrow> 'z efmi \<Rightarrow> 'p sil_input \<Rightarrow>
   'z outer_loop_scheme \<Rightarrow> 'p sil_context \<Rightarrow> ('z outer_loop_scheme, 'p) sil_result" where
  "sil_body cs cfg fl efmi input model ctx =
     (case sil_read_odometry cfg input ctx of
        Again ctx \<Rightarrow> Sil_again ctx
      | Read_error \<Rightarrow> Sil_exit (Exit_errno EIO)
      | Process_exit \<Rightarrow> Sil_process_exit
      | Read ctx \<Rightarrow>
          let (auto_mode, ctx) = sil_inputs cfg input ctx
          in sil_finish cs cfg fl efmi input auto_mode model (engaged_context auto_mode ctx))"

lemma sil_pass_controller:
  assumes "sil_read_odometry cfg input ctx = Read ctx1" and "sil_inputs cfg input ctx1 = (auto_mode, ctx2)"
  shows "sil_pass cs cfg fl efmi input model app ctx =
    pbind (sil_controller cfg efmi auto_mode model app ctx2) (\<lambda>x. Ret
      ((\<lambda>(before, app). (case before of None \<Rightarrow> Sil_undefined
          | Some model \<Rightarrow> sil_body cs cfg fl efmi input model ctx, app)) x))"
  using assms
  by (cases "auto_mode \<and> \<not> sil_previous_auto_mode ctx2")
     (auto simp: sil_pass_def sil_controller_def sil_body_def sil_inputs_def sil_engage_def engaged_context_def
        bind_assoc Let_def split: option.split prod.split intro!: arg_cong [where f = "pbind _"] ext)

text \<open>Restore and \<open>apply\<close> always leave a controller.\<close>

lemma controller_left:
  "always (\<lambda>(before, _). before \<noteq> None) (sil_controller cfg efmi auto_mode model app ctx)"
proof -
  have app: "always (\<lambda>(before, _). before \<noteq> None) (runtime_control_apply cfg model app)" for model :: "'a outer_loop_scheme"
    using always_bind [OF apply_keeps [where J = "\<lambda>_. True"], where h = Ret and P = "\<lambda>(before, _). before \<noteq> None"]
    by (auto simp: runtime_control_apply_def)
  have eng: "always (\<lambda>(mo, _). mo \<noteq> None) (sil_engage cfg efmi auto_mode model app ctx)"
    using restore_keeps [of "\<lambda>_. True" "sil_reinit efmi model" app]
    by (auto simp: sil_engage_def runtime_control_restore_def intro!: always_bind)
  show ?thesis
    unfolding sil_controller_def by (rule always_bind [OF eng]) (use app in auto)
qed

lemma sil_pass_body:
  assumes "interleaved n (sil_pass cs cfg fl efmi input model app ctx) w m (r, app') w' m'"
  shows "lockstep_mode cfg \<and> (r = Sil_exit (Exit_errno EIO) \<or> r = Sil_process_exit \<or> (\<exists>ctx. r = Sil_again ctx)) \<or>
    (\<exists>ctx1 auto_mode ctx2 before. sil_read_odometry cfg input ctx = Read ctx1 \<and>
       sil_inputs cfg input ctx1 = (auto_mode, ctx2) \<and>
       interleaved n (sil_controller cfg efmi auto_mode model app ctx2) w m (Some before, app') w' m' \<and>
       r = sil_body cs cfg fl efmi input before ctx)"
proof (cases "\<exists>ctx1. sil_read_odometry cfg input ctx = Read ctx1")
  case True
  then obtain ctx1 where read: "sil_read_odometry cfg input ctx = Read ctx1" by blast
  obtain auto_mode ctx2 where inp: "sil_inputs cfg input ctx1 = (auto_mode, ctx2)" by (cases "sil_inputs cfg input ctx1")
  from interleaved_bind_Ret [OF assms [unfolded sil_pass_controller [OF read inp]]] obtain mo where
    i: "interleaved n (sil_controller cfg efmi auto_mode model app ctx2) w m (mo, app') w' m'"
    and r: "r = (case mo of None \<Rightarrow> Sil_undefined | Some model \<Rightarrow> sil_body cs cfg fl efmi input model ctx)"
    by auto
  from interleaved_always [OF i controller_left] read inp i r show ?thesis by auto
next
  case False
  then have "lockstep_mode cfg" by (cases "lockstep_mode cfg") (simp_all add: sil_read_odometry_def)
  with sil_pass_unread [OF assms] False show ?thesis by auto
qed

section \<open>When a pass is defined\<close>

text \<open>Whether the body steps the controller: in automatic mode, when a step is due, on a
  valid odometry.\<close>

definition sil_steps :: "config \<Rightarrow> flag_values \<Rightarrow> 'p sil_context \<Rightarrow> bool" where
  "sil_steps cfg fl ctx \<longleftrightarrow> sil_previous_auto_mode ctx \<and> fst (control_step_due cfg ctx) \<and>
     sil_odometry_valid fl (sil_odometry ctx)"

lemma sil_finish_defined:
  assumes "clamps cs" and "auto_mode = sil_previous_auto_mode ctx0"
    and fit: "sil_steps cfg fl ctx0 \<Longrightarrow> channels_fit (sil_step_model cs efmi (sil_odometry ctx0) model0)"
  shows "(\<exists>model ctx pubs shm. sil_finish cs cfg fl efmi input auto_mode model0 ctx0 = Sil_next model ctx pubs shm) \<or>
    lockstep_mode cfg \<and> sil_finish cs cfg fl efmi input auto_mode model0 ctx0 = Sil_exit (Exit_errno EIO)"
proof -
  obtain due ctx1 where due: "control_step_due cfg ctx0 = (due, ctx1)" by (cases "control_step_due cfg ctx0")
  have odom: "sil_odometry ctx1 = sil_odometry ctx0" using step_due_result [OF due] by simp
  have "\<exists>rc. sil_map_output cs (sil_step_model cs efmi (sil_odometry ctx0) model0) = Some rc"
    if "sil_steps cfg fl ctx0"
    using map_output_defined [OF fit [OF that] assms(1), of True] by (auto simp: sil_map_output_eq)
  then have "\<exists>model ctx2. sil_control cs fl efmi due auto_mode model0 ctx1 = Some (model, ctx2)"
    by (auto simp: sil_control_def odom Let_def sil_steps_def due assms(2))
  then obtain model ctx2 where "sil_control cs fl efmi due auto_mode model0 ctx1 = Some (model, ctx2)" by blast
  then show ?thesis
    by (auto simp: sil_finish_def due Let_def cubs2_lockstep_send_def cubs2_lockstep_enabled_def split: prod.split)
qed

lemma sil_finish_results:
  "(\<exists>model1 ctx1 pubs shm. sil_finish cs cfg fl efmi input auto_mode model0 ctx0 = Sil_next model1 ctx1 pubs shm) \<or>
   lockstep_mode cfg \<and> sil_finish cs cfg fl efmi input auto_mode model0 ctx0 = Sil_exit (Exit_errno EIO) \<or>
   sil_finish cs cfg fl efmi input auto_mode model0 ctx0 = Sil_undefined"
  by (auto simp: sil_finish_def Let_def split: option.split prod.split)

text \<open>
  C7 How a pass ends, from any state, among any steps of the transport thread, and whatever the
  generated controller computes: it goes on to the next pass; or, in the lockstep build only, it
  starts again without a sample or is the exit when the exchange with the simulator ends; or it
  does something that C leaves undefined, and then the cause is pinned: this very pass stepped
  the controller, and the speed, roll command or course error of the step is beyond a million
  or not finite, or the stabilizer is a NaN, so a cast to the channels does not fit.
\<close>

theorem sil_pass_outcome:
  assumes "interleaved n (sil_pass cs cfg fl efmi input model app ctx) w m (r, app') w' m'" and "clamps cs"
  shows "(\<exists>model1 ctx1 pubs shm. r = Sil_next model1 ctx1 pubs shm) \<or>
    lockstep_mode cfg \<and> (r = Sil_exit (Exit_errno EIO) \<or> r = Sil_process_exit \<or> (\<exists>ctx. r = Sil_again ctx)) \<or>
    r = Sil_undefined \<and> (\<exists>ctx1 auto_mode ctx2 before. sil_read_odometry cfg input ctx = Read ctx1 \<and>
       sil_inputs cfg input ctx1 = (auto_mode, ctx2) \<and>
       interleaved n (sil_controller cfg efmi auto_mode model app ctx2) w m (Some before, app') w' m' \<and>
       sil_steps cfg fl (engaged_context auto_mode ctx2) \<and>
       \<not> channels_fit (sil_step_model cs efmi (sil_odometry (engaged_context auto_mode ctx2)) before))"
proof -
  from sil_pass_body [OF assms(1)] consider
      "lockstep_mode cfg \<and> (r = Sil_exit (Exit_errno EIO) \<or> r = Sil_process_exit \<or> (\<exists>ctx. r = Sil_again ctx))"
    | ctx1 auto_mode ctx2 before where "sil_read_odometry cfg input ctx = Read ctx1"
        "sil_inputs cfg input ctx1 = (auto_mode, ctx2)"
        "interleaved n (sil_controller cfg efmi auto_mode model app ctx2) w m (Some before, app') w' m'"
        "r = sil_body cs cfg fl efmi input before ctx" by blast
  then show ?thesis
  proof cases
    case 2
    let ?ctx = "engaged_context auto_mode ctx2"
    have prev: "auto_mode = sil_previous_auto_mode ?ctx" by (simp add: engaged_context_def)
    have r: "r = sil_finish cs cfg fl efmi input auto_mode before ?ctx"
      using 2 by (simp add: sil_body_def)
    show ?thesis
    proof (cases "sil_steps cfg fl ?ctx \<and> \<not> channels_fit (sil_step_model cs efmi (sil_odometry ?ctx) before)")
      case True
      with 2(1-3) sil_finish_results [of cs cfg fl efmi input auto_mode before ?ctx] show ?thesis
        unfolding r by blast
    next
      case False
      with sil_finish_defined [OF assms(2) prev, of cfg fl efmi before input] r show ?thesis by blast
    qed
  qed blast
qed

section \<open>The messages of a pass\<close>

text \<open>Each of its type, one for each publisher, in this order; none depends on the mode.\<close>

definition sil_messages_ok :: "flag_values \<Rightarrow> 'z outer_loop_scheme \<Rightarrow> 'p publication list \<Rightarrow> bool" where
  "sil_messages_ok fl model pubs \<longleftrightarrow> list_all (publication_ok fl True model) pubs \<and>
     map publication_topic pubs = map topic sil_pubs"

lemma sil_estimate_flags_within:
  "flags_within (sil_attitude_estimate_flags fl model odometry_ok ctx)
     (estimate_attitude_valid fl OR estimate_rates_valid fl)"
  by (simp add: sil_attitude_estimate_flags_def Let_def)

lemma sil_publish_typed:
  assumes "sil_publish_outputs cs cfg fl uptime_ms model auto_mode ctx = (ctx', pubs)" and "clamps cs"
  shows "sil_messages_ok fl model pubs"
  using assms(1) command_ok [OF assms(2), of fl True model "control_timestamp_us cfg uptime_ms ctx"]
    health_ok sil_estimate_flags_within
  by (auto simp: sil_publish_outputs_def sil_update_telemetry_def Let_def sil_messages_ok_def sil_pubs_def
      attitude_estimate_of_def)

lemma sil_finish_typed:
  assumes "sil_finish cs cfg fl efmi input auto_mode model0 ctx0 = Sil_next model ctx pubs shm" and "clamps cs"
  shows "sil_messages_ok fl model pubs"
proof -
  obtain due ctx1 where due: "control_step_due cfg ctx0 = (due, ctx1)" by (cases "control_step_due cfg ctx0")
  from assms(1) obtain model1 ctx2 where
    c: "sil_control cs fl efmi due auto_mode model0 ctx1 = Some (model1, ctx2)"
    by (auto simp: sil_finish_def due split: option.splits)
  let ?ctx = "ctx2\<lparr>sil_main_loop_us := sin_cycles_to_us input (sin_end_cycles input - sin_start_cycles input)\<rparr>"
  obtain ctx3 pubs3 where p: "sil_publish_outputs cs cfg fl (sin_uptime_ms input) model1 auto_mode ?ctx = (ctx3, pubs3)"
    by (cases "sil_publish_outputs cs cfg fl (sin_uptime_ms input) model1 auto_mode ?ctx")
  have "model = model1 \<and> pubs = pubs3"
    using assms(1) by (auto simp: sil_finish_def due c p Let_def split: if_splits prod.splits)
  with sil_publish_typed [OF p assms(2)] show ?thesis by simp
qed

text \<open>
  C16 Every message that a pass publishes has its type, whatever the generated controller
  computes: the mode, the link quality and the flags within their values, and the thrust between
  0 and 1 whenever the controller's throttle is a number. A pass publishes one message for each
  of its publishers, in the order of their table.
\<close>

theorem sil_messages_typed:
  assumes "interleaved n (sil_pass cs cfg fl efmi input model app ctx) w m (Sil_next model1 ctx1 pubs shm, app') w' m'"
    and "clamps cs"
  shows "sil_messages_ok fl model1 pubs"
proof -
  from sil_pass_body [OF assms(1)] obtain ctx2 auto_mode ctx3 before where
    "sil_read_odometry cfg input ctx = Read ctx2" "sil_inputs cfg input ctx2 = (auto_mode, ctx3)"
    "sil_body cs cfg fl efmi input before ctx = Sil_next model1 ctx1 pubs shm" by auto
  then show ?thesis using sil_finish_typed [OF _ assms(2)] by (auto simp: sil_body_def)
qed

end
