(* ===== verification/Session.thy ===== *)
theory Session
  imports Sil_Main
begin

text \<open>
  Whole sessions of the autopilot: queries of the ground station and passes of the control
  loop in any order, each run to its end. The same machine is run on two memories: the shared
  memory of \<open>src/runtime_control.c\<close> with its slots, counters and flags, and the abstract state of
  theory Runtime_Spec. The locale \<open>session_client\<close> states what a program's pass has to promise
  for the two to be indistinguishable from outside; the programs of \<open>src/main_realtime.c\<close> and
  \<open>src/main_sil.c\<close> both promise it.
\<close>

section \<open>Events, answers and the machine\<close>

datatype 'i event = Ask query | Cycle 'i

datatype 'r answer = Reply "bytes option" | Ran 'r

text \<open>
  The state between two events: the controller, what was applied to it, the loop's context, and
  a memory \<open>'m\<close>. A pass leads on with a controller and a context, or ends the program.
\<close>

type_synonym ('z, 'c, 'm) session_state = "'z outer_loop_scheme \<times> applied \<times> 'c \<times> 'm"

type_synonym ('z, 'i, 'c, 'm, 'r) passing =
  "'i \<Rightarrow> 'z outer_loop_scheme \<Rightarrow> applied \<Rightarrow> 'c \<Rightarrow> 'm \<Rightarrow> ('r \<times> applied) \<times> 'm"

type_synonym ('z, 'c, 'r) going_on = "'z outer_loop_scheme \<Rightarrow> 'r \<Rightarrow> ('z outer_loop_scheme \<times> 'c) option"

definition session_event ::
  "(query \<Rightarrow> 'm \<Rightarrow> bytes option \<times> 'm) \<Rightarrow> ('z, 'i, 'c, 'm, 'r) passing \<Rightarrow> ('z, 'c, 'r) going_on \<Rightarrow>
   'i event \<Rightarrow> ('z, 'c, 'm) session_state \<Rightarrow> 'r answer \<times> ('z, 'c, 'm) session_state option" where
  "session_event ask cycle go e = (\<lambda>(model, app, ctx, m).
     (case e of
        Ask q \<Rightarrow> (case ask q m of (reply, m') \<Rightarrow> (Reply reply, Some (model, app, ctx, m')))
      | Cycle input \<Rightarrow>
          (case cycle input model app ctx m of
             ((r, app'), m') \<Rightarrow>
               (Ran r, map_option (\<lambda>(model', ctx'). (model', app', ctx', m')) (go model r)))))"

fun session ::
  "(query \<Rightarrow> 'm \<Rightarrow> bytes option \<times> 'm) \<Rightarrow> ('z, 'i, 'c, 'm, 'r) passing \<Rightarrow> ('z, 'c, 'r) going_on \<Rightarrow>
   'i event list \<Rightarrow> ('z, 'c, 'm) session_state \<Rightarrow> 'r answer list \<times> ('z, 'c, 'm) session_state option" where
  "session ask cycle go [] s = ([], Some s)"
| "session ask cycle go (e # es) s =
     (case session_event ask cycle go e s of
        (ans, None) \<Rightarrow> ([ans], None)
      | (ans, Some s') \<Rightarrow> (case session ask cycle go es s' of (rest, r) \<Rightarrow> (ans # rest, r)))"

section \<open>The services on the two memories\<close>

definition served ::
  "('r, 'v, 'g, 't, 's, 'b) synapse \<Rightarrow> query \<Rightarrow> shared \<Rightarrow> bytes option \<times> shared" where
  "served syn = (\<lambda>(service, request, capacity) m. run (runtime_query syn service request capacity) m)"

text \<open>The replies, read off the abstract state: no writer is busy and no value is being stored.\<close>

definition spec_param_set_reply :: "'b builder \<Rightarrow> nat \<Rightarrow> (string \<times> f64) option \<Rightarrow> bytes option" where
  "spec_param_set_reply fb capacity args =
     (case args of
        None \<Rightarrow> build_param_set_reply fb capacity Failed (Some '''') 0 (- 1)
      | Some (nm, number) \<Rightarrow>
          if find_value nm < 0 then build_param_set_reply fb capacity Unsupported (Some nm) number (- 2)
          else if \<not> isfinite64 number then build_param_set_reply fb capacity Denied (Some nm) number (- 3)
          else build_param_set_reply fb capacity Accepted (Some nm) number 0)"

definition spec_param_get_reply :: "'b builder \<Rightarrow> nat \<Rightarrow> string option \<Rightarrow> runtime_spec \<Rightarrow> bytes option" where
  "spec_param_get_reply fb capacity args a =
     (case args of
        None \<Rightarrow> build_param_get_reply fb capacity Failed '''' 0 (- 1)
      | Some nm \<Rightarrow>
          if find_value nm < 0 then build_param_get_reply fb capacity Unsupported nm 0 (- 2)
          else build_param_get_reply fb capacity Accepted nm (spec_live a (nat (find_value nm))) 0)"

definition spec_trajectory_reply ::
  "'b builder \<Rightarrow> nat \<Rightarrow> (result_code \<times> int \<times> u32) + (u32 \<times> mission) \<Rightarrow> runtime_spec \<Rightarrow> bytes option" where
  "spec_trajectory_reply fb capacity request a =
     (case request of
        Inl (result, detail, seq) \<Rightarrow> build_trajectory_reply fb capacity result (spec_version a) detail seq
      | Inr (expected, mis) \<Rightarrow>
          if expected \<noteq> 0 \<and> expected \<noteq> spec_version a then
            build_trajectory_reply fb capacity TemporarilyRejected (spec_version a) (- 4) 0
          else build_trajectory_reply fb capacity Accepted (next_version (spec_version a)) 0 0)"

definition spec_served ::
  "('r, 'v, 'g, 't, 's, 'b) synapse \<Rightarrow> query \<Rightarrow> runtime_spec \<Rightarrow> bytes option \<times> runtime_spec" where
  "spec_served syn = (\<lambda>(service, request, capacity) a.
     (if service = ''param_set'' then
        spec_param_set_reply (builder syn) capacity (param_set_args (set_reader syn) request)
      else if service = ''param_get'' then
        spec_param_get_reply (builder syn) capacity (param_get_args (get_reader syn) request) a
      else if service = ''trajectory_set'' then
        spec_trajectory_reply (builder syn) capacity (mission_of (trajectory_reader syn) request) a
      else None,
      spec_query syn service request a))"

lemma served_run:
  assumes "at_rest m"
  shows "fst (served syn q m) = fst (spec_served syn q (runtime_abs m)) \<and> at_rest (snd (served syn q m)) \<and>
    runtime_abs (snd (served syn q m)) = snd (spec_served syn q (runtime_abs m))"
proof -
  obtain service request capacity where q: "q = (service, request, capacity)" by (cases q)
  have free: "\<not> command_writer m" "even (sequence (live_values m i))" for i
    using assms by (simp_all add: at_rest_def slots_even_def)
  have version: "spec_version (runtime_abs m) = plan_version m" by (simp add: runtime_abs_def)
  have "fst (served syn q m) = fst (spec_served syn q (runtime_abs m))"
    by (auto simp: q served_def spec_served_def runtime_query_def param_set_run param_get_run
        trajectory_set_run spec_param_set_reply_def spec_param_get_reply_def spec_trajectory_reply_def
        free version split: option.split sum.split)
  moreover from query_run [OF assms, of syn service request capacity] have
    "at_rest (snd (served syn q m)) \<and> runtime_abs (snd (served syn q m)) = snd (spec_served syn q (runtime_abs m))"
    by (simp add: q served_def spec_served_def)
  ultimately show ?thesis by blast
qed

section \<open>What the pass of a program promises\<close>

definition passed ::
  "('i \<Rightarrow> 'z outer_loop_scheme \<Rightarrow> applied \<Rightarrow> 'c \<Rightarrow> (shared, 'r \<times> applied) prog) \<Rightarrow>
   ('z, 'i, 'c, shared, 'r) passing" where
  "passed pass input model app ctx m = run (pass input model app ctx) m"

definition abs_state :: "('z, 'c, shared) session_state \<Rightarrow> ('z, 'c, runtime_spec) session_state" where
  "abs_state = (\<lambda>(model, app, ctx, m). (model, app, ctx, runtime_abs m))"

definition resting :: "('z, 'c, shared) session_state \<Rightarrow> bool" where
  "resting = (\<lambda>(model, app, ctx, m). at_rest m)"

locale session_client =
  fixes pass :: "'i \<Rightarrow> 'z outer_loop_scheme \<Rightarrow> applied \<Rightarrow> 'c \<Rightarrow> (shared, 'r \<times> applied) prog"
    and spec_pass :: "('z, 'i, 'c, runtime_spec, 'r) passing"
    and go :: "('z, 'c, 'r) going_on"
  assumes pass_run: "at_rest m \<Longrightarrow>
    fst (run (pass input model app ctx) m) = fst (spec_pass input model app ctx (runtime_abs m)) \<and>
    at_rest (snd (run (pass input model app ctx) m)) \<and>
    runtime_abs (snd (run (pass input model app ctx) m)) = snd (spec_pass input model app ctx (runtime_abs m))"
begin

lemma event_refines:
  assumes "resting s"
  shows "map_prod id (map_option abs_state) (session_event (served syn) (passed pass) go e s) =
      session_event (spec_served syn) spec_pass go e (abs_state s) \<and>
    pred_option resting (snd (session_event (served syn) (passed pass) go e s))"
proof -
  obtain model app ctx m where s: "s = (model, app, ctx, m)" by (cases s)
  with assms have rest: "at_rest m" by (simp add: resting_def)
  show ?thesis
  proof (cases e)
    case (Ask q)
    from served_run [OF rest, of syn q] show ?thesis
      by (auto simp: Ask s session_event_def abs_state_def resting_def split: prod.split)
  next
    case (Cycle input)
    from pass_run [OF rest, of input model app ctx] show ?thesis
      by (auto simp: Cycle s session_event_def passed_def abs_state_def resting_def option.pred_map
          option.map_comp comp_def case_prod_unfold pred_option_def)
  qed
qed

lemma session_refines:
  assumes "resting s"
  shows "map_prod id (map_option abs_state) (session (served syn) (passed pass) go es s) =
      session (spec_served syn) spec_pass go es (abs_state s) \<and>
    pred_option resting (snd (session (served syn) (passed pass) go es s))"
  using assms
proof (induction es arbitrary: s)
  case (Cons e es)
  obtain ans r where e: "session_event (served syn) (passed pass) go e s = (ans, r)"
    by (cases "session_event (served syn) (passed pass) go e s")
  from event_refines [OF Cons.prems, of syn e] have
    spec: "session_event (spec_served syn) spec_pass go e (abs_state s) = (ans, map_option abs_state r)"
    and r: "pred_option resting r" by (simp_all add: e)
  show ?case
  proof (cases r)
    case None
    then show ?thesis by (simp add: e spec)
  next
    case (Some s')
    with r have "resting s'" by simp
    from Cons.IH [OF this] show ?thesis
      by (auto simp: e spec Some split: prod.split)
  qed
qed simp

end

section \<open>The controller thread's operations, run to their end\<close>

text \<open>A restoration makes the applied values the live ones and stages nothing.\<close>

definition spec_restore :: "applied \<Rightarrow> runtime_spec \<Rightarrow> runtime_spec" where
  "spec_restore app a =
     a\<lparr>spec_live := (\<lambda>i. if i < length value_table \<and> applied_value_set app i then applied_values app i
                       else spec_live a i)\<rparr>"

definition put_live :: "applied \<Rightarrow> nat \<Rightarrow> shared \<Rightarrow> shared" where
  "put_live app i m =
     (if applied_value_set app i
      then put_slot (Live_value i) (stored (applied_values app i) (live_values m i)) m else m)"

lemma run_restore_value:
  "run (restore_value app i model) m =
    (spec_apply_value (\<lambda>i. if applied_value_set app i then Some (applied_values app i) else None) i model,
     put_live app i m)"
  by (simp add: restore_value_def run_simps put_live_def spec_apply_value_def)

lemma run_restore_values:
  "run (for_each is (restore_value app) model) m =
    (fold (spec_apply_value (\<lambda>i. if applied_value_set app i then Some (applied_values app i) else None)) is model,
     fold (put_live app) is m)"
  by (induction "is" arbitrary: model m) (simp_all add: run_bind run_restore_value)

lemma put_live_rest: "at_rest m \<Longrightarrow> at_rest (put_live app i m)"
  by (auto simp: at_rest_def slots_even_def put_live_def)

lemma fold_put_live: "at_rest m \<Longrightarrow> at_rest (fold (put_live app) is m)"
  by (induction "is" arbitrary: m) (simp_all add: put_live_rest)

lemma abs_put_live: "runtime_abs (fold (put_live app) is m) = (runtime_abs m)
    \<lparr>spec_live := (\<lambda>i. if i \<in> set is \<and> applied_value_set app i then applied_values app i
                     else spec_live (runtime_abs m) i)\<rparr>"
proof (induction "is" arbitrary: m)
  case Nil
  then show ?case by (simp add: runtime_abs_def)
next
  case (Cons i "is")
  then show ?case by (auto simp: runtime_abs_def put_live_def fun_eq_iff)
qed

lemma restore_run:
  assumes "at_rest m"
  shows "fst (run (cubs2_runtime_control_restore (Some model) app) m) = Some (restored app model) \<and>
    at_rest (snd (run (cubs2_runtime_control_restore (Some model) app) m)) \<and>
    runtime_abs (snd (run (cubs2_runtime_control_restore (Some model) app) m)) = spec_restore app (runtime_abs m)"
proof -
  have "run (cubs2_runtime_control_restore (Some model) app) m =
      (Some (restored app model), fold (put_live app) [0..<length value_table] m)"
    by (simp add: cubs2_runtime_control_restore_def run_bind run_restore_values restored_def Let_def
        del: length_values)
  then show ?thesis using fold_put_live [OF assms]
    by (simp add: abs_put_live spec_restore_def del: length_values)
qed

text \<open>The calls as the header declares them, with and without the runtime control.\<close>

definition spec_control_apply ::
  "config \<Rightarrow> 'z outer_loop_scheme \<Rightarrow> applied \<Rightarrow> runtime_spec \<Rightarrow>
   ('z outer_loop_scheme \<times> applied) \<times> runtime_spec" where
  "spec_control_apply cfg model app a =
     (if runtime_control cfg then ((spec_apply_model a model, spec_applied a app), spec_apply a)
      else ((model, app), a))"

definition spec_control_restore ::
  "config \<Rightarrow> 'z outer_loop_scheme \<Rightarrow> applied \<Rightarrow> runtime_spec \<Rightarrow> 'z outer_loop_scheme \<times> runtime_spec" where
  "spec_control_restore cfg model app a =
     (if runtime_control cfg then (restored app model, spec_restore app a) else (model, a))"

lemma control_apply_run:
  assumes "at_rest m"
  obtains model' app' a' m' where "spec_control_apply cfg model app (runtime_abs m) = ((model', app'), a')"
    "run (runtime_control_apply cfg model app) m = ((Some model', app'), m')" "at_rest m'" "runtime_abs m' = a'"
  using apply_run [OF assms, of model app] assms
  by (cases "runtime_control cfg") (auto simp: runtime_control_apply_def spec_control_apply_def)

lemma control_restore_run:
  assumes "at_rest m"
  obtains model' a' m' where "spec_control_restore cfg model app (runtime_abs m) = (model', a')"
    "run (runtime_control_restore cfg model app) m = (Some model', m')" "at_rest m'" "runtime_abs m' = a'"
  using restore_run [OF assms, of model app] assms
  by (cases "runtime_control cfg"; cases "run (cubs2_runtime_control_restore (Some model) app) m")
    (auto simp: runtime_control_restore_def spec_control_restore_def)

section \<open>The program in the aircraft\<close>

definition spec_realtime_pass ::
  "'p csyn \<Rightarrow> config \<Rightarrow> flag_values \<Rightarrow> 'z efmi \<Rightarrow>
   ('z, 'p cycle_input, 'p control_context, runtime_spec, ('z outer_loop_scheme, 'p) pass_result) passing" where
  "spec_realtime_pass cs cfg fl efmi input model app ctx a =
     (case read_inputs cfg fl input ctx of
        None \<Rightarrow> ((Stop (Exit_errno EIO), app), a)
      | Some (step_control, ctx) \<Rightarrow>
          (case select_mode cfg ctx of (auto_mode, ctx) \<Rightarrow>
           case spec_control_apply cfg model app a of ((model, app), a) \<Rightarrow>
             ((case control_and_publish cs cfg fl efmi input step_control auto_mode (model, ctx) of
                 None \<Rightarrow> Undefined
               | Some r \<Rightarrow> send_outputs cfg input r, app), a)))"

fun realtime_goes_on ::
  "'z outer_loop_scheme \<Rightarrow> ('z outer_loop_scheme, 'p) pass_result \<Rightarrow>
   ('z outer_loop_scheme \<times> 'p control_context) option" where
  "realtime_goes_on _ (Next model ctx _ _) = Some (model, ctx)"
| "realtime_goes_on _ _ = None"

lemma realtime_pass_run:
  assumes "at_rest m"
  shows "fst (run (realtime_pass cs cfg fl efmi input model app ctx) m) =
      fst (spec_realtime_pass cs cfg fl efmi input model app ctx (runtime_abs m)) \<and>
    at_rest (snd (run (realtime_pass cs cfg fl efmi input model app ctx) m)) \<and>
    runtime_abs (snd (run (realtime_pass cs cfg fl efmi input model app ctx) m)) =
      snd (spec_realtime_pass cs cfg fl efmi input model app ctx (runtime_abs m))"
proof (rule control_apply_run [OF assms, of cfg model app])
  fix model' app' a' m'
  assume "spec_control_apply cfg model app (runtime_abs m) = ((model', app'), a')"
    "run (runtime_control_apply cfg model app) m = ((Some model', app'), m')" "at_rest m'" "runtime_abs m' = a'"
  then show ?thesis using assms
    by (auto simp: realtime_pass_def spec_realtime_pass_def run_bind split: option.split prod.split)
qed

interpretation realtime: session_client "realtime_pass cs cfg fl efmi" "spec_realtime_pass cs cfg fl efmi"
  realtime_goes_on for cs cfg fl efmi
  by unfold_locales (rule realtime_pass_run)

section \<open>The program in the loop\<close>

definition spec_engage ::
  "config \<Rightarrow> 'z efmi \<Rightarrow> bool \<Rightarrow> 'z outer_loop_scheme \<Rightarrow> applied \<Rightarrow> 'p sil_context \<Rightarrow> runtime_spec \<Rightarrow>
   ('z outer_loop_scheme \<times> 'p sil_context) \<times> runtime_spec" where
  "spec_engage cfg efmi auto_mode model app ctx a =
     (if auto_mode \<and> \<not> sil_previous_auto_mode ctx then
        case spec_control_restore cfg (sil_reinit efmi model) app a of (model, a) \<Rightarrow>
          ((model, ctx\<lparr>sil_estimator_control_steps := 0, sil_previous_auto_mode := auto_mode\<rparr>), a)
      else ((model, ctx\<lparr>sil_previous_auto_mode := auto_mode\<rparr>), a))"

definition spec_sil_pass ::
  "'p csyn \<Rightarrow> config \<Rightarrow> flag_values \<Rightarrow> 'z efmi \<Rightarrow>
   ('z, 'p sil_input, 'p sil_context, runtime_spec, ('z outer_loop_scheme, 'p) sil_result) passing" where
  "spec_sil_pass cs cfg fl efmi input model app ctx a =
     (case sil_read_odometry cfg input ctx of
        Again ctx \<Rightarrow> ((Sil_again ctx, app), a)
      | Read_error \<Rightarrow> ((Sil_exit (Exit_errno EIO), app), a)
      | Process_exit \<Rightarrow> ((Sil_process_exit, app), a)
      | Read ctx \<Rightarrow>
          (let ctx = snd (sil_read_manual_if_updated (sin_manual input) ctx);
               auto_mode = sil_auto_mode_selected cfg (sil_manual ctx)
           in case spec_engage cfg efmi auto_mode model app ctx a of ((model, ctx), a) \<Rightarrow>
              case spec_control_apply cfg model app a of ((model, app), a) \<Rightarrow>
                ((sil_finish cs cfg fl efmi input auto_mode model ctx, app), a)))"

fun sil_goes ::
  "'z outer_loop_scheme \<Rightarrow> ('z outer_loop_scheme, 'p) sil_result \<Rightarrow>
   ('z outer_loop_scheme \<times> 'p sil_context) option" where
  "sil_goes _ (Sil_next model ctx _ _) = Some (model, ctx)"
| "sil_goes model (Sil_again ctx) = Some (model, ctx)"
| "sil_goes _ _ = None"

lemma engage_run:
  assumes "at_rest m"
  obtains model' ctx' a' m' where "spec_engage cfg efmi auto_mode model app ctx (runtime_abs m) = ((model', ctx'), a')"
    "run (sil_engage cfg efmi auto_mode model app ctx) m = ((Some model', ctx'), m')"
    "at_rest m'" "runtime_abs m' = a'"
proof (rule control_restore_run [OF assms, of cfg "sil_reinit efmi model" app])
  fix model' a' m'
  assume "spec_control_restore cfg (sil_reinit efmi model) app (runtime_abs m) = (model', a')"
    "run (runtime_control_restore cfg (sil_reinit efmi model) app) m = (Some model', m')"
    "at_rest m'" "runtime_abs m' = a'"
  then show thesis using assms
    by (cases "auto_mode \<and> \<not> sil_previous_auto_mode ctx")
      (auto simp: sil_engage_def spec_engage_def run_bind intro: that)
qed

lemma sil_pass_run:
  assumes "at_rest m"
  shows "fst (run (sil_pass cs cfg fl efmi input model app ctx) m) =
      fst (spec_sil_pass cs cfg fl efmi input model app ctx (runtime_abs m)) \<and>
    at_rest (snd (run (sil_pass cs cfg fl efmi input model app ctx) m)) \<and>
    runtime_abs (snd (run (sil_pass cs cfg fl efmi input model app ctx) m)) =
      snd (spec_sil_pass cs cfg fl efmi input model app ctx (runtime_abs m))"
proof (cases "sil_read_odometry cfg input ctx")
  case (Read ctx1)
  let ?ctx = "snd (sil_read_manual_if_updated (sin_manual input) ctx1)"
  let ?auto = "sil_auto_mode_selected cfg (sil_manual ?ctx)"
  obtain model2 ctx2 a2 m2 where
    engage: "spec_engage cfg efmi ?auto model app ?ctx (runtime_abs m) = ((model2, ctx2), a2)"
    "run (sil_engage cfg efmi ?auto model app ?ctx) m = ((Some model2, ctx2), m2)"
    and rest: "at_rest m2" "runtime_abs m2 = a2"
    by (rule engage_run [OF assms])
  obtain model3 app3 a3 m3 where
    "spec_control_apply cfg model2 app (runtime_abs m2) = ((model3, app3), a3)"
    "run (runtime_control_apply cfg model2 app) m2 = ((Some model3, app3), m3)"
    "at_rest m3" "runtime_abs m3 = a3"
    by (rule control_apply_run [OF rest(1)])
  with rest(2) engage show ?thesis
    by (simp add: sil_pass_def spec_sil_pass_def Read Let_def run_bind)
qed (use assms in \<open>simp_all add: sil_pass_def spec_sil_pass_def\<close>)

interpretation loop: session_client "sil_pass cs cfg fl efmi" "spec_sil_pass cs cfg fl efmi"
  sil_goes for cs cfg fl efmi
  by unfold_locales (rule sil_pass_run)

section \<open>Sessions from the start\<close>

definition spec_init :: "'z outer_loop_scheme \<Rightarrow> runtime_spec" where
  "spec_init model =
     \<lparr>spec_version = 1,
      spec_live = (\<lambda>i. if i < length value_table then leaf model (live_member (value_table ! i)) else 0),
      spec_staged = Map.empty, spec_mission = None\<rparr>"

lemma abs_state_init: "abs_state (model, app, ctx, init_shared model) = (model, app, ctx, spec_init model)"
  by (simp add: abs_state_def init_abs spec_init_def)

lemma resting_init: "resting (model, app, ctx, init_shared model)"
  by (simp add: resting_def)

text \<open>
  C8 Refinement of the whole program in the aircraft: in every session, a sequence of queries and
  passes from the start, each run to its end, all replies, all that the passes publish and
  send, and the exit if there is one are those of the abstract machine, which has a version,
  live values, staged values and a staged mission in place of the shared memory.
\<close>

theorem realtime_session_refines:
  "map_prod id (map_option abs_state)
     (session (served syn) (passed (realtime_pass cs cfg fl efmi)) realtime_goes_on es
        (model, zero_applied, ctx, init_shared model)) =
   session (spec_served syn) (spec_realtime_pass cs cfg fl efmi) realtime_goes_on es
     (model, zero_applied, ctx, spec_init model)"
  by (simp add: realtime.session_refines [OF resting_init] abs_state_init)

text \<open>
  C15 Refinement of the whole program in the loop: the same of every session of it, in which
  an engagement initialises the controller again and restores what was applied.
\<close>

theorem sil_session_refines:
  "map_prod id (map_option abs_state)
     (session (served syn) (passed (sil_pass cs cfg fl efmi)) sil_goes es
        (model, zero_applied, ctx, init_shared model)) =
   session (spec_served syn) (spec_sil_pass cs cfg fl efmi) sil_goes es
     (model, zero_applied, ctx, spec_init model)"
  by (simp add: loop.session_refines [OF resting_init] abs_state_init)

end
