(* ===== verification/Plan_Protocol.thy ===== *)
theory Plan_Protocol
  imports Session
begin

text \<open>
  The plan version as a guard against lost updates: a request that names the version it was
  made for is rejected once any other mission was accepted, whatever else happened in
  between. The locale \<open>version_client\<close> extends the contract of a program's pass by the promise
  to leave the version alone, and both programs keep it.
\<close>

section \<open>Versions\<close>

text \<open>The versions go round the numbers from 1 to \<open>2 ^ 32 - 1\<close>; 0 is never one.\<close>

lemma version_bounds: "v \<noteq> 0 \<Longrightarrow> 0 < unat v \<and> unat v < 2 ^ 32" for v :: u32
  using unsigned_less [of v, where 'a = nat] by (simp add: unat_gt_0)

lemma unat_next_version:
  "v \<noteq> 0 \<Longrightarrow> unat (next_version v) = (unat v - 1 + 1) mod (2 ^ 32 - 1) + 1"
proof -
  assume "v \<noteq> 0"
  then have v: "0 < unat v" and le: "unat v < 2 ^ 32" using version_bounds [of v] by auto
  have up: "unat (v + 1) = (if unat v = 2 ^ 32 - 1 then 0 else unat v + 1)"
    using le by (auto simp: unat_word_ariths(1))
  have "v + 1 = 0 \<longleftrightarrow> unat (v + 1) = 0" by (simp only: unat_eq_zero)
  with up v le show ?thesis
    by (cases "unat v = 2 ^ 32 - 1") (simp_all add: next_version_def Let_def)
qed

lemma next_versions_nonzero [simp]: "v \<noteq> 0 \<Longrightarrow> (next_version ^^ k) v \<noteq> 0"
  by (cases k) simp_all

lemma unat_next_versions:
  assumes "v \<noteq> 0"
  shows "unat ((next_version ^^ k) v) = (unat v - 1 + k) mod (2 ^ 32 - 1) + 1"
proof (induction k)
  case 0
  have "unat v - 1 < 2 ^ 32 - 1" using version_bounds [OF assms] by linarith
  then show ?case using version_bounds [OF assms] by (simp add: mod_less)
next
  case (Suc k)
  have "unat ((next_version ^^ Suc k) v) = (unat ((next_version ^^ k) v) - 1 + 1) mod (2 ^ 32 - 1) + 1"
    using unat_next_version [OF next_versions_nonzero [OF assms, of k]] by simp
  also have "\<dots> = ((unat v - 1 + k) mod (2 ^ 32 - 1) + 1) mod (2 ^ 32 - 1) + 1"
    by (simp only: Suc.IH add_diff_cancel_right')
  finally show ?case by (simp only: mod_add_left_eq) simp
qed

lemma next_versions_differ:
  assumes "v \<noteq> 0" "0 < k" "k < 2 ^ 32 - 1"
  shows "(next_version ^^ k) v \<noteq> v"
proof
  assume "(next_version ^^ k) v = v"
  then have eq: "(unat v - 1 + k) mod (2 ^ 32 - 1) + 1 = unat v" using unat_next_versions [OF assms(1)] by metis
  have v: "0 < unat v" "unat v < 2 ^ 32" using version_bounds [OF assms(1)] by auto
  show False
  proof (cases "unat v - 1 + k < 2 ^ 32 - 1")
    case True
    then show False using eq v assms by simp
  next
    case False
    then have "(unat v - 1 + k) mod (2 ^ 32 - 1) = unat v - 1 + k - (2 ^ 32 - 1)"
      using v assms by (subst mod_if) (simp add: mod_if)
    then show False using eq v assms False by simp
  qed
qed

section \<open>A pass leaves the version alone\<close>

locale version_client = session_client +
  assumes keeps_version: "spec_version (snd (spec_pass input model app ctx a)) = spec_version a"
begin

lemma event_version:
  assumes "session_event (spec_served syn) spec_pass go e (model, app, ctx, a) =
    (ans, Some (model', app', ctx', a'))"
  shows "\<exists>k\<le>1. spec_version a' = (next_version ^^ k) (spec_version a)"
proof (cases e)
  case (Ask q)
  have "spec_version (spec_query syn service request a) \<in> {spec_version a, next_version (spec_version a)}"
    for service request
    by (auto simp: spec_query_def spec_param_set_def spec_trajectory_set_def spec_set_value_def
        spec_set_mission_def split: option.split sum.split)
  then have "spec_version a' \<in> {spec_version a, next_version (spec_version a)}"
    using assms by (cases q) (auto simp: Ask session_event_def spec_served_def)
  then show ?thesis using exI [of _ "0::nat"] exI [of _ "1::nat"] by auto
next
  case (Cycle input)
  then have "spec_version a' = spec_version a"
    using assms keeps_version [of input model app ctx a]
    by (auto simp: session_event_def split: prod.splits)
  then show ?thesis by (intro exI [of _ 0]) simp
qed

lemma session_version:
  assumes "session (spec_served syn) spec_pass go es (model, app, ctx, a) =
    (answers, Some (model', app', ctx', a'))"
  shows "\<exists>k\<le>length es. spec_version a' = (next_version ^^ k) (spec_version a)"
  using assms
proof (induction es arbitrary: model app ctx a answers)
  case Nil
  then show ?case by simp
next
  case (Cons e es)
  obtain ans r where e: "session_event (spec_served syn) spec_pass go e (model, app, ctx, a) = (ans, r)"
    by (cases "session_event (spec_served syn) spec_pass go e (model, app, ctx, a)")
  from e Cons.prems obtain model1 app1 ctx1 a1 rest where
    r: "r = Some (model1, app1, ctx1, a1)" and
    es: "session (spec_served syn) spec_pass go es (model1, app1, ctx1, a1) =
      (rest, Some (model', app', ctx', a'))"
    by (auto split: option.splits prod.splits)
  from event_version [OF e [unfolded r]] obtain k1 where
    k1: "k1 \<le> 1" "spec_version a1 = (next_version ^^ k1) (spec_version a)" by blast
  from Cons.IH [OF es] obtain k2 where
    k2: "k2 \<le> length es" "spec_version a' = (next_version ^^ k2) (spec_version a1)" by blast
  have "spec_version a' = (next_version ^^ (k2 + k1)) (spec_version a)"
    by (simp only: k1 k2 funpow_add comp_apply)
  moreover have "k2 + k1 \<le> length (e # es)" using k1(1) k2(1) by simp
  ultimately show ?case by blast
qed

lemma stale_plan:
  assumes "at_rest m" and "mission_of (trajectory_reader syn) request1 = Inr (plan_version m, mis1)"
    and "session (served syn) (passed pass) go (Ask (''trajectory_set'', request1, capacity1) # es)
      (model, app, ctx, m) = (answers, Some (model', app', ctx', m'))"
    and "length es < 2 ^ 32 - 2"
  shows "at_rest m' \<and> plan_version m' \<noteq> plan_version m"
proof -
  let ?a1 = "spec_set_mission mis1 (runtime_abs m)"
  have v: "spec_version (runtime_abs m') = plan_version m'" for m' by (simp add: runtime_abs_def)
  have "resting (model, app, ctx, m)" using assms(1) by (simp add: resting_def)
  note refines = session_refines [OF this, of syn "Ask (''trajectory_set'', request1, capacity1) # es",
      unfolded assms(3)]
  then have rest: "at_rest m'" and "session (spec_served syn) spec_pass go
      (Ask (''trajectory_set'', request1, capacity1) # es) (model, app, ctx, runtime_abs m) =
      (answers, Some (model', app', ctx', runtime_abs m'))"
    by (simp_all add: resting_def abs_state_def del: session.simps)
  then obtain rest where "session (spec_served syn) spec_pass go es (model, app, ctx, ?a1) =
      (rest, Some (model', app', ctx', runtime_abs m'))"
    using assms(2) by (auto simp: session_event_def spec_served_def spec_query_def
        spec_trajectory_set_def v split: prod.splits option.splits)
  from session_version [OF this] obtain k where
    k: "k \<le> length es" "plan_version m' = (next_version ^^ k) (next_version (plan_version m))"
    by (auto simp: v spec_set_mission_def)
  have "plan_version m' = (next_version ^^ Suc k) (plan_version m)"
    by (simp only: k(2) funpow_Suc_right comp_apply)
  moreover have "plan_version m \<noteq> 0" using assms(1) by (simp add: at_rest_def)
  ultimately show ?thesis
    using next_versions_differ [of "plan_version m" "Suc k"] k(1) assms(4) rest by simp
qed

end

lemma control_apply_version: "spec_version (snd (spec_control_apply cfg model app a)) = spec_version a"
  by (simp add: spec_control_apply_def spec_apply_def)

lemma engage_version: "spec_version (snd (spec_engage cfg efmi auto_mode model app ctx a)) = spec_version a"
  by (simp add: spec_engage_def spec_control_restore_def spec_restore_def)

interpretation realtime_version: version_client "realtime_pass cs cfg fl efmi" "spec_realtime_pass cs cfg fl efmi"
  realtime_goes_on for cs cfg fl efmi
proof unfold_locales
  fix input model app ctx a
  show "spec_version (snd (spec_realtime_pass cs cfg fl efmi input model app ctx a)) = spec_version a"
    using control_apply_version [of cfg model app a]
    by (auto simp: spec_realtime_pass_def split: option.split prod.split)
qed

interpretation loop_version: version_client "sil_pass cs cfg fl efmi" "spec_sil_pass cs cfg fl efmi"
  sil_goes for cs cfg fl efmi
proof unfold_locales
  fix input model app ctx a
  show "spec_version (snd (spec_sil_pass cs cfg fl efmi input model app ctx a)) = spec_version a"
  proof (cases "sil_read_odometry cfg input ctx")
    case (Read ctx1)
    let ?ctx = "snd (sil_read_manual_if_updated (sin_manual input) ctx1)"
    let ?auto = "sil_auto_mode_selected cfg (sil_manual ?ctx)"
    obtain model2 ctx2 a2 where e: "spec_engage cfg efmi ?auto model app ?ctx a = ((model2, ctx2), a2)"
      by (metis prod.exhaust)
    obtain model3 app3 a3 where c: "spec_control_apply cfg model2 app a2 = ((model3, app3), a3)"
      by (metis prod.exhaust)
    from engage_version [of cfg efmi ?auto model app ?ctx a] control_apply_version [of cfg model2 app a2]
    show ?thesis by (simp add: spec_sil_pass_def Read Let_def e c)
  qed (simp_all add: spec_sil_pass_def)
qed

section \<open>No lost update\<close>

text \<open>
  C9 The plan version prevents lost updates: once a mission made for the current version is
  accepted, any later request made for that version is rejected with code -4 and changes
  nothing, whatever passes and queries come in between, fewer than \<open>2 ^ 32 - 2\<close> of them.
\<close>

theorem stale_plan_rejected:
  assumes "at_rest m" and "mission_of (trajectory_reader syn) request1 = Inr (plan_version m, mis1)"
    and "session (served syn) (passed (realtime_pass cs cfg fl efmi)) realtime_goes_on
      (Ask (''trajectory_set'', request1, capacity1) # es) (model, app, ctx, m) =
      (answers, Some (model', app', ctx', m'))"
    and "length es < 2 ^ 32 - 2"
    and "mission_of (trajectory_reader syn) request2 = Inr (plan_version m, mis2)"
  shows "served syn (''trajectory_set'', request2, capacity2) m' =
    (build_trajectory_reply (builder syn) capacity2 TemporarilyRejected (plan_version m') (- 4) 0, m')"
proof -
  have "at_rest m'" "plan_version m' \<noteq> plan_version m"
    using realtime_version.stale_plan [OF assms(1-4)] by simp_all
  moreover have "plan_version m \<noteq> 0" using assms(1) by (simp add: at_rest_def)
  ultimately show ?thesis using assms(5)
    by (simp add: served_def runtime_query_def trajectory_set_run at_rest_def)
qed

end
