(* ===== verification/Concurrent_Replies.thy ===== *)
theory Concurrent_Replies
  imports Session
begin

text \<open>
  Queries while the controller thread flies: the transport thread runs one query from any
  point among the passes of \<open>src/main_realtime.c\<close>. The facts: the controller thread changes a
  live value only from its old value to the staged one, leaves the version and the writer
  flag alone, and so every reply is one of the abstract state before or after a cycle, or
  the refusal of a reader that was interrupted too often.
\<close>

section \<open>The controller thread as a program\<close>

primrec flying ::
  "'p csyn \<Rightarrow> config \<Rightarrow> flag_values \<Rightarrow> 'z efmi \<Rightarrow> 'p cycle_input list \<Rightarrow>
   'z outer_loop_scheme \<Rightarrow> applied \<Rightarrow> 'p control_context \<Rightarrow> (shared, unit) prog" where
  "flying cs cfg fl efmi [] model app ctx = Ret ()"
| "flying cs cfg fl efmi (input # inputs) model app ctx =
     pbind (realtime_pass cs cfg fl efmi input model app ctx) (\<lambda>(r, app).
     case realtime_goes_on model r of
       None \<Rightarrow> Ret ()
     | Some (model, ctx) \<Rightarrow> flying cs cfg fl efmi inputs model app ctx)"

section \<open>Programs against an idle or an arbitrary environment\<close>

abbreviation (input) idle :: "'m \<Rightarrow> 'm \<Rightarrow> bool" where
  "idle x y \<equiv> y = x"

lemma kept_idle [simp]: "kept_by idle P"
  by (simp add: kept_by_def)

lemma keeps_idle_steps:
  assumes "steps_in K p" and "\<And>x y. K x y \<Longrightarrow> I x \<Longrightarrow> G x y \<and> I y" and "I m"
  shows "keeps idle G (\<lambda>_. I) p m"
  using assms(1,3)
proof (induction p arbitrary: m)
  case (Ret a)
  then show ?case by (intro keeps_RetI) simp_all
next
  case (Step f k)
  have k: "keeps idle G (\<lambda>_. I) (k (fst (f x))) (snd (f x))" if "I x" for x
  proof (rule Step.IH)
    have "K x (snd (f x))" using Step.prems by simp
    then show "I (snd (f x))" using that assms(2) by blast
  qed (use Step.prems in simp_all)
  show ?case
    by (rule keeps_StepI [where P = I]) (use Step.prems assms(2) k in \<open>auto simp del: keeps.simps\<close>)
qed

text \<open>A program that only reads gives the result that it gives alone.\<close>

lemma keeps_idle_read:
  assumes "silent (\<lambda>x. x) p" and "\<And>x. G x x"
  shows "keeps idle G (\<lambda>a x. run p m = (a, x)) p m"
  using assms(1)
proof (induction p arbitrary: m)
  case (Ret a)
  then show ?case by (intro keeps_RetI) simp_all
next
  case (Step f k)
  then have f: "snd (f m) = m" and k: "silent (\<lambda>x. x) (k (fst (f m)))" by simp_all
  have "run (Step f k) m = run (k (fst (f m))) m" using f by (cases "f m") simp
  with Step.IH [OF _ k, of m] f assms(2) show ?case
    by (intro keeps_StepI [where P = "\<lambda>x. x = m"]) (auto simp del: keeps.simps)
qed

lemma keeps_result: "always P p \<Longrightarrow> keeps R (\<lambda>_ _. True) (\<lambda>a _. P a) p m"
  by (induction p arbitrary: m) auto

lemma keeps_any: "steps_in G p \<Longrightarrow> keeps R G (\<lambda>_ _. True) p m"
  by (induction p arbitrary: m) auto

section \<open>What the controller thread does to a live value\<close>

definition live_change :: "nat \<Rightarrow> f64 set \<Rightarrow> shared \<Rightarrow> shared \<Rightarrow> bool" where
  "live_change i S x y \<longleftrightarrow> slot_step (Live_value i) x y \<and>
     (slot_among (Live_value i) S x \<longrightarrow> slot_among (Live_value i) S y)"

lemma live_change_same: "live_values y = live_values x \<Longrightarrow> live_change i S x y"
  by (simp add: live_change_def slot_step_def slot_change_def slot_among_def)

text \<open>
  Between two operations of the cycle: the staged values are as at the start, no live value is
  half stored, and what is flagged as staged for \<open>i\<close> is in \<open>S\<close>.
\<close>

definition cycling :: "nat \<Rightarrow> f64 set \<Rightarrow> (nat \<Rightarrow> atomic_double) \<Rightarrow> shared \<Rightarrow> bool" where
  "cycling i S pv x \<longleftrightarrow> pending_values x = pv \<and> (\<forall>j. even (sequence (pv j))) \<and>
     (\<forall>j. even (sequence (live_values x j))) \<and> (pending_value_set x i \<longrightarrow> slot_value (pv i) \<in> S)"

lemma keeps_idle_store_live:
  assumes "cycling i S pv m" and "j = i \<longrightarrow> v \<in> S"
  shows "keeps idle (live_change i S) (\<lambda>_. cycling i S pv) (atomic_double_store_value (Live_value j) v) m"
proof (rule keeps_post [OF keeps_store [where P = "\<lambda>x. pending_values x = pv \<and>
    (\<forall>j. even (sequence (pv j))) \<and> (\<forall>k. k \<noteq> j \<longrightarrow> even (sequence (live_values x k))) \<and>
    (pending_value_set x i \<longrightarrow> slot_value (pv i) \<in> S)"]])
  show "live_change i S x (put_slot (Live_value j) d x)"
    if "slot_change (get_slot (Live_value j) x) d" "even (sequence d) \<Longrightarrow> slot_value d = v" for x d
    using that assms(2)
    by (cases "j = i") (auto simp: live_change_def slot_step_def slot_among_def slot_change_def)
qed (use assms(1) in \<open>auto simp: cycling_def slot_holds_def\<close>)

lemma keeps_idle_apply_value:
  assumes "cycling i S pv m"
  shows "keeps idle (live_change i S) (\<lambda>_. cycling i S pv) (apply_pending_value j c) m"
proof -
  obtain model app where c: "c = (model, app)" by (cases c)
  let ?Q = "\<lambda>r x. cycling i S pv x \<and> (r \<noteq> 0 \<longrightarrow> j = i \<longrightarrow> slot_value (pv i) \<in> S)"
  have flag: "keeps idle (live_change i S) ?Q (atomic (exchange_value_set j)) m"
    by (rule keeps_atomicI [where P = "cycling i S pv"])
      (use assms in \<open>auto simp: exchange_value_set_def cycling_def intro!: live_change_same\<close>)
  have load: "keeps idle (live_change i S) (\<lambda>r y. r = Some (slot_value (pv j)) \<and> cycling i S pv y)
      (atomic_double_try_load (Pending_value j)) x" if "cycling i S pv x" for x
    by (rule keeps_post [OF keeps_idle_read [OF silent_try_load]])
      (use that in \<open>auto simp: run_try_load cycling_def intro!: live_change_same\<close>)
  show ?thesis
    unfolding c apply_pending_value_def prod.case
  proof (rule keeps_bind [OF flag])
    fix r x
    assume r: "?Q r x"
    show "keeps idle (live_change i S) (\<lambda>_. cycling i S pv)
      (if r \<noteq> 0 then
         pbind (atomic_double_try_load (Pending_value j)) (\<lambda>loaded.
         case loaded of
           None \<Rightarrow> pbind (atomic_do (set_value_pending j)) (\<lambda>_. Ret (model, app))
         | Some value \<Rightarrow>
             pbind (atomic_double_store_value (Live_value j) value) (\<lambda>_.
             Ret (apply_value model j value,
                  app\<lparr>applied_values := (applied_values app)(j := value),
                      applied_value_set := (applied_value_set app)(j := True)\<rparr>)))
       else Ret (model, app)) x"
    proof (cases "r = 0")
      case True
      then show ?thesis using r by (simp del: keeps.simps) (rule keeps_RetI, simp_all)
    next
      case False
      have store: "keeps idle (live_change i S) (\<lambda>_. cycling i S pv)
          (pbind (atomic_double_store_value (Live_value j) (slot_value (pv j))) (\<lambda>_. Ret c')) y"
        if "cycling i S pv y" for c' y
        by (rule keeps_bind [OF keeps_idle_store_live [OF that]])
          (use r False in \<open>auto simp del: keeps.simps intro: keeps_RetI\<close>)
      show ?thesis using False r
        by (auto simp del: keeps.simps intro!: keeps_bind [OF load] store)
    qed
  qed
qed

lemma mission_leaves_live:
  "steps_in (\<lambda>x y. live_values y = live_values x \<and> pending_values y = pending_values x \<and>
     pending_value_set y = pending_value_set x) (apply_pending_mission c)"
  unfolding apply_pending_mission_def
  by (auto simp: exchange_mission_def set_mission_pending_def split: prod.split option.split
      intro!: steps_in_bind steps_in_mono [OF silent_load_mission [where view = "\<lambda>m. m"]])

lemma keeps_idle_apply:
  assumes "cycling i S pv m"
  shows "keeps idle (live_change i S) (\<lambda>_. cycling i S pv) (cubs2_runtime_control_apply (Some model) app) m"
  unfolding cubs2_runtime_control_apply_def option.case
proof (rule keeps_bind)
  show "keeps idle (live_change i S) (\<lambda>_. cycling i S pv)
      (for_each [0..<length value_table] apply_pending_value (model, app)) m"
    by (rule keeps_for_each) (use assms in \<open>auto simp del: keeps.simps intro: keeps_idle_apply_value\<close>)
  fix c x
  assume "cycling i S pv x"
  then have "keeps idle (live_change i S) (\<lambda>_. cycling i S pv) (apply_pending_mission c) x"
    by (intro keeps_idle_steps [OF mission_leaves_live]) (auto simp: cycling_def intro: live_change_same)
  then show "keeps idle (live_change i S) (\<lambda>_. cycling i S pv)
      (pbind (apply_pending_mission c) (\<lambda>(model, app). Ret (Some model, app))) x"
    by (rule keeps_bind) (auto simp del: keeps.simps intro: keeps_RetI)
qed

lemma keeps_idle_flying:
  "cycling i S pv m \<Longrightarrow> keeps idle (live_change i S) (\<lambda>_. cycling i S pv)
     (flying cs cfg fl efmi inputs model app ctx) m"
proof (induction inputs arbitrary: model app ctx m)
  case Nil
  then show ?case by (simp del: keeps.simps) (rule keeps_RetI, simp_all)
next
  case (Cons input inputs)
  

  have pass: "keeps idle (live_change i S) (\<lambda>_. cycling i S pv)
      (realtime_pass cs cfg fl efmi input model app ctx) m"
    unfolding realtime_pass_def runtime_control_apply_def using Cons.prems
    by (auto simp del: keeps.simps split: option.split prod.split
        intro!: keeps_bind [OF keeps_idle_apply] keeps_RetI)
  show ?case unfolding flying.simps
    by (rule keeps_bind [OF pass])
      (auto simp del: keeps.simps split: option.split intro!: Cons.IH keeps_RetI)
qed

lemma controller_steps_flying: "steps_in controller_step (flying cs cfg fl efmi inputs model app ctx)"
proof (induction inputs arbitrary: model app ctx)
  case (Cons input inputs)
  have "steps_in controller_step (realtime_pass cs cfg fl efmi input model app ctx)"
    by (auto simp: realtime_pass_def runtime_control_apply_def split: option.split prod.split
        intro!: steps_in_bind controller_steps_apply)
  then show ?case using Cons by (auto split: option.split intro!: steps_in_bind)
qed simp

section \<open>Each service among the passes\<close>

text \<open>\<open>param_get\<close> only reads; its one load is among the controller thread's stores.\<close>

lemma param_get_silent: "silent (\<lambda>x. x) (handle_param_get rd fb request capacity)"
  unfolding handle_param_get_def Let_def
  by (auto split: option.split intro!: steps_in_bind silent_try_load)

lemma param_get_eq: "handle_param_get rd fb request capacity =
  (case param_get_args rd request of
     None \<Rightarrow> Ret (build_param_get_reply fb capacity Failed '''' 0 (- 1))
   | Some nm \<Rightarrow>
       if find_value nm < 0 then Ret (build_param_get_reply fb capacity Unsupported nm 0 (- 2))
       else pbind (atomic_double_try_load (Live_value (nat (find_value nm)))) (\<lambda>number.
         Ret (case number of
                None \<Rightarrow> build_param_get_reply fb capacity TemporarilyRejected nm 0 (- 3)
              | Some v \<Rightarrow> build_param_get_reply fb capacity Accepted nm v 0)))"
proof -
  have *: "case_option (Ret a) (\<lambda>v. Ret (b v)) =
      (\<lambda>number. Ret (case number of None \<Rightarrow> a | Some v \<Rightarrow> b v) :: (shared, bytes option) prog)"
    for a and b :: "f64 \<Rightarrow> bytes option"
    by (simp add: fun_eq_iff split: option.split)
  show ?thesis
    by (cases request)
      (auto simp: handle_param_get_def param_get_args_def Let_def * split: option.split)
qed

lemma cycling_start:
  assumes "at_rest m" and "S = {spec_live (runtime_abs m) i, spec_live (spec_apply (runtime_abs m)) i}"
  shows "cycling i S (pending_values m) m" and "slot_among (Live_value i) S m"
  using assms by (auto simp: cycling_def at_rest_def slots_even_def spec_apply_def runtime_abs_def slot_among_def)

lemma param_get_among_passes:
  assumes "interleaved n (handle_param_get rd fb request capacity) (flying cs cfg fl efmi inputs model app ctx) m
      reply w' m'"
    and "at_rest m" and "n < 2 ^ 32"
  shows "reply = spec_param_get_reply fb capacity (param_get_args rd request) (runtime_abs m) \<or>
    reply = spec_param_get_reply fb capacity (param_get_args rd request) (spec_apply (runtime_abs m)) \<or>
    (\<exists>nm. reply = build_param_get_reply fb capacity TemporarilyRejected nm 0 (- 3))"
proof (cases "\<exists>nm. param_get_args rd request = Some nm \<and> 0 \<le> find_value nm")
  case False
  then have "handle_param_get rd fb request capacity =
      Ret (spec_param_get_reply fb capacity (param_get_args rd request) (runtime_abs m))"
    by (auto simp: param_get_eq spec_param_get_reply_def split: option.split)
  with assms(1) interleaved_Ret show ?thesis by (metis (no_types))
next
  case True
  then obtain nm where nm: "param_get_args rd request = Some nm" "0 \<le> find_value nm" by blast
  let ?i = "nat (find_value nm)"
  let ?S = "{spec_live (runtime_abs m) ?i, spec_live (spec_apply (runtime_abs m)) ?i}"
  note start = cycling_start [OF assms(2) refl, of ?i]
  from interleaved_exec_env [OF assms(1) param_get_silent keeps_idle_flying [OF start(1)]]
  have "exec_env (live_change ?i ?S) n (handle_param_get rd fb request capacity) m reply m'" by simp
  then obtain number j1 j2 m1 where n: "n = j1 + j2"
    and load: "exec_env (live_change ?i ?S) j1 (atomic_double_try_load (Live_value ?i)) m number m1"
    and reply: "reply = (case number of
        None \<Rightarrow> build_param_get_reply fb capacity TemporarilyRejected nm 0 (- 3)
      | Some v \<Rightarrow> build_param_get_reply fb capacity Accepted nm v 0)"
    using nm by (auto simp: param_get_eq elim!: exec_env_bindE dest!: exec_env_RetD)
  have "v \<in> ?S" if "number = Some v" for v
    by (rule try_load_among [where R = "live_change ?i ?S" and s = "Live_value ?i" and m = m and n = j1])
      (use load that start(2) n assms(3) in \<open>auto simp: live_change_def\<close>)
  then show ?thesis using nm by (auto simp: reply spec_param_get_reply_def split: option.split)
qed

text \<open>The writer flag and the version, which the controller thread leaves alone.\<close>

definition version_is :: "u32 \<Rightarrow> shared \<Rightarrow> bool" where
  "version_is v x \<longleftrightarrow> plan_version x = v"

definition writer_free :: "u32 \<Rightarrow> shared \<Rightarrow> bool" where
  "writer_free v x \<longleftrightarrow> plan_version x = v \<and> \<not> command_writer x"

abbreviation (input) any_step :: "shared \<Rightarrow> shared \<Rightarrow> bool" where
  "any_step \<equiv> \<lambda>_ _. True"

lemma kept_version [simp]: "kept_by controller_step (version_is v)" "kept_by controller_step (writer_free v)"
  "kept_by R (\<lambda>_. c)"
  by (auto simp: kept_by_def version_is_def writer_free_def controller_step_def)

lemma kept_reading [simp]: "kept_by controller_step (\<lambda>x. c \<and> version_is v x)"
  by (auto simp: kept_by_def version_is_def controller_step_def)

lemma with_writer:
  assumes "writer_free v m" and "\<And>x. version_is v x \<Longrightarrow> keeps controller_step any_step Q q x"
  shows "keeps controller_step any_step Q
    (pbind (atomic test_and_set_writer) (\<lambda>busy. if busy \<noteq> 0 then p else q)) m"
proof (rule keeps_bind)
  show "keeps controller_step any_step (\<lambda>busy x. busy = 0 \<and> version_is v x) (atomic test_and_set_writer) m"
    by (rule keeps_atomicI [where P = "writer_free v"])
      (use assms(1) in \<open>simp_all\<close>, simp_all add: test_and_set_writer_def writer_free_def version_is_def)
qed (use assms(2) in \<open>simp del: keeps.simps\<close>)

lemma with_writer_result:
  "writer_free v m \<Longrightarrow> always (\<lambda>x. x = r) q \<Longrightarrow> keeps controller_step any_step (\<lambda>reply _. reply = r)
    (pbind (atomic test_and_set_writer) (\<lambda>busy. if busy \<noteq> 0 then p else q)) m"
  by (rule with_writer) (simp_all add: keeps_result del: keeps.simps)

lemma read_version:
  "version_is v m \<Longrightarrow>
   keeps controller_step any_step (\<lambda>r x. r = v \<and> version_is v x) current_plan_version m"
  unfolding current_plan_version_def
  by (rule keeps_atomicI [where P = "version_is v"]) (simp_all, simp_all add: version_is_def)

lemma param_set_among_passes:
  assumes "writer_free v m"
  shows "keeps controller_step any_step
    (\<lambda>reply _. reply = spec_param_set_reply fb capacity (param_set_args rd request))
    (handle_param_set rd fb request capacity) m"
  unfolding handle_param_set_def Let_def using assms
  by (auto simp: spec_param_set_reply_def param_set_args_def simp del: keeps.simps
      split: option.split intro!: with_writer_result always_bind' keeps_RetI)

lemma version_reply:
  "version_is v m \<Longrightarrow>
   keeps controller_step any_step (\<lambda>reply _. reply = h v) (pbind current_plan_version (\<lambda>x. Ret (h x))) m"
  by (rule keeps_bind [OF read_version]) (auto simp del: keeps.simps intro!: keeps_RetI)

lemma stage_among_passes:
  assumes "writer_free (spec_version a) m"
  shows "keeps controller_step any_step
    (\<lambda>reply _. reply = spec_trajectory_reply fb capacity (Inr (expected, mis)) a)
    (stage_mission fb capacity expected w n) m"
  unfolding stage_mission_def
proof (rule with_writer [OF assms], rule keeps_bind [OF read_version], assumption)
  fix version x
  assume "version = spec_version a \<and> version_is (spec_version a) x"
  then show "keeps controller_step any_step
    (\<lambda>reply _. reply = spec_trajectory_reply fb capacity (Inr (expected, mis)) a)
    (if expected \<noteq> 0 \<and> expected \<noteq> version then
       pbind (atomic_do clear_writer) (\<lambda>_.
       Ret (build_trajectory_reply fb capacity TemporarilyRejected version (- 4) 0))
     else
       pbind (atomic fetch_add_mission) (\<lambda>_.
       pbind (store_waypoints w) (\<lambda>_.
       pbind (atomic_do (store_segments (of_nat n))) (\<lambda>_.
       pbind (atomic fetch_add_mission) (\<lambda>_.
       pbind (atomic_do set_mission_pending) (\<lambda>_.
       pbind (atomic_do (store_plan_version (next_version version))) (\<lambda>_.
       pbind (atomic_do clear_writer) (\<lambda>_.
       Ret (build_trajectory_reply fb capacity Accepted (next_version version) 0 0))))))))) x"
    by (intro keeps_result) (auto simp: spec_trajectory_reply_def intro!: always_bind')
qed

lemma trajectory_among_passes:
  assumes "writer_free (spec_version a) m"
  shows "keeps controller_step any_step
    (\<lambda>reply _. reply = spec_trajectory_reply fb capacity (mission_of rd request) a)
    (handle_trajectory_set rd fb request capacity) m"
proof -
  have v: "version_is (spec_version a) m" using assms by (simp add: writer_free_def version_is_def)
  have reject: "keeps controller_step any_step
      (\<lambda>reply _. reply = spec_trajectory_reply fb capacity (Inl (result, detail, seq)) a)
      (pbind current_plan_version (\<lambda>version.
       Ret (build_trajectory_reply fb capacity result version detail seq))) m" for result detail seq
    using version_reply [OF v, of "\<lambda>version. build_trajectory_reply fb capacity result version detail seq"]
    by (simp only: spec_trajectory_reply_def sum.case prod.case)
  show ?thesis
    unfolding handle_trajectory_set_def Let_def
    by (auto simp: collect_waypoints_eq mission_of_def Let_def simp del: keeps.simps
        split: option.split sum.split
        intro!: reject stage_among_passes [OF assms])
qed

text \<open>
  C10 Every reply that the ground station gets while the controller flies is one that the
  abstract machine gives, before or after one cycle: however a query is interleaved with any
  number of passes, its reply is the one of the state at its start, or the one after the
  staged values were applied, or \<open>param_get\<close> is refused for now. In particular the writes of a
  ground station never fail because of the controller thread.
\<close>

theorem query_reply_among_passes:
  assumes "interleaved n (runtime_query syn service request capacity)
      (flying cs cfg fl efmi inputs model app ctx) m reply w' m'"
    and "at_rest m" and "n < 2 ^ 32"
  shows "reply = fst (spec_served syn (service, request, capacity) (runtime_abs m)) \<or>
    reply = fst (spec_served syn (service, request, capacity) (spec_apply (runtime_abs m))) \<or>
    (service = ''param_get'' \<and>
      (\<exists>nm. reply = build_param_get_reply (builder syn) capacity TemporarilyRejected nm 0 (- 3)))"
proof -
  let ?w = "flying cs cfg fl efmi inputs model app ctx"
  have free: "writer_free (spec_version (runtime_abs m)) m"
    using assms(2) by (simp add: writer_free_def at_rest_def runtime_abs_def)
  have result: "Q reply" if "interleaved n p ?w m reply w' m'" "keeps controller_step any_step (\<lambda>r _. Q r) p m"
    for p and Q :: "bytes option \<Rightarrow> bool"
  proof -
    have "steps_in any_step p" by (induction p) simp_all
    from interleaved_exec_env [OF that(1) this keeps_any [OF controller_steps_flying]] that(2)
    show ?thesis by (blast dest: exec_env_keeps)
  qed
  consider "service = ''param_set''" | "service = ''param_get''" | "service = ''trajectory_set''"
    | "service \<notin> {''param_set'', ''param_get'', ''trajectory_set''}" by blast
  then show ?thesis
  proof cases
    case 1
    with assms(1) have "interleaved n (handle_param_set (set_reader syn) (builder syn) request capacity) ?w m reply w' m'"
      by (simp add: runtime_query_def)
    from result [OF this param_set_among_passes [OF free]] 1 show ?thesis by (simp add: spec_served_def)
  next
    case 2
    with assms(1) have "interleaved n (handle_param_get (get_reader syn) (builder syn) request capacity) ?w m reply w' m'"
      by (simp add: runtime_query_def)
    from param_get_among_passes [OF this assms(2,3)] 2 show ?thesis by (simp add: spec_served_def)
  next
    case 3
    with assms(1) have "interleaved n (handle_trajectory_set (trajectory_reader syn) (builder syn) request capacity)
        ?w m reply w' m'"
      by (simp add: runtime_query_def)
    from result [OF this trajectory_among_passes [OF free]] 3 show ?thesis by (simp add: spec_served_def)
  next
    case 4
    with assms(1) have "interleaved n (Ret None) ?w m reply w' m'" by (simp add: runtime_query_def)
    from interleaved_Ret [OF this, of None] 4 show ?thesis by (auto simp: spec_served_def)
  qed
qed

end
