(* ===== verification/Control_Steps.thy ===== *)
theory Control_Steps
  imports Sil_Defined
begin

text \<open>
  When the two programs step their controllers, over whole passes. The simulator sends its
  samples at any rate, and both programs keep the controller's fixed step of 20 ms by the
  time of the sample: they step exactly on the first sample of each slot, if that sample is
  valid and, in the program in the loop, if the autopilot flies. And when the pilot takes over.
  The traces run \<open>pass_body\<close> and \<open>sil_body\<close>, which are the passes of the programs on whatever
  controller \<open>restore\<close> and \<open>apply\<close> leave among the transport thread's steps (lemmas \<open>pass_split\<close>
  and \<open>sil_pass_body\<close>).
\<close>

section \<open>The real-time program on the emulated board\<close>

text \<open>
  The passes of a run as far as the controller goes: each with its input and a function that
  stands for what \<open>apply\<close> makes of the controller in that pass, whatever the transport thread
  has staged. The trace has for each pass the controller before the step, the context the pass
  leaves, and the controller it leaves; it is \<open>None\<close> if a pass does not go on.
\<close>

fun pass_trace ::
  "'p csyn \<Rightarrow> config \<Rightarrow> flag_values \<Rightarrow> 'z efmi \<Rightarrow>
   (('z outer_loop_scheme \<Rightarrow> 'z outer_loop_scheme) \<times> 'p cycle_input) list \<Rightarrow>
   'z outer_loop_scheme \<Rightarrow> 'p control_context \<Rightarrow>
   ('z outer_loop_scheme \<times> 'p control_context \<times> 'z outer_loop_scheme) list option" where
  "pass_trace cs cfg fl efmi [] model ctx = Some []"
| "pass_trace cs cfg fl efmi ((f, input) # passes) model ctx =
     (case pass_body cs cfg fl efmi input (f model) ctx of
        Next model1 ctx1 pubs shm \<Rightarrow>
          map_option ((#) (f model, ctx1, model1)) (pass_trace cs cfg fl efmi passes model1 ctx1)
      | _ \<Rightarrow> None)"

definition sample_time :: "'p control_context \<Rightarrow> u64" where
  "sample_time ctx = odom_timestamp_us (ctx_odometry ctx)"

text \<open>What a pass makes of the controller when it steps exactly on the first samples of slots.\<close>

definition stepped_if_first ::
  "'p csyn \<Rightarrow> flag_values \<Rightarrow> 'z efmi \<Rightarrow> bool \<Rightarrow>
   'z outer_loop_scheme \<times> 'p control_context \<times> 'z outer_loop_scheme \<Rightarrow> bool" where
  "stepped_if_first cs fl efmi first = (\<lambda>(before, ctx, after). after =
     (if first \<and> odometry_valid fl (ctx_odometry ctx)
      then step_model cs efmi (previous_auto_mode ctx) (ctx_mocap ctx) before else before))"

lemma pass_of_trace:
  fixes ctx :: "'p control_context"
  assumes "pass_body cs cfg fl efmi input before ctx = Next model1 ctx1 pubs shm" and "fastdyn cfg"
    and clock: "clock_after prev (next_control_time_us ctx)" "not_before prev (slot_of (sample_time ctx1))"
      "unat (sample_time ctx1) < 2 ^ 64 - 20000"
  shows "stepped_if_first cs fl efmi (prev \<noteq> Some (slot_of (sample_time ctx1))) (before, ctx1, model1)"
    and "clock_after (Some (slot_of (sample_time ctx1))) (next_control_time_us ctx1)"
proof -
  from pass_body_read [of cs cfg fl efmi input before ctx] assms(1) obtain stepped ctx2 where
    s: "pass_step cs cfg fl efmi input before ctx = Some (stepped, ctx2)" by auto
  from body_next(1) [OF s assms(1)] have m: "model1 = stepped"
    and c: "ctx_odometry ctx1 = ctx_odometry ctx2" "ctx_mocap ctx1 = ctx_mocap ctx2"
      "previous_auto_mode ctx1 = previous_auto_mode ctx2" "next_control_time_us ctx1 = next_control_time_us ctx2"
    by (simp_all add: core_of_def)
  from s obtain step_control ctx0 where r: "read_inputs cfg fl input ctx = Some (step_control, ctx0)"
    by (auto simp: pass_step_def Option.bind_eq_Some_conv)
  obtain auto_mode ctx3 where sel: "select_mode cfg ctx0 = (auto_mode, ctx3)" by (cases "select_mode cfg ctx0")
  have st: "step_controller cs efmi step_control auto_mode (before, ctx3) = (stepped, ctx2)"
    using s by (simp add: pass_step_def r sel)
  from r assms(2) obtain odometry ctx5 where
    "fastdyn_control_step_due (read_fastdyn_odometry fl (ctx\<lparr>ctx_odometry := odometry\<rparr>)) = (step_control, ctx5)"
    "ctx0 = snd (read_manual_if_updated cfg (in_manual input) ctx5)"
    by (auto simp: read_inputs_def Option.bind_eq_Some_conv split: option.splits prod.splits)
  then have
    d: "step_control = fst (fastdyn_control_step_due (read_fastdyn_odometry fl (ctx\<lparr>ctx_odometry := odometry\<rparr>)))"
      "ctx0 = snd (read_manual_if_updated cfg (in_manual input) (snd (fastdyn_control_step_due
        (read_fastdyn_odometry fl (ctx\<lparr>ctx_odometry := odometry\<rparr>)))))"
    by simp_all
  let ?s = "read_fastdyn_odometry fl (ctx\<lparr>ctx_odometry := odometry\<rparr>)"
  let ?due = "fastdyn_control_step_due ?s"
  have man: "ctx_odometry (snd (read_manual_if_updated cfg i c)) = ctx_odometry c \<and>
      ctx_mocap (snd (read_manual_if_updated cfg i c)) = ctx_mocap c \<and>
      next_control_time_us (snd (read_manual_if_updated cfg i c)) = next_control_time_us c"
    for i and c :: "'p control_context"
    by (simp add: read_manual_if_updated_def Let_def split: prod.split)
  have due: "ctx_odometry (snd ?due) = odometry" "ctx_mocap (snd ?due) = ctx_mocap ?s"
    by (simp_all add: fastdyn_control_step_due_def read_fastdyn_odometry_def Let_def)
  have ctx2: "ctx_odometry ctx2 = odometry" "ctx_mocap ctx2 = ctx_mocap ?s"
    "next_control_time_us ctx2 = next_control_time_us (snd ?due)" "previous_auto_mode ctx2 = auto_mode"
    and ctx3: "ctx_mocap ctx3 = ctx_mocap ?s"
    using st sel man due by (auto simp: d step_controller_def select_mode_def Let_def split: if_splits)
  let ?t = "sample_time ctx1"
  have t: "?t = odom_timestamp_us odometry" by (simp add: sample_time_def c ctx2)
  have sample: "?s\<lparr>ctx_odometry := (ctx_odometry ?s)\<lparr>odom_timestamp_us := ?t\<rparr>\<rparr> = ?s"
    by (simp add: t read_fastdyn_odometry_def Let_def)
  have nxt: "next_control_time_us ?s = next_control_time_us ctx" by (simp add: read_fastdyn_odometry_def Let_def)
  note first = fastdyn_clock.due_first [of prev ?s ?t, unfolded sample nxt, OF clock]
  show "clock_after (Some (slot_of ?t)) (next_control_time_us ctx1)"
    using first(2) by (simp add: c ctx2)
  have valid: "mocap_valid (ctx_mocap ?s) = odometry_valid fl odometry"
    by (simp add: read_fastdyn_odometry_def Let_def)
  have "stepped = (if step_control \<and> odometry_valid fl odometry
      then step_model cs efmi auto_mode (ctx_mocap ?s) before else before)"
    using st by (auto simp: step_controller_def ctx3 valid split: if_splits)
  then show "stepped_if_first cs fl efmi (prev \<noteq> Some (slot_of ?t)) (before, ctx1, model1)"
    using first(1) by (simp add: stepped_if_first_def m c ctx2 d(1))
qed

lemma trace_from:
  assumes "pass_trace cs cfg fl efmi passes model ctx = Some tr" and "fastdyn cfg"
    and "clock_after prev (next_control_time_us ctx)"
    and "sorted (map (\<lambda>(_, ctx, _). slot_of (sample_time ctx)) tr)"
    and "list_all (\<lambda>(_, ctx, _). not_before prev (slot_of (sample_time ctx)) \<and> unat (sample_time ctx) < 2 ^ 64 - 20000) tr"
  shows "list_all2 (stepped_if_first cs fl efmi)
    (slot_starts prev (map (\<lambda>(_, ctx, _). slot_of (sample_time ctx)) tr)) tr"
  using assms
proof (induction passes arbitrary: model ctx tr prev)
  case (Cons pass passes)
  obtain f input where p: "pass = (f, input)" by (cases pass)
  from Cons.prems(1) obtain model1 ctx1 pubs shm rest where
    b: "pass_body cs cfg fl efmi input (f model) ctx = Next model1 ctx1 pubs shm"
    and rest: "pass_trace cs cfg fl efmi passes model1 ctx1 = Some rest" and tr: "tr = (f model, ctx1, model1) # rest"
    by (auto simp: p split: pass_result.splits)
  have now: "not_before prev (slot_of (sample_time ctx1))" "unat (sample_time ctx1) < 2 ^ 64 - 20000"
    using Cons.prems(5) by (simp_all add: tr)
  note step = pass_of_trace [OF b Cons.prems(2,3) now]
  have "list_all2 (stepped_if_first cs fl efmi)
      (slot_starts (Some (slot_of (sample_time ctx1))) (map (\<lambda>(_, ctx, _). slot_of (sample_time ctx)) rest)) rest"
    using Cons.prems(4,5) by (intro Cons.IH [OF rest Cons.prems(2) step(2)]) (auto simp: tr list_all_iff)
  then show ?case using step(1) by (simp add: tr)
qed simp

text \<open>
  C25 FastDyn sends samples at any rate; over any passes of the real-time program on the
  emulated board whose samples do not go back in time, whatever \<open>apply\<close> changes between them,
  the controller is stepped exactly in the passes whose sample is valid and the first of its
  20 ms slot, once and on that sample, and no other pass changes it. The slots that can have a
  step are the slots that have a sample.
\<close>

theorem fastdyn_steps_once_per_slot:
  assumes "fastdyn cfg" and "pass_trace cs cfg fl efmi passes model ctx = Some tr"
    and "next_control_time_us ctx = 0"
    and "sorted (map (\<lambda>(_, ctx, _). slot_of (sample_time ctx)) tr)"
    and "list_all (\<lambda>(_, ctx, _). unat (sample_time ctx) < 2 ^ 64 - 20000) tr"
  shows "list_all2 (stepped_if_first cs fl efmi)
      (slot_starts None (map (\<lambda>(_, ctx, _). slot_of (sample_time ctx)) tr)) tr \<and>
    length (filter id (slot_starts None (map (\<lambda>(_, ctx, _). slot_of (sample_time ctx)) tr))) =
      card (set (map (\<lambda>(_, ctx, _). slot_of (sample_time ctx)) tr))"
proof
  show "list_all2 (stepped_if_first cs fl efmi)
      (slot_starts None (map (\<lambda>(_, ctx, _). slot_of (sample_time ctx)) tr)) tr"
    by (rule trace_from [OF assms(2,1) _ assms(4)]) (use assms(3,5) in \<open>simp_all add: list_all_iff split_def\<close>)
qed (rule count_slots [OF assms(4)])

section \<open>The program in the loop\<close>

text \<open>A pass without a sample does not reach the controller and is not in the trace.\<close>

fun sil_trace ::
  "'p csyn \<Rightarrow> config \<Rightarrow> flag_values \<Rightarrow> 'z efmi \<Rightarrow>
   (('z outer_loop_scheme \<Rightarrow> 'z outer_loop_scheme) \<times> 'p sil_input) list \<Rightarrow>
   'z outer_loop_scheme \<Rightarrow> 'p sil_context \<Rightarrow>
   ('z outer_loop_scheme \<times> 'p sil_context \<times> 'z outer_loop_scheme) list option" where
  "sil_trace cs cfg fl efmi [] model ctx = Some []"
| "sil_trace cs cfg fl efmi ((f, input) # passes) model ctx =
     (case sil_body cs cfg fl efmi input (f model) ctx of
        Sil_next model1 ctx1 pubs shm \<Rightarrow>
          map_option ((#) (f model, ctx1, model1)) (sil_trace cs cfg fl efmi passes model1 ctx1)
      | Sil_again ctx1 \<Rightarrow> sil_trace cs cfg fl efmi passes model ctx1
      | _ \<Rightarrow> None)"

definition sil_stepped_if_first ::
  "'p csyn \<Rightarrow> flag_values \<Rightarrow> 'z efmi \<Rightarrow> bool \<Rightarrow>
   'z outer_loop_scheme \<times> 'p sil_context \<times> 'z outer_loop_scheme \<Rightarrow> bool" where
  "sil_stepped_if_first cs fl efmi first = (\<lambda>(before, ctx, after). after =
     (if first \<and> sil_previous_auto_mode ctx \<and> sil_odometry_valid fl (sil_odometry ctx)
      then sil_step_model cs efmi (sil_odometry ctx) before else before))"

lemma sil_finish_steps:
  assumes "sil_finish cs cfg fl efmi input auto_mode model0 ctx0 = Sil_next model1 ctx1 pubs shm"
    and "simulated_time cfg" and "auto_mode = sil_previous_auto_mode ctx0"
    and clock: "clock_after prev (sil_next_control_time_us ctx0)" "not_before prev (slot_of (lockstep_time_us ctx1))"
      "unat (lockstep_time_us ctx1) < 2 ^ 64 - 20000"
  shows "sil_stepped_if_first cs fl efmi (prev \<noteq> Some (slot_of (lockstep_time_us ctx1))) (model0, ctx1, model1)"
    and "clock_after (Some (slot_of (lockstep_time_us ctx1))) (sil_next_control_time_us ctx1)"
proof -
  obtain due ctx2 where due: "simulated_step_due ctx0 = (due, ctx2)" by (cases "simulated_step_due ctx0")
  then have due': "control_step_due cfg ctx0 = (due, ctx2)" using assms(2) by (simp add: control_step_due_def)
  note d = step_due_result [OF due']
  from assms(1) obtain model2 ctx3 where
    c: "sil_control cs fl efmi due auto_mode model0 ctx2 = Some (model2, ctx3)"
    by (auto simp: sil_finish_def due' split: option.splits)
  let ?ctx = "ctx3\<lparr>sil_main_loop_us := sin_cycles_to_us input (sin_end_cycles input - sin_start_cycles input)\<rparr>"
  obtain ctx4 pubs4 where p: "sil_publish_outputs cs cfg fl (sin_uptime_ms input) model2 auto_mode ?ctx = (ctx4, pubs4)"
    by (cases "sil_publish_outputs cs cfg fl (sin_uptime_ms input) model2 auto_mode ?ctx")
  have e: "model1 = model2" "ctx1 = ctx4"
    using assms(1) by (auto simp: sil_finish_def due' c p Let_def split: if_splits prod.splits)
  have core: "sil_core_of ctx4 = sil_core_of ?ctx"
    using p by (auto simp: sil_publish_outputs_def sil_update_telemetry_def Let_def sil_core_of_def)
  have ctx3: "lockstep_time_us ctx3 = lockstep_time_us ctx2" "sil_odometry ctx3 = sil_odometry ctx2"
    "sil_next_control_time_us ctx3 = sil_next_control_time_us ctx2"
    "sil_previous_auto_mode ctx3 = sil_previous_auto_mode ctx2"
    and m: "model2 = (if auto_mode \<and> due \<and> sil_odometry_valid fl (sil_odometry ctx2)
      then sil_step_model cs efmi (sil_odometry ctx2) model0 else model0)"
    using c by (auto simp: sil_control_def Let_def Option.bind_eq_Some_conv split: if_splits)
  have ctx1: "lockstep_time_us ctx1 = lockstep_time_us ctx0" "sil_odometry ctx1 = sil_odometry ctx2"
    "sil_next_control_time_us ctx1 = sil_next_control_time_us ctx2" "sil_previous_auto_mode ctx1 = auto_mode"
    using core d ctx3 assms(3) by (simp_all add: e sil_core_of_def)
  let ?t = "lockstep_time_us ctx1"
  have sample: "ctx0\<lparr>lockstep_time_us := ?t\<rparr> = ctx0" by (simp add: ctx1)
  note first = sil_clock.due_first [of prev ctx0 ?t, unfolded sample due, OF clock]
  show "clock_after (Some (slot_of ?t)) (sil_next_control_time_us ctx1)" using first(2) by (simp add: ctx1)
  show "sil_stepped_if_first cs fl efmi (prev \<noteq> Some (slot_of ?t)) (model0, ctx1, model1)"
    using first(1) by (auto simp: sil_stepped_if_first_def e(1) m ctx1(2,4))
qed

lemma engaged_simps [simp]:
  "sil_next_control_time_us (engaged_context auto_mode ctx) = sil_next_control_time_us ctx"
  "sil_previous_auto_mode (engaged_context auto_mode ctx) = auto_mode"
  by (simp_all add: engaged_context_def)

lemma sil_inputs_next:
  "sil_inputs cfg input ctx = (auto_mode, ctx') \<Longrightarrow> sil_next_control_time_us ctx' = sil_next_control_time_us ctx"
  by (auto simp: sil_inputs_def Let_def)

lemma sil_reads_again:
  "sil_read_odometry cfg input ctx = Again ctx' \<Longrightarrow> sil_next_control_time_us ctx' = sil_next_control_time_us ctx"
  by (auto simp: sil_read_odometry_def read_odometry_if_updated_def Let_def
      split: if_splits option.splits prod.splits)

lemma sil_trace_from:
  assumes "sil_trace cs cfg fl efmi passes model ctx = Some tr" and "simulated_time cfg"
    and "clock_after prev (sil_next_control_time_us ctx)"
    and "sorted (map (\<lambda>(_, ctx, _). slot_of (lockstep_time_us ctx)) tr)"
    and "list_all (\<lambda>(_, ctx, _). not_before prev (slot_of (lockstep_time_us ctx)) \<and>
      unat (lockstep_time_us ctx) < 2 ^ 64 - 20000) tr"
  shows "list_all2 (sil_stepped_if_first cs fl efmi)
    (slot_starts prev (map (\<lambda>(_, ctx, _). slot_of (lockstep_time_us ctx)) tr)) tr"
  using assms
proof (induction passes arbitrary: model ctx tr prev)
  case (Cons pass passes)
  obtain f input where p: "pass = (f, input)" by (cases pass)
  from Cons.prems(1) consider
      ctx1 where "sil_body cs cfg fl efmi input (f model) ctx = Sil_again ctx1"
        "sil_trace cs cfg fl efmi passes model ctx1 = Some tr"
    | model1 ctx1 pubs shm rest where "sil_body cs cfg fl efmi input (f model) ctx = Sil_next model1 ctx1 pubs shm"
        "sil_trace cs cfg fl efmi passes model1 ctx1 = Some rest" "tr = (f model, ctx1, model1) # rest"
    by (auto simp: p split: sil_result.splits)
  then show ?case
  proof cases
    case 1
    have "sil_finish cs cfg fl efmi input a m c \<noteq> Sil_again ctx1" for a m c
      using sil_finish_results [of cs cfg fl efmi input a m c] by auto
    with 1(1) have "sil_read_odometry cfg input ctx = Again ctx1"
      by (auto simp: sil_body_def split: odometry_result.splits prod.splits)
    then have "clock_after prev (sil_next_control_time_us ctx1)"
      using Cons.prems(3) by (simp add: sil_reads_again)
    from Cons.IH [OF 1(2) Cons.prems(2) this Cons.prems(4,5)] show ?thesis .
  next
    case 2
    from 2(1) obtain c0 auto_mode c1 where read: "sil_read_odometry cfg input ctx = Read c0"
      and inp: "sil_inputs cfg input c0 = (auto_mode, c1)"
      and fin: "sil_finish cs cfg fl efmi input auto_mode (f model) (engaged_context auto_mode c1) =
        Sil_next model1 ctx1 pubs shm"
      by (auto simp: sil_body_def split: odometry_result.splits prod.splits)
    have clk: "clock_after prev (sil_next_control_time_us (engaged_context auto_mode c1))"
      using Cons.prems(3) sil_reads_result [OF read] sil_inputs_next [OF inp] by simp
    have now: "not_before prev (slot_of (lockstep_time_us ctx1))" "unat (lockstep_time_us ctx1) < 2 ^ 64 - 20000"
      using Cons.prems(5) by (simp_all add: 2(3))
    note step = sil_finish_steps [OF fin Cons.prems(2) _ clk now, simplified]
    have "list_all2 (sil_stepped_if_first cs fl efmi)
        (slot_starts (Some (slot_of (lockstep_time_us ctx1)))
          (map (\<lambda>(_, ctx, _). slot_of (lockstep_time_us ctx)) rest)) rest"
      using Cons.prems(4,5) step(2) by (intro Cons.IH [OF 2(2) Cons.prems(2)]) (auto simp: 2(3) list_all_iff)
    then show ?thesis using step(1) by (simp add: 2(3))
  qed
qed simp

text \<open>
  C24 In simulated time, over any passes of the program in the loop whose samples do not go
  back in time, whatever the engagements, \<open>restore\<close> and \<open>apply\<close> make of the controller, it is
  stepped exactly in the passes that are the first of their 20 ms slot, have a valid
  odometry and are flown by the autopilot, once and on that odometry, and the rest of a pass
  does not change it.
\<close>

theorem sil_steps_once_per_slot:
  assumes "simulated_time cfg" and "sil_trace cs cfg fl efmi passes model ctx = Some tr"
    and "sil_next_control_time_us ctx = 0"
    and "sorted (map (\<lambda>(_, ctx, _). slot_of (lockstep_time_us ctx)) tr)"
    and "list_all (\<lambda>(_, ctx, _). unat (lockstep_time_us ctx) < 2 ^ 64 - 20000) tr"
  shows "list_all2 (sil_stepped_if_first cs fl efmi)
      (slot_starts None (map (\<lambda>(_, ctx, _). slot_of (lockstep_time_us ctx)) tr)) tr \<and>
    length (filter id (slot_starts None (map (\<lambda>(_, ctx, _). slot_of (lockstep_time_us ctx)) tr))) =
      card (set (map (\<lambda>(_, ctx, _). slot_of (lockstep_time_us ctx)) tr))"
proof
  show "list_all2 (sil_stepped_if_first cs fl efmi)
      (slot_starts None (map (\<lambda>(_, ctx, _). slot_of (lockstep_time_us ctx)) tr)) tr"
    by (rule sil_trace_from [OF assms(2,1) _ assms(4)]) (use assms(3,5) in \<open>simp_all add: list_all_iff split_def\<close>)
qed (rule count_slots [OF assms(4)])

section \<open>The pilot\<close>

lemma select_mode_manual: "ctx_manual (snd (select_mode cfg ctx)) = ctx_manual ctx"
  by (simp add: select_mode_def Let_def)

text \<open>The manual channels of a pass that goes on are those that its read left.\<close>

lemma pass_manual:
  fixes ctx :: "'p control_context"
  assumes "pass_body cs cfg fl efmi input before ctx = Next model1 ctx1 pubs shm"
    and "\<And>c :: 'p control_context. ctx_manual c = ctx_manual ctx \<Longrightarrow> manual_generation c = manual_generation ctx \<Longrightarrow>
      ctx_manual (snd (read_manual_if_updated cfg (in_manual input) c)) = manual"
  shows "ctx_manual ctx1 = manual"
proof -
  from pass_body_read [of cs cfg fl efmi input before ctx] assms(1) obtain stepped ctx2 where
    s: "pass_step cs cfg fl efmi input before ctx = Some (stepped, ctx2)" by auto
  from body_next(1) [OF s assms(1)] have c: "ctx_manual ctx1 = ctx_manual ctx2" by (simp add: core_of_def)
  from s obtain step_control ctx0 where r: "read_inputs cfg fl input ctx = Some (step_control, ctx0)"
    by (auto simp: pass_step_def Option.bind_eq_Some_conv)
  obtain auto_mode ctx3 where sel: "select_mode cfg ctx0 = (auto_mode, ctx3)" by (cases "select_mode cfg ctx0")
  have "step_controller cs efmi step_control auto_mode (before, ctx3) = (stepped, ctx2)"
    using s by (simp add: pass_step_def r sel)
  then have "ctx_manual ctx2 = ctx_manual ctx0"
    using select_mode_manual [of cfg ctx0] by (auto simp: step_controller_def sel split: if_splits)
  moreover from r obtain c where "ctx0 = snd (read_manual_if_updated cfg (in_manual input) c)"
    "ctx_manual c = ctx_manual ctx" "manual_generation c = manual_generation ctx"
    by (auto simp: read_inputs_def read_mocap_if_updated_def read_fastdyn_odometry_def fastdyn_control_step_due_def
        Let_def Option.bind_eq_Some_conv split: option.splits prod.splits if_splits)
  ultimately show ?thesis using assms(2) by (simp add: c)
qed

text \<open>
  C27 The pilot can always take over: in a pass in which the manual topic has a new sample that
  is valid, with its first five channels and the switch from 900 to 2100 and the switch at or
  below the threshold, what is sent to the actuators, and published first, is made of exactly
  that sample's channels, whatever the controller computes, the pose is, and the ground station
  sends among its steps.
\<close>

theorem pilot_takes_over:
  assumes "interleaved n (realtime_pass cs cfg fl efmi input model app ctx) w m
      (Next model1 ctx1 pubs shm, app1) w1 m1"
    and "manual_override cfg" and "zros_bridge cfg"
    and "manual_topic_generation (in_manual input) \<noteq> 0"
    and "manual_topic_generation (in_manual input) \<noteq> manual_generation ctx"
    and "manual_topic_read (in_manual input) (ctx_manual ctx) = (0, manual)" and "manual_valid manual"
    and "list_all (\<lambda>i. 900 \<le> sint (manual_rc manual i) \<and> sint (manual_rc manual i) \<le> 2100)
      [0, 1, 2, 3, 4, auto_switch_channel cfg]"
    and "sint (manual_rc manual (auto_switch_channel cfg)) \<le> sint (auto_switch_threshold_us cfg)"
  shows "control_rc ctx1 = manual_rc manual \<and>
    (\<exists>now_us pwm rest. pubs =
      Pub_pwm_signal_outputs (csyn_pwm_outputs_from_rc cs (manual_rc manual) now_us pwm) # rest) \<and>
    (\<exists>now_us pwm. pwm_outputs ctx1 = csyn_pwm_outputs_from_rc cs (manual_rc manual) now_us pwm)"
proof -
  from pass_split [OF assms(1)] obtain before where
    b: "pass_body cs cfg fl efmi input before ctx = Next model1 ctx1 pubs shm"
    by (auto split: option.splits)
  have man: "ctx_manual ctx1 = manual"
    by (rule pass_manual [OF b]) (use assms(3-6) in \<open>simp add: read_manual_if_updated_def Let_def\<close>)
  have "\<not> auto_mode_selected cfg manual"
    using assms(2,7-9) by (simp add: manual_mode_eq channels_valid_def in_pwm_range_def sle_def upto_5)
  moreover have "pass_post cs cfg fl input model1 ctx1 pubs shm"
    using interleaved_always [OF assms(1) pass_always] by simp
  ultimately have "control_rc ctx1 = manual_rc manual" and "\<exists>now_us pwm rest.
      pwm_outputs ctx1 = csyn_pwm_outputs_from_rc cs (control_rc ctx1) now_us pwm \<and>
      pubs = Pub_pwm_signal_outputs (pwm_outputs ctx1) # rest"
    by (auto simp: pass_post_def due_channels_def man)
  then show ?thesis by auto
qed

end
