(* ===== verification/Realtime_Examples.thy ===== *)
theory Realtime_Examples
  imports Control_Steps
begin

text \<open>
  Concrete instances for the loop of \<open>src/main_realtime.c\<close>: a clamp, angles that are 0, a
  controller on a route of one segment whose step changes nothing, and the inputs of a
  pass without a sample; and the witnesses of the theorems on the loop.
\<close>

definition example_csyn :: "nat csyn" where
  "example_csyn =
     \<lparr>csyn_clampf = (\<lambda>x lo hi. if \<not> f32_le lo x then lo else if \<not> f32_le x hi then hi else x),
      csyn_pwm_from_centered_axis = (\<lambda>_. 1500), csyn_pwm_from_throttle_axis = (\<lambda>_. 1000),
      csyn_euler_from_quatf = (\<lambda>_. (0, 0, 0)),
      csyn_quatf_from_euler = (\<lambda>_ _ _. \<lparr>quat_w = 0x3F800000, quat_x = 0, quat_y = 0, quat_z = 0\<rparr>),
      csyn_pwm_outputs_from_rc = (\<lambda>rc t old. unat (rc 2)), atan2f = (\<lambda>_ _. 0)\<rparr>"

definition example_config :: config where
  "example_config =
     \<lparr>fastdyn = False, lockstep_mode = False, simulated_time = False, manual_override = True,
      zros_bridge = True, runtime_control = True, auto_switch_channel = 5,
      auto_switch_threshold_us = 1500, sizeof_raw_pose = 64\<rparr>"

definition example_flags :: flag_values where
  "example_flags =
     \<lparr>position_valid = 1, attitude_valid = 2, linear_velocity_valid = 4, angular_velocity_valid = 8,
      outlier_rejected = 16, lost = 32, estimate_attitude_valid = 1, estimate_rates_valid = 2,
      health_armed = 1, health_failsafe = 2, segment_flag_start = 1, segment_flag_final = 2,
      ignore_velocity_x = 1, ignore_velocity_y = 2, ignore_velocity_z = 4,
      ignore_acceleration_x = 8, ignore_acceleration_y = 16, ignore_acceleration_z = 32\<rparr>"

definition example_efmi :: "unit efmi" where
  "example_efmi = \<lparr>efmi_init = id, efmi_recalibrate = id, efmi_step = id\<rparr>"

definition example_flyer :: outer_loop where
  "example_flyer = example_model
     \<lparr>rollCommand := 0, rollCommandPreview := 0, tecs_pitchCommand := 0, pitchCommandPreview := 0,
      desiredHeading := 0, stabilizer := 0, throttle := 0, desiredSpeed := 0, courseError := 0\<rparr>"

definition example_pose :: pose_input where
  "example_pose =
     \<lparr>pose_generation = 1, pose_copied = True, pose_len = 64,
      pose_position = \<lparr>vec_x = 0, vec_y = 0, vec_z = 0\<rparr>,
      pose_attitude = \<lparr>quat_w = 0x3F800000, quat_x = 0, quat_y = 0, quat_z = 0\<rparr>,
      pose_uptime_ms = 20\<rparr>"

definition example_input :: "nat cycle_input" where
  "example_input =
     \<lparr>in_transport = False, in_wait = None, in_shm = undefined, in_respond = id,
      in_pose = example_pose,
      in_manual = \<lparr>manual_topic_generation = 0, manual_topic_read = (\<lambda>m. (0, m))\<rparr>,
      in_start_cycles = 0, in_end_cycles = 7, in_cycles_to_us = id, in_uptimes = (20, 21)\<rparr>"

definition example_context :: "nat control_context" where
  "example_context = zero_control_context (undefined\<lparr>pwm_outputs := 0\<rparr>)"

lemmas example_loop_defs = example_csyn_def example_config_def example_flags_def example_efmi_def
  example_flyer_def example_pose_def example_input_def example_context_def zero_control_context_def

lemma fp_leq_refl: "x \<noteq> NaN \<Longrightarrow> fp_leq x x"
  by (cases x) auto

lemma f32_le_refl: "\<not> nan32 x \<Longrightarrow> f32_le x x"
  by (simp add: f32_le_def nan32_def fp_leq_refl)

lemma f32_le_number: "f32_le x y \<Longrightarrow> \<not> nan32 x \<and> \<not> nan32 y"
  by (cases "f32_unpack x"; cases "f32_unpack y") (auto simp: f32_le_def nan32_def)

lemma example_clamps: "clamps example_csyn"
  using f32_le_refl f32_le_number by (auto simp: clamps_def example_csyn_def)

lemma example_angles: "angles_defined example_csyn"
  by (simp add: angles_defined_def example_csyn_def nan32_def unpack_limits)

lemma example_zero: "\<not> nan64 0" "fits_milli 0"
proof -
  have z: "f64_unpack 0 = Fin False 0 (- 1074)" by (simp add: f64_unpack_def fp_unpack_def fp_emin_def)
  then show "\<not> nan64 0" by (simp add: nan64_def)
  show "fits_milli 0" by (simp add: fits_milli_def fp_within_def z)
qed

text \<open>Commands that fit every cast of a pass, in either mode; nothing in the program changes them.\<close>

definition example_fit :: "'z outer_loop_scheme \<Rightarrow> bool" where
  "example_fit model \<longleftrightarrow> commands_fit True True model \<and> commands_fit False True model"

lemma example_fit_commands: "example_fit model \<Longrightarrow> commands_fit auto_mode pose_valid model"
  by (cases auto_mode) (auto simp: example_fit_def commands_fit_def)

lemma example_commands: "example_fit example_flyer"
  by (simp add: example_fit_def commands_fit_def channels_fit_def angle_commands_def example_flyer_def example_zero)

lemma example_flyer_route [simp]:
  "leaf example_flyer = leaf example_model" "currentWaypoint example_flyer = 1"
  "route_nSegments example_flyer = 1" "route_waypoints example_flyer = (\<lambda>_ _. 0)"
  by (simp_all add: example_flyer_def)

lemma example_flyer_sane: "sane example_flyer"
proof -
  have "on_route example_flyer = on_route example_model"
    by (simp add: on_route_def example_flyer_def)
  then show ?thesis using example_model_on_route
    by (simp add: sane_def leafs_finite_def route_finite_def list_all_iff)
qed

lemmas example_fit_defs = example_fit_def commands_fit_def channels_fit_def angle_commands_def

lemma example_fit_input [simp]:
  "example_fit ((fixed_wing_map_input cs mocap model)\<lparr>engaged := e\<rparr>) = example_fit model"
  by (simp add: example_fit_defs fixed_wing_map_input_def Let_def split: prod.split)

lemma example_fit_value [simp]: "example_fit (apply_value model i v) = example_fit model"
  by (simp add: example_fit_defs apply_value_def Let_def)

lemma example_fit_route [simp]: "example_fit (apply_route model w n) = example_fit model"
  by (simp add: example_fit_defs apply_route_eq)

lemma example_relies: "runtime_control example_config" "keeps_parameters (efmi_step example_efmi)" "\<not> fastdyn example_config"
  by (simp_all add: example_config_def example_efmi_def keeps_parameters_def)

lemma example_fit_step:
  assumes "pass_step cs cfg fl example_efmi input before ctx = Some (stepped, ctx2)" and "example_fit before"
  shows "example_fit stepped"
proof -
  from body_after_step [OF assms(1)] obtain step_control ctx1 where
    "step_controller cs example_efmi step_control (previous_auto_mode ctx2) (before, ctx1) = (stepped, ctx2)" by metis
  then show ?thesis using assms(2)
    by (auto simp: step_controller_def step_model_def example_efmi_def split: if_splits)
qed

lemma example_context_simps [simp]:
  "mocap_valid (ctx_mocap example_context) = False" "mocap_generation example_context = 0"
  "mission_broadcast_countdown example_context = 0" "mission_broadcast_seq example_context = 0"
  "next_control_time_us example_context = 0" "pose_finite example_context"
  by (simp_all add: example_context_def zero_control_context_def pose_finite_def)

section \<open>Witnesses\<close>

lemma example_pose_accepted:
  "\<exists>ctx'. read_mocap_if_updated example_config example_pose example_context = (True, ctx') \<and>
     mocap_valid (ctx_mocap ctx')"
proof -
  have one: "f32_unpack 0x3F800000 = Fin False 8388608 (- 23)"
    by (simp add: f32_unpack_def fp_unpack_def fp_emin_def)
  have fin: "isfinite32 0" "isfinite32 0x3F800000" by (simp_all add: isfinite32_def one unpack_limits)
  have "f32_mul 0x3F800000 0x3F800000 = 0x3F800000" "f32_mul 0 0 = 0" "f32_add 0x3F800000 0 = 0x3F800000"
    "f32_sub 0x3F800000 0x3F800000 = 0"
    by code_simp+
  moreover have "f32_le (fabsf 0) 0x3DCCCCCD" by code_simp
  ultimately show ?thesis using fin
    by (simp add: read_mocap_if_updated_def example_pose_def example_config_def Let_def
        CUBS2_QUATERNION_NORM_TOLERANCE_def)
qed

theorem accepted_pose_finite_witness:
  "\<exists>ctx'. read_mocap_if_updated example_config example_pose example_context = (True, ctx') \<and>
     list_all isfinite32 (pose_values (ctx_mocap ctx'))"
  using example_pose_accepted accepted_pose_finite by blast

theorem mission_telemetry_on_route_witness:
  "\<exists>ctx' pubs. update_mission_telemetry example_flags example_flyer 5 True example_context = Some (ctx', pubs) \<and>
     uint (current_seq (ctx_mission_progress ctx')) = 0 \<and> uint (total (ctx_mission_progress ctx')) = 1"
proof -
  have "on_route example_flyer" using example_flyer_sane by (simp add: sane_def)
  from mission_telemetry_on_route [OF this, of example_flags 5 True example_context] show ?thesis by auto
qed

theorem broadcast_round_robin_witness:
  "mission_trace example_flags (replicate 3 (example_flyer, 0, True)) example_context = Some [[0], [], []]"
proof -
  have "on_route example_flyer" using example_flyer_sane by (simp add: sane_def)
  then have "list_all (\<lambda>(model, _). on_route model \<and> sint (route_nSegments model) = int 1)
      (replicate 3 (example_flyer, 0 :: u64, True))" by (simp add: list_all_iff)
  from broadcast_round_robin [OF this, of example_context example_flags] show ?thesis
    by (simp add: numeral_3_eq_3)
qed

theorem navigation_target_in_range_witness:
  "\<exists>ctx'. update_navigation_target example_csyn example_flyer 5 True example_context = Some ctx' \<and>
     list_all (\<lambda>f. \<bar>sint (f (ctx_navigation_target ctx'))\<bar> \<le> 18000)
       [desired_roll_cdeg, desired_pitch_cdeg, desired_yaw_cdeg, target_yaw_cdeg]"
proof -
  have "on_route example_flyer" using example_flyer_sane by (simp add: sane_def)
  moreover have "route_numbers example_flyer" using sane_route [OF example_flyer_sane] by simp
  moreover have "list_all (\<lambda>x. \<not> nan64 x) (angle_commands True example_flyer)"
    using example_fit_commands [OF example_commands, of True False] by (simp add: commands_fit_def)
  ultimately show ?thesis
    by (intro navigation_target_in_range example_clamps example_angles) simp_all
qed

text \<open>A pass of the loop: its start, its result and what it sends.\<close>

lemma example_start_run:
  "realtime_run example_csyn example_config example_flags example_efmi {example_input}
     (realtime_takeoff example_synapse [] example_flyer example_context)
     (example_flyer, zero_applied, zero_control_context example_context, serve example_synapse [],
      init_shared example_flyer)"
  using run_start [where ?s0.0 = "realtime_takeoff example_synapse [] example_flyer example_context"]
  by (simp add: realtime_takeoff_def)

lemma example_samples: "\<forall>input \<in> {example_input}. finite_sample example_config input"
  by (simp add: finite_sample_def example_config_def)

definition example_pass :: "(shared, (outer_loop, nat) pass_result \<times> applied) prog" where
  "example_pass = realtime_pass example_csyn example_config example_flags example_efmi example_input
     example_flyer zero_applied (zero_control_context example_context)"

lemma example_pass_fits:
  assumes "interleaved n (cubs2_runtime_control_apply (Some example_flyer) app) w m (Some before, app1) w1 m1"
    and "pass_step cs cfg fl example_efmi input before ctx = Some (stepped, ctx2)"
  shows "commands_fit auto_mode pose_valid stepped"
  using interleaved_always [OF assms(1) apply_keeps [where J = example_fit]] example_commands
    example_fit_step [OF assms(2)] example_fit_commands by auto


lemma example_next:
  obtains model1 app1 ctx1 pubs shm n w1 m1 where
    "interleaved n (realtime_pass example_csyn example_config example_flags example_efmi example_input
       example_flyer zero_applied (zero_control_context example_context))
       (serve example_synapse []) (init_shared example_flyer) (Next model1 ctx1 pubs shm, app1) w1 m1"
    "n < 2 ^ 32"
    "realtime_run example_csyn example_config example_flags example_efmi {example_input}
      (realtime_takeoff example_synapse [] example_flyer example_context) (model1, app1, ctx1, w1, m1)"
proof -
  obtain r app1 m1 where run: "run example_pass (init_shared example_flyer) = ((r, app1), m1)"
    by (metis prod.exhaust)
  from interleaved_run [OF this] have il: "interleaved 0 (realtime_pass example_csyn example_config example_flags
      example_efmi example_input example_flyer zero_applied (zero_control_context example_context))
      (serve example_synapse []) (init_shared example_flyer) (r, app1) (serve example_synapse []) m1"
    by (simp add: example_pass_def)
  from realtime_pass_ends [OF realtime_run_inv [OF example_start_run example_relies(1,2) example_flyer_sane example_samples]
      example_relies(1,2) example_clamps example_angles il] example_pass_fits example_relies(3)
  obtain model1 ctx1 pubs shm where r: "r = Next model1 ctx1 pubs shm"
    by (fastforce simp: finite_sample_def)
  from run_pass [OF example_start_run _ il [unfolded r] _ il_done]
  show thesis by (intro that [OF il [unfolded r]]) simp_all
qed

theorem realtime_flight_safe_witness:
  "\<exists>model app ctx w m. realtime_run example_csyn example_config example_flags example_efmi {example_input}
     (realtime_takeoff example_synapse [] example_flyer example_context) (model, app, ctx, w, m) \<and>
     sane model \<and> pose_finite ctx"
proof -
  obtain model1 app1 ctx1 w1 m1 where p:
    "realtime_run example_csyn example_config example_flags example_efmi {example_input}
      (realtime_takeoff example_synapse [] example_flyer example_context) (model1, app1, ctx1, w1, m1)"
    by (rule example_next)
  from p realtime_flight_safe [OF p example_relies(1,2) example_flyer_sane example_samples] show ?thesis by blast
qed

theorem pass_outputs_witness:
  "\<exists>(model1 :: outer_loop) ctx1 pubs shm. pass_post example_csyn example_config example_flags example_input model1 ctx1 pubs shm"
proof -
  obtain model1 app1 ctx1 pubs shm n w1 m1 where p:
    "interleaved n (realtime_pass example_csyn example_config example_flags example_efmi example_input
       example_flyer zero_applied (zero_control_context example_context))
       (serve example_synapse []) (init_shared example_flyer) (Next model1 ctx1 pubs shm, app1) w1 m1"
    by (rule example_next)
  from pass_outputs [OF p] show ?thesis by blast
qed

theorem realtime_messages_typed_witness:
  "\<exists>(model1 :: outer_loop) app1 ctx1 pubs shm n w1 m1.
     interleaved n (realtime_pass example_csyn example_config example_flags example_efmi example_input
       example_flyer zero_applied (zero_control_context example_context))
       (serve example_synapse []) (init_shared example_flyer) (Next model1 ctx1 pubs shm, app1) w1 m1 \<and>
     messages_ok example_flags (previous_auto_mode ctx1) model1 pubs"
proof -
  obtain model1 app1 ctx1 pubs shm n w1 m1 where p:
    "interleaved n (realtime_pass example_csyn example_config example_flags example_efmi example_input
       example_flyer zero_applied (zero_control_context example_context))
       (serve example_synapse []) (init_shared example_flyer) (Next model1 ctx1 pubs shm, app1) w1 m1" "n < 2 ^ 32"
    by (rule example_next)
  from p realtime_messages_typed [OF example_start_run example_relies(1,2) example_flyer_sane example_clamps
      example_angles example_samples p] show ?thesis by blast
qed

text \<open>Three passes, the second a long one: no drift.\<close>

theorem passes_do_not_drift_witness:
  "deadlines 200 [(1150, 1151), (1700, 1701), (1710, 1711)] 1000 = [1200, 1400, 1600]"
proof -
  let ?nows = "[(1150, 1151), (1700, 1701), (1710, 1711)] :: (int \<times> int) list"
  have "list_all (\<lambda>i. fst (?nows ! i) \<le> 1000 + (int i + 3) * 200) [0..<length ?nows]"
    by (simp add: upt_rec)
  from passes_do_not_drift [OF this] show ?thesis by (simp add: upt_rec)
qed

section \<open>The pilot takes over\<close>

definition pilot_sample :: manual_control where
  "pilot_sample = \<lparr>manual_valid = True, manual_rc = (\<lambda>_. 1200)\<rparr>"

definition pilot_input :: "nat cycle_input" where
  "pilot_input = example_input
     \<lparr>in_manual := \<lparr>manual_topic_generation = 1, manual_topic_read = (\<lambda>_. (0, pilot_sample))\<rparr>\<rparr>"

lemma pilot_next:
  obtains model1 app1 ctx1 pubs shm n w1 m1 where
    "interleaved n (realtime_pass example_csyn example_config example_flags example_efmi pilot_input
       example_flyer zero_applied (zero_control_context example_context))
       (serve example_synapse []) (init_shared example_flyer) (Next model1 ctx1 pubs shm, app1) w1 m1"
proof -
  let ?p = "realtime_pass example_csyn example_config example_flags example_efmi pilot_input
    example_flyer zero_applied (zero_control_context example_context)"
  obtain r app1 m1 where run: "run ?p (init_shared example_flyer) = ((r, app1), m1)"
    by (metis prod.exhaust)
  note il = interleaved_run [OF this, of "serve example_synapse []"]
  from realtime_pass_ends [OF realtime_run_inv [OF example_start_run example_relies(1,2) example_flyer_sane example_samples]
      example_relies(1,2) example_clamps example_angles il] example_pass_fits example_relies(3)
  obtain model1 ctx1 pubs shm where "r = Next model1 ctx1 pubs shm"
    by (fastforce simp: finite_sample_def)
  then show thesis using that il by blast
qed

text \<open>The pose is valid and the autopilot would fly: the pilot's 1200 us go out on every channel.\<close>

theorem pilot_takes_over_witness:
  "\<exists>(model1 :: outer_loop) app1 ctx1 pubs shm n w1 m1.
     interleaved n (realtime_pass example_csyn example_config example_flags example_efmi pilot_input
       example_flyer zero_applied (zero_control_context example_context))
       (serve example_synapse []) (init_shared example_flyer) (Next model1 ctx1 pubs shm, app1) w1 m1 \<and>
     control_rc ctx1 = (\<lambda>_. 1200)"
proof -
  obtain model1 app1 ctx1 pubs shm n w1 m1 where p:
    "interleaved n (realtime_pass example_csyn example_config example_flags example_efmi pilot_input
       example_flyer zero_applied (zero_control_context example_context))
       (serve example_synapse []) (init_shared example_flyer) (Next model1 ctx1 pubs shm, app1) w1 m1"
    by (rule pilot_next)
  have "control_rc ctx1 = manual_rc pilot_sample \<and>
    (\<exists>now_us pwm rest. pubs =
      Pub_pwm_signal_outputs (csyn_pwm_outputs_from_rc example_csyn (manual_rc pilot_sample) now_us pwm) # rest) \<and>
    (\<exists>now_us pwm. pwm_outputs ctx1 = csyn_pwm_outputs_from_rc example_csyn (manual_rc pilot_sample) now_us pwm)"
    by (rule pilot_takes_over [OF p])
       (simp_all add: pilot_input_def pilot_sample_def example_config_def zero_control_context_def)
  then have "control_rc ctx1 = (\<lambda>_. 1200)" by (simp add: pilot_sample_def)
  with p show ?thesis by blast
qed

section \<open>The controller's steps on the emulated board\<close>

definition board_config :: config where
  "board_config = example_config\<lparr>fastdyn := True, zros_bridge := False\<rparr>"

definition board_sample :: "u64 \<Rightarrow> odometry_data" where
  "board_sample t =
     \<lparr>odom_timestamp_us = t, odom_position = \<lparr>vec_x = 0, vec_y = 0, vec_z = 0\<rparr>,
      odom_attitude = \<lparr>quat_w = 0x3F800000, quat_x = 0, quat_y = 0, quat_z = 0\<rparr>,
      odom_linear_velocity = \<lparr>vec_x = 0, vec_y = 0, vec_z = 0\<rparr>,
      odom_angular_velocity = \<lparr>vec_x = 0, vec_y = 0, vec_z = 0\<rparr>, odom_flags = 3,
      odom_status = Odometry_other 0\<rparr>"

definition board_input :: "u64 \<Rightarrow> nat cycle_input" where
  "board_input t = example_input\<lparr>in_transport := True, in_shm := undefined\<lparr>shm_odometry := board_sample t\<rparr>\<rparr>"

lemma board_sample_ok: "odometry_valid example_flags (board_sample t)" "odometry_finite (board_sample t)"
proof -
  have "f32_unpack 0x3F800000 = Fin False 8388608 (- 23)"
    by (simp add: f32_unpack_def fp_unpack_def fp_emin_def)
  then show "odometry_finite (board_sample t)"
    by (simp add: odometry_finite_def odometry_numbers_def board_sample_def isfinite32_def unpack_limits)
  show "odometry_valid example_flags (board_sample t)"
    by (simp add: odometry_valid_def board_sample_def example_flags_def)
qed

definition board_ready :: "outer_loop \<Rightarrow> nat control_context \<Rightarrow> bool" where
  "board_ready model ctx \<longleftrightarrow> sane model \<and> example_fit model \<and> pose_finite ctx"

lemma board_pass:
  assumes "board_ready model ctx"
  shows "\<exists>model1 ctx1 pubs shm. pass_body example_csyn board_config example_flags example_efmi (board_input t) model ctx =
      Next model1 ctx1 pubs shm \<and> board_ready model1 ctx1 \<and> ctx_odometry ctx1 = board_sample t"
proof -
  let ?s = "read_fastdyn_odometry example_flags (ctx\<lparr>ctx_odometry := board_sample t\<rparr>)"
  have r: "read_inputs board_config example_flags (board_input t) ctx = Some (fastdyn_control_step_due ?s)"
    by (simp add: read_inputs_def board_config_def board_input_def cubs2_lockstep_receive_def example_input_def
        read_manual_if_updated_def split: prod.split)
  then obtain stepped ctx2 where
    s: "pass_step example_csyn board_config example_flags example_efmi (board_input t) model ctx = Some (stepped, ctx2)"
    by (cases "fastdyn_control_step_due ?s"; cases "select_mode board_config (snd (fastdyn_control_step_due ?s))")
      (auto simp: pass_step_def intro: prod.exhaust)
  have odom: "ctx_odometry ctx2 = board_sample t"
    using s by (auto simp: pass_step_def r select_mode_def step_controller_def Let_def
        fastdyn_control_step_due_def read_fastdyn_odometry_def split: if_splits)
  have "finite_sample board_config (board_input t)"
    by (simp add: finite_sample_def board_input_def board_sample_ok)
  note keep = pass_step_keeps [OF s example_relies(2) _ _ this]
  have sane: "sane stepped" "pose_finite ctx2" "example_fit stepped"
    using keep example_fit_step [OF s] assms by (simp_all add: board_ready_def)
  have "pass_body example_csyn board_config example_flags example_efmi (board_input t) model ctx \<noteq> Stop e" for e
    by (rule body_after_step [OF s])
       (auto simp: send_outputs_def cubs2_lockstep_send_def board_input_def split: option.split)
  with body_defined [OF s sane(1,2) example_clamps example_angles example_fit_commands [OF sane(3)]]
  obtain model1 ctx1 pubs shm where
    b: "pass_body example_csyn board_config example_flags example_efmi (board_input t) model ctx =
      Next model1 ctx1 pubs shm" by auto
  from body_next(1) [OF s b] sane odom have "board_ready model1 ctx1 \<and> ctx_odometry ctx1 = board_sample t"
    by (simp add: board_ready_def pose_finite_def core_of_def)
  with b show ?thesis by blast
qed

lemma board_trace:
  "board_ready model ctx \<Longrightarrow> \<exists>tr.
     pass_trace example_csyn board_config example_flags example_efmi (map (\<lambda>t. (id, board_input t)) ts) model ctx =
       Some tr \<and> map (\<lambda>(_, ctx, _). ctx_odometry ctx) tr = map board_sample ts"
proof (induction ts arbitrary: model ctx)
  case (Cons t ts)
  from board_pass [OF Cons.prems, of t] obtain model1 ctx1 pubs shm where
    b: "pass_body example_csyn board_config example_flags example_efmi (board_input t) model ctx =
      Next model1 ctx1 pubs shm" "board_ready model1 ctx1" "ctx_odometry ctx1 = board_sample t" by blast
  from Cons.IH [OF b(2)] b(1,3) show ?case by auto
qed simp

text \<open>Two samples in the first slot and one in the second, all valid: steps on the first and the third.\<close>

theorem fastdyn_steps_once_per_slot_witness:
  "\<exists>tr. pass_trace example_csyn board_config example_flags example_efmi
      (map (\<lambda>t. (id, board_input t)) [0, 10000, 20000]) example_flyer example_context = Some tr \<and>
    list_all (\<lambda>(_, ctx, _). odometry_valid example_flags (ctx_odometry ctx)) tr \<and>
    list_all2 (stepped_if_first example_csyn example_flags example_efmi) [True, False, True] tr"
proof -
  have "board_ready example_flyer example_context"
    using example_flyer_sane example_commands by (simp add: board_ready_def)
  from board_trace [OF this, of "[0, 10000, 20000]"] obtain tr where
    tr: "pass_trace example_csyn board_config example_flags example_efmi
      (map (\<lambda>t. (id, board_input t)) [0, 10000, 20000]) example_flyer example_context = Some tr"
    and o: "map (\<lambda>(_, ctx, _). ctx_odometry ctx) tr = map board_sample [0, 10000, 20000]" by blast
  have "map (\<lambda>(_, ctx, _). slot_of (sample_time ctx)) tr =
      map (\<lambda>odom. slot_of (odom_timestamp_us odom)) (map (\<lambda>(_, ctx, _). ctx_odometry ctx) tr)"
    by (simp add: sample_time_def split_def)
  then have k: "map (\<lambda>(_, ctx, _). slot_of (sample_time ctx)) tr = [0, 0, 1]"
    unfolding o by (simp add: board_sample_def slot_of_def)
  have "list_all (\<lambda>odom. unat (odom_timestamp_us odom) < 2 ^ 64 - 20000) (map (\<lambda>(_, ctx, _). ctx_odometry ctx) tr)"
    unfolding o by (simp add: board_sample_def)
  then have b: "list_all (\<lambda>(_, ctx, _). unat (sample_time ctx) < 2 ^ 64 - 20000) tr"
    by (simp add: list.pred_map comp_def sample_time_def split_def)
  have "list_all (odometry_valid example_flags) (map (\<lambda>(_, ctx, _). ctx_odometry ctx) tr)"
    unfolding o by (simp add: board_sample_ok)
  then have v: "list_all (\<lambda>(_, ctx, _). odometry_valid example_flags (ctx_odometry ctx)) tr"
    by (simp add: list.pred_map comp_def split_def)
  have "fastdyn board_config" by (simp add: board_config_def)
  from fastdyn_steps_once_per_slot [OF this tr _ _ b, unfolded k] tr v show ?thesis by auto
qed

end
