(* ===== verification/Sil_Examples.thy ===== *)
theory Sil_Examples
  imports Sil_Defined Plan_Protocol Concurrent_Replies Realtime_Examples
begin

text \<open>
  Concrete instances for the program in the loop: a controller whose initialisation gives the
  example state, and a pass without a valid odometry that engages the autopilot; and the
  witnesses of the theorems on the program.
\<close>

definition example_sil_efmi :: "unit efmi" where
  "example_sil_efmi = \<lparr>efmi_init = (\<lambda>_. example_flyer), efmi_recalibrate = id, efmi_step = id\<rparr>"

definition example_sil_input :: "nat sil_input" where
  "example_sil_input =
     \<lparr>sin_transport = False, sin_board = Native_sim, sin_wait = None, sin_shm = None, sin_respond = id,
      sin_sub_wait = 0, sin_odometry = (\<lambda>odom. (0, odom)), sin_manual = (\<lambda>manual. (0, manual)),
      sin_start_cycles = 0, sin_end_cycles = 7, sin_cycles_to_us = id, sin_uptime_ms = 20\<rparr>"

definition example_sil_context :: "nat sil_context" where
  "example_sil_context = zero_sil_context undefined"

lemma example_resets: "resets example_sil_efmi"
  using example_flyer_sane
  by (simp add: resets_def sil_reinit_def example_sil_efmi_def keeps_parameters_def list_all_iff)

lemma example_sil_reads:
  "sil_read_odometry example_config example_sil_input example_sil_context =
     Read (example_sil_context\<lparr>lockstep_time_us := 0, lockstep_time_valid := True\<rparr>)"
  by (simp add: sil_read_odometry_def read_odometry_if_updated_def example_config_def example_sil_input_def
      example_sil_context_def zero_sil_context_def)

lemma example_sil_auto:
  "sil_auto_mode_selected example_config \<lparr>manual_valid = False, manual_rc = rc\<rparr>"
  by (simp add: sil_auto_mode_selected_def sil_manual_control_valid_def channels_in_range_eq Let_def)

lemma example_sil_finish:
  assumes "sil_odometry ctx = sil_odometry example_sil_context" and "sil_previous_auto_mode ctx"
  shows "\<exists>ctx' pubs. sil_finish example_csyn example_config example_flags efmi example_sil_input True model ctx =
    Sil_next model ctx' pubs None \<and> sil_previous_auto_mode ctx' \<and> sil_control_rc ctx' = idle_output"
proof -
  have "\<not> sil_odometry_valid example_flags (sil_odometry ctx)"
    using assms(1)
    by (simp add: sil_odometry_valid_def example_sil_context_def zero_sil_context_def example_flags_def Let_def)
  then show ?thesis
    using assms(2)
    by (simp add: sil_finish_def sil_control_def control_step_due_def example_config_def sil_publish_outputs_def
        sil_update_telemetry_def Let_def sil_idle_output_def idle_output_def example_sil_input_def)
qed

lemma example_sil_config: "runtime_control example_config"
  by (simp add: example_config_def)

text \<open>The pass engages the autopilot, and sends the idle output.\<close>

lemma example_sil_manual: "sil_read_manual_if_updated (sin_manual example_sil_input) ctx = (True, ctx)"
  by (simp add: sil_read_manual_if_updated_def example_sil_input_def)

lemma example_sil_engage:
  assumes "\<not> sil_previous_auto_mode ctx"
  shows "always (\<lambda>(mo, c). (\<exists>model'. mo = Some model') \<and> sil_odometry c = sil_odometry ctx \<and> sil_previous_auto_mode c)
    (sil_engage example_config efmi True model app ctx)"
  using assms
  by (auto simp: sil_engage_def runtime_control_restore_def example_config_def
      intro!: always_bind [OF always_restore])

lemma example_sil_always:
  "always (\<lambda>(r, app'). \<exists>model' ctx' pubs. r = Sil_next model' ctx' pubs None \<and>
     sil_previous_auto_mode ctx' \<and> sil_control_rc ctx' = idle_output)
   (sil_pass example_csyn example_config example_flags efmi example_sil_input model app example_sil_context)"
proof -
  let ?ctx = "example_sil_context\<lparr>lockstep_time_us := 0, lockstep_time_valid := True\<rparr>"
  have auto: "sil_auto_mode_selected example_config (sil_manual ?ctx) = True"
    by (simp add: example_sil_context_def zero_sil_context_def example_sil_auto)
  have prev: "\<not> sil_previous_auto_mode ?ctx"
    by (simp add: example_sil_context_def zero_sil_context_def)
  have fin: "\<exists>ctx' pubs. sil_finish example_csyn example_config example_flags efmi example_sil_input True model c =
      Sil_next model ctx' pubs None \<and> sil_previous_auto_mode ctx' \<and> sil_control_rc ctx' = idle_output"
    if "sil_odometry c = sil_odometry ?ctx" "sil_previous_auto_mode c" for model :: "'a outer_loop_scheme" and c
    using example_sil_finish [of c efmi model] that by simp
  have rest: "always (\<lambda>(r, app'). \<exists>model' ctx' pubs. r = Sil_next model' ctx' pubs None \<and>
      sil_previous_auto_mode ctx' \<and> sil_control_rc ctx' = idle_output)
    (pbind (cubs2_runtime_control_apply (Some model) app) (\<lambda>(model, app).
       Ret (case model of None \<Rightarrow> Sil_undefined
            | Some model \<Rightarrow> sil_finish example_csyn example_config example_flags efmi example_sil_input True model c, app)))"
    if "sil_odometry c = sil_odometry ?ctx" "sil_previous_auto_mode c" for model :: "'a outer_loop_scheme" and c
    by (rule always_bind [OF apply_keeps [where J = "\<lambda>_. True"]]; clarsimp)
       (use fin [OF that] in blast)
  show ?thesis
    unfolding sil_pass_def example_sil_reads odometry_result.case example_sil_manual snd_conv Let_def auto
    by (rule always_bind [OF example_sil_engage [OF prev]])
       (use rest in \<open>auto simp: runtime_control_apply_def example_sil_config\<close>)
qed

lemma example_sil_run:
  obtains model app ctx w m where
    "sil_run example_csyn example_config example_flags example_sil_efmi {example_sil_input}
       (sil_takeoff example_synapse [] example_sil_efmi example_flyer undefined) (model, app, ctx, w, m)"
    "sil_previous_auto_mode ctx"
proof -
  let ?m = "init_shared (sil_reinit example_sil_efmi example_flyer)"
  let ?p = "sil_pass example_csyn example_config example_flags example_sil_efmi example_sil_input
    (sil_reinit example_sil_efmi example_flyer) zero_applied example_sil_context"
  let ?w = "serve example_synapse []"
  obtain r app m where "run ?p ?m = ((r, app), m)" by (cases "run ?p ?m") auto
  then have il: "interleaved 0 ?p ?w ?m (r, app) ?w m" by (rule interleaved_run)
  from interleaved_always [OF il example_sil_always] obtain model ctx pubs where
    r: "r = Sil_next model ctx pubs None" and prev: "sil_previous_auto_mode ctx" by auto
  have "sil_run example_csyn example_config example_flags example_sil_efmi {example_sil_input}
      (sil_takeoff example_synapse [] example_sil_efmi example_flyer undefined) (model, app, ctx, ?w, m)"
    by (rule sil_run_next [OF _ _ il [unfolded r] _ il_done])
       (simp_all add: sil_takeoff_def example_sil_context_def sil_run_start)
  with prev that show thesis by blast
qed

section \<open>Witnesses\<close>

theorem sil_pass_outputs_witness:
  "\<exists>r app m model ctx pubs shm.
     run (sil_pass example_csyn example_config example_flags example_sil_efmi example_sil_input
       example_flyer zero_applied example_sil_context) (init_shared example_flyer) = ((r, app), m) \<and>
     r = Sil_next model ctx pubs shm \<and>
     sil_post example_csyn example_config example_flags example_sil_input example_sil_context model ctx pubs shm"
proof -
  let ?p = "sil_pass example_csyn example_config example_flags example_sil_efmi example_sil_input
    example_flyer zero_applied example_sil_context"
  obtain r app m where run: "run ?p (init_shared example_flyer) = ((r, app), m)"
    by (cases "run ?p (init_shared example_flyer)") auto
  note il = interleaved_run [OF run, where w = "Ret ()"]
  from interleaved_always [OF il example_sil_always] obtain model ctx pubs where
    r: "r = Sil_next model ctx pubs None" by auto
  from sil_pass_outputs [OF il [unfolded r]] run r show ?thesis by blast
qed

text \<open>After an engagement of the autopilot.\<close>

theorem sil_flight_safe_witness:
  "\<exists>model app ctx w m.
     sil_run example_csyn example_config example_flags example_sil_efmi {example_sil_input}
       (sil_takeoff example_synapse [] example_sil_efmi example_flyer undefined) (model, app, ctx, w, m) \<and>
     sil_previous_auto_mode ctx \<and> sane model"
proof -
  obtain model app ctx w m where run: "sil_run example_csyn example_config example_flags example_sil_efmi {example_sil_input}
       (sil_takeoff example_synapse [] example_sil_efmi example_flyer undefined) (model, app, ctx, w, m)"
    "sil_previous_auto_mode ctx" by (rule example_sil_run)
  from sil_flight_safe [OF run(1) example_resets example_sil_config] run show ?thesis by blast
qed

theorem sil_engagement_keeps_tuning_witness:
  "\<exists>model app ctx w m.
     sil_run example_csyn example_config example_flags example_sil_efmi {example_sil_input}
       (sil_takeoff example_synapse [] example_sil_efmi example_flyer undefined) (model, app, ctx, w, m) \<and>
     sil_previous_auto_mode ctx \<and> carries app model \<and>
     run (atomic_double_try_load (Live_value 11)) m = (Some (leaf model (live_member (value_table ! 11))), m)"
proof -
  obtain model app ctx w m where run: "sil_run example_csyn example_config example_flags example_sil_efmi {example_sil_input}
       (sil_takeoff example_synapse [] example_sil_efmi example_flyer undefined) (model, app, ctx, w, m)"
    "sil_previous_auto_mode ctx" by (rule example_sil_run)
  have "11 < length value_table" by simp
  from sil_engagement_keeps_tuning [OF run(1) example_resets example_sil_config this] run show ?thesis by blast
qed

section \<open>A pass that steps\<close>

text \<open>A valid sample at a time, in simulated time; the pilot's input is not valid.\<close>

definition sil_timed :: config where
  "sil_timed = example_config\<lparr>simulated_time := True\<rparr>"

definition sil_sample :: "u64 \<Rightarrow> odometry_data" where
  "sil_sample t = (board_sample t)\<lparr>odom_flags := 15\<rparr>"

definition sil_valid_input :: "u64 \<Rightarrow> nat sil_input" where
  "sil_valid_input t = example_sil_input\<lparr>sin_odometry := (\<lambda>_. (0, sil_sample t))\<rparr>"

lemma sil_sample_ok: "sil_odometry_valid example_flags (sil_sample t)" "odom_timestamp_us (sil_sample t) = t"
  by (simp_all add: sil_odometry_valid_def sil_sample_def board_sample_def example_flags_def Let_def)

lemma example_fit_sil_input [simp]:
  "example_fit ((sil_map_input cs odom model)\<lparr>engaged := e\<rparr>) = example_fit model"
  by (simp add: example_fit_defs sil_map_input_def Let_def split: prod.split)

lemma example_fit_sil_step [simp]: "example_fit (sil_step_model cs example_sil_efmi odom model) = example_fit model"
  by (simp add: sil_step_model_def example_sil_efmi_def)

lemma example_fit_channels: "example_fit model \<Longrightarrow> channels_fit model"
  by (simp add: example_fit_def commands_fit_def)

lemma controller_fit:
  assumes "example_fit model"
  shows "always (\<lambda>(before, _). \<exists>model. before = Some model \<and> example_fit model)
    (sil_controller cfg example_sil_efmi auto_mode model app ctx)"
proof -
  have fresh: "example_fit (sil_reinit example_sil_efmi model)"
    using example_commands by (simp add: sil_reinit_def example_sil_efmi_def)
  have app: "always (\<lambda>(before, _). \<exists>model. before = Some model \<and> example_fit model) (runtime_control_apply cfg model app)"
    if "example_fit model" for model :: outer_loop
    using apply_keeps [of example_fit model app] that by (simp add: runtime_control_apply_def)
  have eng: "always (\<lambda>(mo, _). \<exists>model. mo = Some model \<and> example_fit model)
      (sil_engage cfg example_sil_efmi auto_mode model app ctx)"
    using restore_keeps [of example_fit "sil_reinit example_sil_efmi model" app] fresh assms
    by (auto simp: sil_engage_def runtime_control_restore_def intro!: always_bind)
  show ?thesis
    unfolding sil_controller_def by (rule always_bind [OF eng]) (use app in auto)
qed

text \<open>After an engagement, a pass with a valid sample: the controller is stepped and its output sent.\<close>

theorem sil_pass_outcome_witness:
  "\<exists>r app' m' model1 ctx1 pubs shm.
     run (sil_pass example_csyn sil_timed example_flags example_sil_efmi (sil_valid_input 0)
       example_flyer zero_applied example_sil_context) (init_shared example_flyer) = ((r, app'), m') \<and>
     r = Sil_next model1 ctx1 pubs shm"
proof -
  let ?p = "sil_pass example_csyn sil_timed example_flags example_sil_efmi (sil_valid_input 0)
    example_flyer zero_applied example_sil_context"
  obtain r app' m' where p: "run ?p (init_shared example_flyer) = ((r, app'), m')"
    by (cases "run ?p (init_shared example_flyer)") auto
  have "channels_fit (sil_step_model example_csyn example_sil_efmi odom before)"
    if "interleaved n (sil_controller sil_timed example_sil_efmi auto_mode example_flyer app ctx) w m (Some before, app1) w1 m1"
    for n auto_mode app and ctx :: "nat sil_context" and w :: "(shared, unit) prog" and m before app1 w1 m1 odom
    using interleaved_always [OF that controller_fit [OF example_commands]] by (simp add: example_fit_channels)
  moreover have "\<not> lockstep_mode sil_timed" by (simp add: sil_timed_def example_config_def)
  ultimately have "\<exists>model1 ctx1 pubs shm. r = Sil_next model1 ctx1 pubs shm"
    using sil_pass_outcome [OF interleaved_run [OF p, of "Ret ()"] example_clamps] by blast
  with p show ?thesis by blast
qed

theorem sil_messages_typed_witness:
  "\<exists>r app m model ctx pubs.
     run (sil_pass example_csyn example_config example_flags example_sil_efmi example_sil_input
       (sil_reinit example_sil_efmi example_flyer) zero_applied example_sil_context)
       (init_shared (sil_reinit example_sil_efmi example_flyer)) = ((r, app), m) \<and>
     r = Sil_next model ctx pubs None \<and> sil_messages_ok example_flags model pubs"
proof -
  let ?m = "init_shared (sil_reinit example_sil_efmi example_flyer)"
  let ?p = "sil_pass example_csyn example_config example_flags example_sil_efmi example_sil_input
    (sil_reinit example_sil_efmi example_flyer) zero_applied example_sil_context"
  obtain r app m where p: "run ?p ?m = ((r, app), m)" by (cases "run ?p ?m") auto
  note il = interleaved_run [OF p, where w = "serve example_synapse []"]
  from interleaved_always [OF il example_sil_always] obtain model ctx pubs where
    r: "r = Sil_next model ctx pubs None" by auto
  from sil_messages_typed [OF il [unfolded r] example_clamps] p r show ?thesis by blast
qed

section \<open>The controller's steps in simulated time\<close>

lemma sil_body_next:
  assumes "example_fit model" and "\<not> manual_valid (sil_manual ctx)"
  shows "\<exists>model1 ctx1 pubs shm. sil_body example_csyn sil_timed example_flags example_sil_efmi (sil_valid_input t) model ctx =
      Sil_next model1 ctx1 pubs shm \<and> example_fit model1 \<and> \<not> manual_valid (sil_manual ctx1) \<and>
      sil_odometry ctx1 = sil_sample t \<and> lockstep_time_us ctx1 = t \<and> sil_previous_auto_mode ctx1"
proof -
  let ?ctx = "ctx\<lparr>sil_odometry := sil_sample t, lockstep_time_us := t, lockstep_time_valid := True\<rparr>"
  have read: "sil_read_odometry sil_timed (sil_valid_input t) ctx = Read ?ctx"
    by (simp add: sil_read_odometry_def sil_timed_def example_config_def read_odometry_if_updated_def
        sil_valid_input_def sil_sample_ok)
  have man: "sil_manual ?ctx = \<lparr>manual_valid = False, manual_rc = manual_rc (sil_manual ctx)\<rparr>"
    using assms(2) by (cases "sil_manual ctx") simp
  have "sil_read_manual_if_updated (sin_manual (sil_valid_input t)) ?ctx = (True, ?ctx)"
    by (simp add: sil_valid_input_def sil_read_manual_if_updated_def example_sil_input_def)
  then have inp: "sil_inputs sil_timed (sil_valid_input t) ?ctx = (True, ?ctx)"
    by (simp only: sil_inputs_def snd_conv Let_def man)
       (simp add: sil_timed_def sil_auto_mode_selected_def sil_manual_control_valid_def channels_in_range_eq Let_def)
  let ?e = "engaged_context True ?ctx"
  have "sil_previous_auto_mode ?e" by simp
  then have fin: "sil_body example_csyn sil_timed example_flags example_sil_efmi (sil_valid_input t) model ctx =
      sil_finish example_csyn sil_timed example_flags example_sil_efmi (sil_valid_input t) True model ?e"
    by (simp add: sil_body_def read inp)
  have "\<not> lockstep_mode sil_timed" by (simp add: sil_timed_def example_config_def)
  with sil_finish_defined [OF example_clamps, of True ?e sil_timed example_flags example_sil_efmi model "sil_valid_input t"]
    assms(1) obtain model1 ctx1 pubs shm where
    n: "sil_finish example_csyn sil_timed example_flags example_sil_efmi (sil_valid_input t) True model ?e =
      Sil_next model1 ctx1 pubs shm" by (auto simp: example_fit_channels)
  obtain due c1 where due: "control_step_due sil_timed ?e = (due, c1)" by (cases "control_step_due sil_timed ?e")
  have e: "sil_odometry ?e = sil_sample t" "lockstep_time_us ?e = t" "sil_manual ?e = sil_manual ctx"
    by (simp_all add: engaged_context_def)
  note d = step_due_result [OF due]
  from n obtain model2 c2 where c: "sil_control example_csyn example_flags example_sil_efmi due True model c1 = Some (model2, c2)"
    by (auto simp: sil_finish_def due split: option.splits)
  have c2: "sil_odometry c2 = sil_sample t" "lockstep_time_us c2 = t" "sil_manual c2 = sil_manual ctx"
    "sil_previous_auto_mode c2" "example_fit model2"
    using c d e assms(1) by (auto simp: sil_control_def Let_def Option.bind_eq_Some_conv split: if_splits)
  have "example_fit model1 \<and> sil_odometry ctx1 = sil_sample t \<and> lockstep_time_us ctx1 = t \<and>
      sil_manual ctx1 = sil_manual ctx \<and> sil_previous_auto_mode ctx1"
    using n c2 by (auto simp: sil_finish_def due c Let_def sil_publish_outputs_def sil_update_telemetry_def
        split: if_splits prod.splits)
  with fin n assms(2) show ?thesis by auto
qed

lemma sil_example_trace:
  "example_fit model \<Longrightarrow> \<not> manual_valid (sil_manual ctx) \<Longrightarrow> \<exists>tr.
     sil_trace example_csyn sil_timed example_flags example_sil_efmi (map (\<lambda>t. (\<lambda>model. model, sil_valid_input t)) ts) model ctx =
       Some tr \<and> map (\<lambda>(_, ctx, _). lockstep_time_us ctx) tr = ts \<and>
     list_all (\<lambda>(_, ctx, _). sil_previous_auto_mode ctx \<and> sil_odometry_valid example_flags (sil_odometry ctx)) tr"
proof (induction ts arbitrary: model ctx)
  case (Cons t ts)
  from sil_body_next [OF Cons.prems, of t] obtain model1 ctx1 pubs shm where
    b: "sil_body example_csyn sil_timed example_flags example_sil_efmi (sil_valid_input t) model ctx =
      Sil_next model1 ctx1 pubs shm" "example_fit model1" "\<not> manual_valid (sil_manual ctx1)"
      "sil_odometry ctx1 = sil_sample t" "lockstep_time_us ctx1 = t" "sil_previous_auto_mode ctx1" by blast
  from Cons.IH [OF b(2,3)] obtain tr where
    "sil_trace example_csyn sil_timed example_flags example_sil_efmi (map (\<lambda>t. (\<lambda>model. model, sil_valid_input t)) ts) model1 ctx1 =
      Some tr" "map (\<lambda>(_, ctx, _). lockstep_time_us ctx) tr = ts"
    "list_all (\<lambda>(_, ctx, _). sil_previous_auto_mode ctx \<and> sil_odometry_valid example_flags (sil_odometry ctx)) tr"
    by blast
  with b sil_sample_ok(1) [of t] show ?case by (intro exI [of _ "(model, ctx1, model1) # tr"]) simp
qed simp

text \<open>Two samples in the first slot and one in the second, all valid: steps on the first and the third.\<close>

theorem sil_steps_once_per_slot_witness:
  "\<exists>tr. sil_trace example_csyn sil_timed example_flags example_sil_efmi
      (map (\<lambda>t. (\<lambda>model. model, sil_valid_input t)) [0, 10000, 20000]) example_flyer example_sil_context = Some tr \<and>
    list_all (\<lambda>(_, ctx, _). sil_previous_auto_mode ctx \<and> sil_odometry_valid example_flags (sil_odometry ctx)) tr \<and>
    list_all2 (sil_stepped_if_first example_csyn example_flags example_sil_efmi) [True, False, True] tr"
proof -
  have start: "\<not> manual_valid (sil_manual example_sil_context)" "sil_next_control_time_us example_sil_context = 0"
    by (simp_all add: example_sil_context_def zero_sil_context_def)
  obtain tr where
    tr: "sil_trace example_csyn sil_timed example_flags example_sil_efmi
      (map (\<lambda>t. (\<lambda>model. model, sil_valid_input t)) [0, 10000, 20000]) example_flyer example_sil_context = Some tr"
    and o: "map (\<lambda>(_, ctx, _). lockstep_time_us ctx) tr = [0, 10000, 20000]"
    and v: "list_all (\<lambda>(_, ctx, _). sil_previous_auto_mode ctx \<and> sil_odometry_valid example_flags (sil_odometry ctx)) tr"
    by (rule exE [OF sil_example_trace [OF example_commands start(1), of "[0, 10000, 20000]"]]) (elim conjE, rule that)
  have "map (\<lambda>(_, ctx, _). slot_of (lockstep_time_us ctx)) tr = map slot_of (map (\<lambda>(_, ctx, _). lockstep_time_us ctx) tr)"
    by (simp add: split_def)
  then have k: "map (\<lambda>(_, ctx, _). slot_of (lockstep_time_us ctx)) tr = [0, 0, 1]"
    unfolding o by (simp add: slot_of_def)
  have "list_all (\<lambda>t. unat t < 2 ^ 64 - 20000) (map (\<lambda>(_, ctx, _). lockstep_time_us ctx) tr)"
    unfolding o by simp
  then have b: "list_all (\<lambda>(_, ctx, _). unat (lockstep_time_us ctx) < 2 ^ 64 - 20000) tr"
    by (simp add: list.pred_map comp_def split_def)
  have "simulated_time sil_timed" by (simp add: sil_timed_def)
  from sil_steps_once_per_slot [OF this tr start(2) _ b, unfolded k]
  have "list_all2 (sil_stepped_if_first example_csyn example_flags example_sil_efmi) [True, False, True] tr" by simp
  with tr v show ?thesis by blast
qed

section \<open>Two ground stations\<close>

text \<open>The first byte of a request is the version it was made for.\<close>

definition versioned_synapse :: "(bytes, bytes, bytes, bytes, bytes, bytes) synapse" where
  "versioned_synapse = example_synapse
     \<lparr>trajectory_reader := example_trajectory_reader\<lparr>expected_plan_version := (\<lambda>b. ucast (hd b))\<rparr>\<rparr>"

lemma versioned_mission:
  "mission_of (trajectory_reader versioned_synapse) (Some [1]) = Inr (1, mission_points (\<lambda>_. example_segment) 1, 1)"
  by (simp add: mission_of_def versioned_synapse_def example_simps segment_ok_def vec3_finite_def
      isfinite32_def f32_unpack_def fp_unpack_def Let_def)

text \<open>Both stations saw version 1; a value is set in between, and the second mission is rejected.\<close>

theorem stale_plan_rejected_witness:
  "\<exists>(model :: outer_loop) app (ctx :: nat control_context) m answers.
     session (served versioned_synapse) (passed (realtime_pass example_csyn example_config example_flags example_efmi))
       realtime_goes_on [Ask (''trajectory_set'', Some [1], 16), Ask (''param_set'', Some [0], 16)]
       (example_flyer, zero_applied, example_context, init_shared example_flyer) =
       (answers, Some (model, app, ctx, m)) \<and>
     served versioned_synapse (''trajectory_set'', Some [1], 16) m =
       (build_trajectory_reply (builder versioned_synapse) 16 TemporarilyRejected (plan_version m) (- 4) 0, m)"
proof -
  let ?pass = "realtime_pass example_csyn example_config example_flags example_efmi"
  let ?es = "[Ask (''param_set'', Some [0], 16)] :: nat cycle_input event list"
  obtain r1 m1 where q1: "served versioned_synapse (''trajectory_set'', Some [1], 16)
      (init_shared example_flyer) = (r1, m1)" by (metis prod.exhaust)
  obtain r2 m2 where q2: "served versioned_synapse (''param_set'', Some [0], 16) m1 = (r2, m2)"
    by (metis prod.exhaust)
  have s: "session (served versioned_synapse) (passed ?pass) realtime_goes_on
      (Ask (''trajectory_set'', Some [1], 16) # ?es)
      (example_flyer, zero_applied, example_context, init_shared example_flyer) =
      ([Reply r1, Reply r2], Some (example_flyer, zero_applied, example_context, m2))"
    by (simp add: session_event_def q1 q2)
  have "plan_version (init_shared example_flyer) = spec_version (runtime_abs (init_shared example_flyer))"
    by (simp add: runtime_abs_def)
  then have v: "plan_version (init_shared example_flyer) = 1" by (simp add: init_abs)
  note mission = versioned_mission [folded v]
  from stale_plan_rejected [OF init_at_rest mission s _ mission, of 16] s show ?thesis by auto
qed

section \<open>A query among the passes\<close>

text \<open>The controller thread is in its pass when the value is asked for.\<close>

theorem query_reply_among_passes_witness:
  "\<exists>f k reply m'. flying example_csyn example_config example_flags example_efmi [example_input]
       example_flyer zero_applied example_context = Step f k \<and>
     interleaved 1 (runtime_query example_synapse ''param_get'' (Some [0]) 16)
       (flying example_csyn example_config example_flags example_efmi [example_input]
         example_flyer zero_applied example_context) (init_shared example_flyer)
       reply (k (fst (f (init_shared example_flyer)))) m' \<and>
     (reply = fst (spec_served example_synapse (''param_get'', Some [0], 16) (runtime_abs (init_shared example_flyer))) \<or>
      reply = fst (spec_served example_synapse (''param_get'', Some [0], 16)
        (spec_apply (runtime_abs (init_shared example_flyer)))) \<or>
      (\<exists>nm. reply = build_param_get_reply (builder example_synapse) 16 TemporarilyRejected nm 0 (- 3)))"
proof -
  let ?w = "flying example_csyn example_config example_flags example_efmi [example_input]
    example_flyer zero_applied example_context"
  let ?query = "runtime_query example_synapse ''param_get'' (Some [0]) 16"
  have "[0..<length value_table] = 0 # [1..<length value_table]" by (simp add: upt_conv_Cons)
  then obtain f k where w: "?w = Step f k"
    by (auto simp: realtime_pass_def read_inputs_def select_mode_def runtime_control_apply_def
        cubs2_runtime_control_apply_def apply_pending_value_def atomic_def example_config_def Let_def
        simp del: length_values)
  obtain reply m' where "run ?query (snd (f (init_shared example_flyer))) = (reply, m')"
    by (metis prod.exhaust)
  from interleaved_one_step [where f = f and k = k, OF this] have
    i: "interleaved 1 ?query ?w (init_shared example_flyer) reply (k (fst (f (init_shared example_flyer)))) m'"
    unfolding w .
  from query_reply_among_passes [OF i init_at_rest] w i show ?thesis by auto
qed

end
