(* ===== verification/Topics.thy ===== *)
theory Topics
  imports Sil_Main
begin

text \<open>
  The topics the application declares: those of the bus inside the vehicle in
  \<open>src/zros_topics.c\<close>, and those of the link to the ground in \<open>src/csyn_topics.c\<close>. The facts:
  no topic is declared twice, and each message the two programs publish, and each they
  subscribe to, has a topic declared with its type.
\<close>

section \<open>Declarations\<close>

record topic_definition =
  topic_name :: string
  data_type :: string

definition zros_topics :: "topic_definition list" where
  "zros_topics = map (\<lambda>(n, t). \<lparr>topic_name = n, data_type = t\<rparr>)
     [(''manual_control'', ''csyn_manual_control''),
      (''odometry'', ''OdometryData''),
      (''pwm_signal_outputs'', ''PwmSignalOutputsData''),
      (''vehicle_health'', ''VehicleHealthData''),
      (''attitude_estimate'', ''AttitudeEstimateData''),
      (''attitude_command'', ''AttitudeCommandData''),
      (''control_loop_metrics'', ''ControlLoopMetricsData''),
      (''mission_progress'', ''MissionProgressData''),
      (''local_position_command'', ''LocalPositionCommandData''),
      (''trajectory_segment'', ''TrajectorySegmentData''),
      (''navigation_target'', ''NavigationTargetData'')]"

datatype direction = CSYN_DIR_RX | CSYN_DIR_TX

record csyn_topic =
  csyn_id :: string
  csyn_key :: string
  csyn_dir :: direction
  csyn_data :: string

definition csyn_topics :: "bool \<Rightarrow> csyn_topic list" where
  "csyn_topics realtime = map (\<lambda>(i, k, d, t). \<lparr>csyn_id = i, csyn_key = k, csyn_dir = d, csyn_data = t\<rparr>)
     ([(''manual'', ''manual'', CSYN_DIR_RX, ''ManualControlData''),
       (if realtime then (''pose_raw'', ''qualisys/cub1/pose_raw'', CSYN_DIR_RX, ''RawPoseData'')
        else (''odom'', ''odom'', CSYN_DIR_RX, ''OdometryData'')),
       (''pwm'', ''pwm'', CSYN_DIR_TX, ''PwmSignalOutputsData''),
       (''health'', ''health'', CSYN_DIR_TX, ''VehicleHealthData''),
       (''att'', ''att'', CSYN_DIR_TX, ''AttitudeEstimateData''),
       (''att_sp'', ''att_sp'', CSYN_DIR_TX, ''AttitudeCommandData''),
       (''loop'', ''loop'', CSYN_DIR_TX, ''ControlLoopMetricsData'')] @
      (if realtime then
         [(''mission'', ''mission'', CSYN_DIR_TX, ''MissionProgressData''),
          (''pos_sp'', ''pos_sp'', CSYN_DIR_TX, ''LocalPositionCommandData''),
          (''traj'', ''traj'', CSYN_DIR_TX, ''TrajectorySegmentData''),
          (''nav'', ''nav'', CSYN_DIR_TX, ''NavigationTargetData'')]
       else []))"

section \<open>Facts\<close>

text \<open>The struct of each message.\<close>

fun publication_type :: "'p publication \<Rightarrow> string" where
  "publication_type (Pub_pwm_signal_outputs _) = ''PwmSignalOutputsData''"
| "publication_type (Pub_vehicle_health _) = ''VehicleHealthData''"
| "publication_type (Pub_attitude_estimate _) = ''AttitudeEstimateData''"
| "publication_type (Pub_attitude_command _) = ''AttitudeCommandData''"
| "publication_type (Pub_control_loop_metrics _) = ''ControlLoopMetricsData''"
| "publication_type (Pub_mission_progress _) = ''MissionProgressData''"
| "publication_type (Pub_local_position_command _) = ''LocalPositionCommandData''"
| "publication_type (Pub_trajectory_segment _) = ''TrajectorySegmentData''"
| "publication_type (Pub_navigation_target _) = ''NavigationTargetData''"

lemma topics_distinct:
  "distinct (map topic_name zros_topics)"
  "distinct (map csyn_id (csyn_topics realtime))" "distinct (map csyn_key (csyn_topics realtime))"
  by (cases realtime; simp add: zros_topics_def csyn_topics_def)+

lemma published_topics_declared:
  "\<lparr>topic_name = publication_topic p, data_type = publication_type p\<rparr> \<in> set zros_topics"
  by (cases p) (simp_all add: zros_topics_def)

lemma published_types_sent:
  "\<exists>t \<in> set (csyn_topics True). csyn_dir t = CSYN_DIR_TX \<and> csyn_data t = publication_type p"
  by (cases p) (simp_all add: csyn_topics_def)

lemma registered_topics_declared:
  "topic ` set realtime_pubs \<subseteq> topic_name ` set zros_topics"
  "topic ` set sil_pubs \<union> {''odometry'', ''manual_control''} \<subseteq> topic_name ` set zros_topics"
  by (simp_all add: realtime_pubs_def sil_pubs_def zros_topics_def)

end
