(* ===== verification/Board.thy ===== *)
theory Board
  imports Prelude
begin

text \<open>
  The board of the rehosted build, \<open>src/fastdyn_board.c\<close>: the early initialisation, the clock
  setup and the clock queries. The setters and the clock names are those of the vendor's
  clock driver, and are parameters. The facts: after the setup the queries agree with the
  core clock variable, which is what the file keeps consistent.
\<close>

section \<open>Operations\<close>

record 'd clock_driver =
  CLOCK_SetXtalFreq :: "u32 \<Rightarrow> 'd \<Rightarrow> 'd"
  CLOCK_SetRtcXtalFreq :: "u32 \<Rightarrow> 'd \<Rightarrow> 'd"
  CLOCK_SetMux_PeriphClk2 :: "u32 \<Rightarrow> 'd \<Rightarrow> 'd"
  CLOCK_SetMux_Periph :: "u32 \<Rightarrow> 'd \<Rightarrow> 'd"

text \<open>The state: the driver's own, and \<open>SystemCoreClock\<close>.\<close>

record 'd board_state =
  driver_state :: 'd
  SystemCoreClock :: u32

definition board_early_init_hook :: "'d board_state \<Rightarrow> 'd board_state" where
  "board_early_init_hook s = s"

definition clock_init :: "'d clock_driver \<Rightarrow> 'd board_state \<Rightarrow> 'd board_state" where
  "clock_init drv s =
     (let d = CLOCK_SetXtalFreq drv 24000000 (driver_state s);
          d = CLOCK_SetRtcXtalFreq drv 32768 d;
          d = CLOCK_SetMux_PeriphClk2 drv 1 d;
          d = CLOCK_SetMux_Periph drv 1 d
      in s\<lparr>driver_state := d, SystemCoreClock := 24000000\<rparr>)"

definition CLOCK_GetAhbFreq :: u32 where
  "CLOCK_GetAhbFreq = 24000000"

definition CLOCK_GetIpgFreq :: u32 where
  "CLOCK_GetIpgFreq = 24000000"

definition CLOCK_GetPerClkFreq :: u32 where
  "CLOCK_GetPerClkFreq = 24000000"

text \<open>\<open>rtc_clk\<close> stands for \<open>kCLOCK_RtcClk\<close>.\<close>

definition CLOCK_GetFreq :: "'name \<Rightarrow> 'name \<Rightarrow> u32" where
  "CLOCK_GetFreq rtc_clk name = (if name = rtc_clk then 32768 else 24000000)"

section \<open>Facts\<close>

text \<open>Every query other than that of the real-time clock gives the core clock.\<close>

lemma clock_queries_agree:
  "CLOCK_GetAhbFreq = SystemCoreClock (clock_init drv (board_early_init_hook s)) \<and>
   CLOCK_GetIpgFreq = CLOCK_GetAhbFreq \<and> CLOCK_GetPerClkFreq = CLOCK_GetAhbFreq \<and>
   (name = rtc_clk \<or> CLOCK_GetFreq rtc_clk name = SystemCoreClock (clock_init drv s))"
  by (simp add: clock_init_def board_early_init_hook_def CLOCK_GetAhbFreq_def CLOCK_GetIpgFreq_def
      CLOCK_GetPerClkFreq_def CLOCK_GetFreq_def Let_def)

end
