(* ===== verification/Spec2Isabelle.thy ===== *)
theory Spec2Isabelle
  imports Sil_Examples Topics Board
begin

text \<open>
  A verification library of the CUBS2 fixed-wing autopilot: the control programs of \<open>src/\<close>,
  the runtime control they share with the radio link, and the lockstep adapter of the
  simulator in \<open>subsys/lockstep/\<close>.

  \<^bold>\<open>The program.\<close> A generated controller (eFMI, \<open>Vehicles_Cubs2_OuterLoop\<close>) flies a route.
  \<open>src/main_realtime.c\<close> runs it in the aircraft at 50 Hz, or on the emulated board
  ("FastDyn"); \<open>src/main_sil.c\<close> runs it in the simulation loop. Both loops read the pose or
  odometry and the pilot's channels, select who flies, step the controller, and publish
  actuator outputs and telemetry. A second thread, the Zenoh transport, serves queries that
  set and get parameters and replace the route. It shares \<open>g_runtime\<close> of
  \<open>src/runtime_control.c\<close> with the controller thread, without locks: doubles are pairs of atomic
  halves with a sequence counter, the mission has a counter of its own, and the controller
  thread applies what is staged once in a cycle.

  \<^bold>\<open>How it is modelled.\<close>
  \<^item> C integers are words of their width; signed ones are read by \<open>sint\<close>. Floats are bit
    patterns (\<open>f32\<close>, \<open>f64\<close>) whose operations are computed exactly and rounded once. An
    operation that C leaves undefined (a cast that does not fit, a read out of bounds) is
    \<open>None\<close>.
  \<^item> A C function over the shared memory is a program, a tree of atomic steps in the order
    of the source (\<open>Threads\<close>). \<open>run\<close> executes one alone, \<open>interleaved\<close> among the steps of the other
    thread at any points, \<open>drive\<close> against an arbitrary other thread with a bound on its own
    steps. A function that touches only one thread's state is a plain function.
  \<^item> Compile-time options are the fields of \<open>config\<close>; each build is the same definition at
    another configuration.
  \<^item> Code that is not in the repository (flatcc readers and builders, CSyn, ZROS, Zenoh, the
    generated controller, the host's system calls, the vendor's clock driver) is a parameter,
    a record of functions. What the theorems rely on of it is a named hypothesis:
    \<open>keeps_parameters\<close> (the generated step writes no parameter and no waypoint, and leaves an
    active leg whose copies are equal and on the route; the source itself documents only that
    the leg is a valid 1-based segment), \<open>resets\<close> (its initialisation gives a sane controller with
    the same first values each time), \<open>clamps\<close> (\<open>csyn_clampf\<close> keeps a number within bounds in
    order) and \<open>angles_defined\<close> (\<open>atan2f\<close> of numbers is a number). Nothing is assumed of the
    commands that the generated controller computes. Each hypothesis has an instance at which
    a witness evaluates the theorem.

  \<^bold>\<open>Theories and code.\<close>
  \<^item> \<open>Prelude\<close>, \<open>Threads\<close>, \<open>Seqlock\<close>: words and collections; programs, interleavings, the
    rely-guarantee facts; the locale \<open>seqlock\<close> of data under a sequence counter, used for one
    double and again for the whole mission.
  \<^item> \<open>Floats\<close>, \<open>Float_Ops\<close>, \<open>Float_Facts\<close>, \<open>Float_Bounds\<close>: IEEE-754 values, operations and casts; when a
    result is NaN, how far rounding can go, and when a cast is defined.
  \<^item> \<open>Shared_State\<close>, \<open>Atomic_Double\<close>: \<open>g_runtime\<close> as the shared memory and the controller thread's
    own part; \<open>atomic_double_*\<close>.
  \<^item> \<open>Controller\<close>, \<open>Parameters\<close>, \<open>Route\<close>: the members of the controller's state that the sources
    name; the table of parameters and the public names; \<open>apply_route\<close>.
  \<^item> \<open>Messages\<close>, \<open>Services\<close>: \<open>param_set\<close>, \<open>param_get\<close>, \<open>trajectory_set\<close> and \<open>runtime_query\<close> with every
    rejection.
  \<^item> \<open>Runtime_Apply\<close>, \<open>Runtime_Spec\<close>, \<open>Runtime_Cycle\<close>: initialisation, apply and restore; the abstract
    state they refine; what is set, applied and read back.
  \<^item> \<open>Interleaving\<close>, \<open>Flight\<close>, \<open>Restart\<close>: both threads together; flights of any number of cycles,
    and restarts of the controller in flight.
  \<^item> \<open>Vehicle\<close>, \<open>Schedule\<close>, \<open>Lockstep\<close>, \<open>Topics\<close>, \<open>Board\<close>: messages, configuration and mode selection; the
    20 ms schedule as the locale \<open>step_clock\<close>, interpreted for both programs; \<open>lockstep.c\<close> and
    \<open>lockstep_host.c\<close>; the topic declarations; \<open>fastdyn_board.c\<close>.
  \<^item> \<open>Realtime_State\<close>, \<open>Realtime_Telemetry\<close>, \<open>Message_Types\<close>, \<open>Realtime_Main\<close>, \<open>Realtime_Flight\<close>:
    \<open>main_realtime.c\<close>: inputs and their validity, telemetry, the types of the messages, start and
    loop, and runs of the loop in both of its builds, with how each pass ends.
  \<^item> \<open>Sil_State\<close>, \<open>Sil_Main\<close>, \<open>Sil_Flight\<close>, \<open>Sil_Defined\<close>: \<open>main_sil.c\<close>: operations, start and loop,
    runs with engagements, and how its passes end. \<open>Control_Steps\<close>: in which passes the two programs
    step their controllers, and when the pilot takes over.
  \<^item> \<open>Session\<close>, \<open>Plan_Protocol\<close>: sessions of queries and passes on the shared memory and on its
    abstract state, with the locale \<open>session_client\<close> of what a program's pass promises, interpreted
    for both programs; the plan version as a guard against lost updates, with its extension
    \<open>version_client\<close>. \<open>Concurrent_Replies\<close>: one query among the passes of the flying controller.
  \<^item> \<open>Examples\<close>, \<open>Realtime_Examples\<close>, \<open>Sil_Examples\<close>: concrete instances and witnesses.

  \<^bold>\<open>What the theorems show.\<close>
  \<^item> Runtime control: no torn double and no mixed mission is ever read; every branch of every
    service; a query and an apply cycle each refine one step of the abstract state; what is
    set is flown and read back; what was applied survives a restart of the controller.
  \<^item> Flights: in any interleaving of any queries with any passes, for both programs, all
    parameters and waypoints are finite, every copy of the active leg is on the route, the
    flown route is one mission that was sent, and \<open>param_get\<close> reads what is flown.
  \<^item> Sessions: a whole session of either program, with its replies, publications and exits, is
    that of an abstract machine with a version, live values, staged values and a staged
    mission; a mission made for a version that is no longer the current one is never accepted.
    A query that is interleaved with passes gets a reply of that machine, before or after a
    cycle.
  \<^item> Loops: what each pass sends and publishes on every branch; that a pass goes on, or ends
    with the simulator's exchange, or does something that C leaves undefined only by a cast of
    a command that it has just computed and that is out of range: the source casts the speed,
    the roll command and the course error unclamped, while \<open>param_set\<close> accepts every finite
    number. On the emulated board these facts need finite samples (\<open>finite_sample\<close>), which
    the program does not test. That every message has its type and each topic comes once; that
    the pilot can always take over; that the controller is stepped exactly on the first sample of
    a 20 ms slot, if it is valid (and in the loop flown by the autopilot); no drift of the period;
    the round robin of the mission broadcast; the ranges of the navigation target; that the two
    programs agree on mode and outputs, up to the sign of two surfaces in the aircraft.
  \<^item> Starts and errors: the outcome of each start, with the exact condition of every exit
    code; only sound missions are staged; descriptors and mappings released; a failed
    receive keeps the message.

  \<^bold>\<open>Bounds.\<close> A query takes at most 92 atomic operations of its own, apply 733 (28 parameters at
  17, and the mission at 257), restore 112, a pass 733 in \<open>main_realtime.c\<close> and 845 in
  \<open>main_sil.c\<close>, whatever the other thread does: the reader's retries are counted by the source, so
  no fuel is needed. A safety theorem assumes fewer than \<open>2 ^ 32\<close> steps of the other thread
  within one pass, because the 32-bit sequence counters wrap around.

  \<^bold>\<open>Not modelled.\<close> The memory orders of the C11 atomics: all atomic operations are in one order.
  Sleeping, yielding, waiting and logging, which have no effect on the state. Contraction of
  floating-point expressions to fused operations. The static layout assertions of the
  lockstep header. Test programs, the host-side bridge in Rust, emulator, build and CI files.
\<close>

end
